(* ===== verification/Flex_Prelude.thy ===== *)
theory Flex_Prelude
  imports Main "HOL-Library.Sublist" "HOL-Library.Char_ord" "HOL-Library.List_Lexorder"
begin

text \<open>
  The shared vocabulary of the development: the model's basic types, the Python exceptions the
  code raises or catches, and the generic lemmas on lists, options and strings that the
  component theories use.

  An instant is an integer number of microseconds since the epoch, in UTC: the resolution of a
  Postgres \<open>timestamptz\<close> and of a Python \<open>datetime\<close>. A delay is given in seconds, as in the source.
\<close>

named_theorems py_simps \<open>equations of the Python string and value operations\<close>
named_theorems row_simps \<open>what an update of one row does to its columns\<close>

type_synonym instant = int

datatype py_error =
    ValueError string
  | TypeError string
  | RuntimeError string
  | OverflowError string
  | KeyError string
  | AttributeError string
  | OSError string
  | ParseError string
  | UniqueViolation
  | DataError string
  | HTTPException int string

definition usec :: int where
  "usec = 1000000"

definition secs :: "int \<Rightarrow> int" where
  "secs n = n * usec"

definition bind_err :: "'e + 'a \<Rightarrow> ('a \<Rightarrow> 'e + 'b) \<Rightarrow> 'e + 'b" where
  "bind_err r f = (case r of Inl e \<Rightarrow> Inl e | Inr a \<Rightarrow> f a)"

fun the_text :: "string option \<Rightarrow> string" where
  "the_text None = []"
| "the_text (Some s) = s"

text \<open>Python's \<open>s or None\<close> on a string.\<close>

definition or_none :: "string \<Rightarrow> string option" where
  "or_none s = (if s = [] then None else Some s)"

lemma bind_err_simps [simp]:
  "bind_err (Inl e) f = Inl e"
  "bind_err (Inr a) f = f a"
  by (simp_all add: bind_err_def)

lemma bind_err_cong [fundef_cong]:
  "r = r' \<Longrightarrow> (\<And>a. r' = Inr a \<Longrightarrow> f a = g a) \<Longrightarrow> bind_err r f = bind_err r' g"
  by (cases r') auto

lemma bind_err_eq_Inr: "bind_err r f = Inr b \<longleftrightarrow> (\<exists>a. r = Inr a \<and> f a = Inr b)"
  by (cases r) auto

lemma mem_map_filter: "y \<in> set (List.map_filter f xs) \<longleftrightarrow> (\<exists>x\<in>set xs. f x = Some y)"
  by (induction xs) (auto simp: List.map_filter_def)

lemma secs_mono: "a \<le> b \<Longrightarrow> secs a \<le> secs b"
  by (simp add: secs_def usec_def)

lemma secs_nonneg [simp]: "0 \<le> secs n \<longleftrightarrow> 0 \<le> n"
  by (simp add: secs_def usec_def zero_le_mult_iff)

lemma or_none_Some_iff [simp]: "or_none s = Some t \<longleftrightarrow> s = t \<and> t \<noteq> []"
  by (auto simp: or_none_def)

lemma or_none_None_iff [simp]: "or_none s = None \<longleftrightarrow> s = []"
  by (simp add: or_none_def)

lemma the_text_or_none [simp]: "the_text (or_none s) = s"
  by (simp add: or_none_def)

lemma sorted_wrt_le_last:
  fixes xs :: "'a :: linorder list"
  shows "sorted_wrt (<) xs \<Longrightarrow> x \<in> set xs \<Longrightarrow> x \<le> last xs"
  by (induction xs) (auto simp: less_imp_le)

end
