(* ===== verification/Py_Text.thy ===== *)
theory Py_Text
  imports Flex_Prelude
begin

text \<open>
  The operations on Python strings that the source calls, on HOL's \<open>string\<close>: \<open>strip\<close>, \<open>lower\<close>,
  \<open>upper\<close>, \<open>split\<close>, \<open>join\<close>, \<open>in\<close>, \<open>startswith\<close>, \<open>replace\<close>, \<open>isdigit\<close>, \<open>str(int)\<close> and \<open>int(str)\<close>.
  Text is ASCII; the few other characters of the source's message literals are carried as their
  UTF-8 bytes (\<open>em_dash\<close>, \<open>arrow\<close>, \<open>ellipsis\<close>).
\<close>

definition is_space :: "char \<Rightarrow> bool" where
  "is_space c = (let n = (of_char c :: nat) in 9 \<le> n \<and> n \<le> 13 \<or> 28 \<le> n \<and> n \<le> 32)"

definition lstrip :: "string \<Rightarrow> string" where
  "lstrip s = dropWhile is_space s"

definition rstrip :: "string \<Rightarrow> string" where
  "rstrip s = rev (dropWhile is_space (rev s))"

definition strip :: "string \<Rightarrow> string" where
  "strip s = rstrip (lstrip s)"

definition lower_char :: "char \<Rightarrow> char" where
  "lower_char c = (let n = (of_char c :: nat) in if 65 \<le> n \<and> n \<le> 90 then char_of (n + 32) else c)"

definition upper_char :: "char \<Rightarrow> char" where
  "upper_char c = (let n = (of_char c :: nat) in if 97 \<le> n \<and> n \<le> 122 then char_of (n - 32) else c)"

definition lower :: "string \<Rightarrow> string" where
  "lower s = map lower_char s"

definition upper :: "string \<Rightarrow> string" where
  "upper s = map upper_char s"

text \<open>\<open>m in s\<close>.\<close>

fun contains :: "string \<Rightarrow> string \<Rightarrow> bool" where
  "contains m [] = (m = [])"
| "contains m (c # cs) = (prefix m (c # cs) \<or> contains m cs)"

text \<open>\<open>s.split(sep)\<close> for a one-character separator, \<open>s.split()\<close>, and \<open>sep.join(xs)\<close>.\<close>

fun split_on :: "char \<Rightarrow> string \<Rightarrow> string list" where
  "split_on c [] = [[]]"
| "split_on c (d # ds) =
     (if d = c then [] # split_on c ds
      else (case split_on c ds of [] \<Rightarrow> [[d]] | w # ws \<Rightarrow> (d # w) # ws))"

fun split_ws_aux :: "string \<Rightarrow> string \<Rightarrow> string list" where
  "split_ws_aux acc [] = (if acc = [] then [] else [rev acc])"
| "split_ws_aux acc (c # cs) =
     (if is_space c then (if acc = [] then split_ws_aux [] cs else rev acc # split_ws_aux [] cs)
      else split_ws_aux (c # acc) cs)"

definition split_ws :: "string \<Rightarrow> string list" where
  "split_ws s = split_ws_aux [] s"

fun join :: "string \<Rightarrow> string list \<Rightarrow> string" where
  "join sep [] = []"
| "join sep [x] = x"
| "join sep (x # y # zs) = x @ sep @ join sep (y # zs)"

definition remove_char :: "char \<Rightarrow> string \<Rightarrow> string" where
  "remove_char c s = filter (\<lambda>d. d \<noteq> c) s"

text \<open>Digits, \<open>str(n)\<close> and \<open>int(s)\<close>.\<close>

definition is_digit :: "char \<Rightarrow> bool" where
  "is_digit c = (let n = (of_char c :: nat) in 48 \<le> n \<and> n \<le> 57)"

definition digit_val :: "char \<Rightarrow> nat" where
  "digit_val c = of_char c - 48"

definition digit_char :: "nat \<Rightarrow> char" where
  "digit_char d = char_of (48 + d)"

definition isdigit :: "string \<Rightarrow> bool" where
  "isdigit s = (s \<noteq> [] \<and> list_all is_digit s)"

definition digits_val :: "string \<Rightarrow> nat" where
  "digits_val s = foldl (\<lambda>n c. 10 * n + digit_val c) 0 s"

fun show_nat :: "nat \<Rightarrow> string" where
  "show_nat n = (if n < 10 then [digit_char n] else show_nat (n div 10) @ [digit_char (n mod 10)])"

declare show_nat.simps [simp del]

definition show_int :: "int \<Rightarrow> string" where
  "show_int n = (if n < 0 then CHR ''-'' # show_nat (nat (- n)) else show_nat (nat n))"

text \<open>Zero-padded to width \<open>w\<close>, as the date formats print fields.\<close>

fun pad :: "nat \<Rightarrow> nat \<Rightarrow> string" where
  "pad 0 n = []"
| "pad (Suc w) n = pad w (n div 10) @ [digit_char (n mod 10)]"

text \<open>
  \<open>int(s)\<close> in base 10: surrounding blanks, a sign, then digits with single underscores between
  them. \<open>None\<close> is the \<open>ValueError\<close>.
\<close>

fun digit_group :: "bool \<Rightarrow> string \<Rightarrow> string option" where
  "digit_group ok [] = (if ok then Some [] else None)"
| "digit_group ok (c # cs) =
     (if is_digit c then map_option ((#) c) (digit_group True cs)
      else if c = CHR ''_'' \<and> ok then digit_group False cs
      else None)"

definition int_literal :: "string \<Rightarrow> int option" where
  "int_literal s =
     (case strip s of
        [] \<Rightarrow> None
      | c # cs \<Rightarrow>
          if c = CHR ''-'' then map_option (\<lambda>ds. - int (digits_val ds)) (digit_group False cs)
          else if c = CHR ''+'' then map_option (\<lambda>ds. int (digits_val ds)) (digit_group False cs)
          else map_option (\<lambda>ds. int (digits_val ds)) (digit_group False (c # cs)))"

definition em_dash :: string where
  "em_dash = [CHR 0xE2, CHR 0x80, CHR 0x94]"

definition arrow :: string where
  "arrow = [CHR 0xE2, CHR 0x86, CHR 0x92]"

definition ellipsis :: string where
  "ellipsis = [CHR 0xE2, CHR 0x80, CHR 0xA6]"

subsection \<open>Stripping\<close>

lemma lstrip_Nil [simp]: "lstrip [] = []"
  by (simp add: lstrip_def)

lemma rstrip_Nil [simp]: "rstrip [] = []"
  by (simp add: rstrip_def)

lemma strip_Nil [simp]: "strip [] = []"
  by (simp add: strip_def)

lemma lstrip_idem: "s = [] \<or> \<not> is_space (hd s) \<Longrightarrow> lstrip s = s"
  by (cases s) (auto simp: lstrip_def)

lemma rstrip_idem: "s = [] \<or> \<not> is_space (last s) \<Longrightarrow> rstrip s = s"
  using lstrip_idem [of "rev s"] by (auto simp: rstrip_def lstrip_def hd_rev)

lemma strip_id: "s = [] \<or> (\<not> is_space (hd s) \<and> \<not> is_space (last s)) \<Longrightarrow> strip s = s"
  by (auto simp: strip_def lstrip_idem rstrip_idem)

lemma hd_lstrip: "lstrip s \<noteq> [] \<Longrightarrow> \<not> is_space (hd (lstrip s))"
  unfolding lstrip_def by (rule hd_dropWhile)

lemma rstrip_prefix: "\<exists>t. s = rstrip s @ t"
proof -
  have "s = rev (takeWhile is_space (rev s) @ dropWhile is_space (rev s))"
    by simp
  also have "\<dots> = rstrip s @ rev (takeWhile is_space (rev s))"
    by (simp only: rev_append rstrip_def)
  finally show ?thesis by blast
qed

lemma hd_rstrip: "rstrip s \<noteq> [] \<Longrightarrow> hd (rstrip s) = hd s"
  using rstrip_prefix [of s] by (metis hd_append2)

lemma last_rstrip: "rstrip s \<noteq> [] \<Longrightarrow> \<not> is_space (last (rstrip s))"
  unfolding rstrip_def by (simp add: last_rev hd_dropWhile)

lemma strip_ends:
  assumes "strip s \<noteq> []"
  shows "\<not> is_space (hd (strip s))" and "\<not> is_space (last (strip s))"
proof -
  from assms have ne: "rstrip (lstrip s) \<noteq> []" by (simp add: strip_def)
  then have "lstrip s \<noteq> []" by auto
  with ne show "\<not> is_space (hd (strip s))"
    by (simp add: strip_def hd_rstrip hd_lstrip)
  from ne show "\<not> is_space (last (strip s))"
    by (simp add: strip_def last_rstrip)
qed

lemma strip_strip [simp]: "strip (strip s) = strip s"
  by (rule strip_id) (use strip_ends in auto)

subsection \<open>Substrings\<close>

lemma contains_Nil [simp]: "contains [] s"
  by (cases s) auto

lemma contains_sublist: "contains m s \<longleftrightarrow> sublist m s"
  by (induction s) (auto simp: sublist_Cons_right)

lemma contains_iff: "contains m s \<longleftrightarrow> (\<exists>u v. s = u @ m @ v)"
  by (simp add: contains_sublist sublist_def)

lemma contains_appendI1: "contains m s \<Longrightarrow> contains m (s @ t)"
  by (simp add: contains_sublist sublist_appendI sublist_append)

lemma contains_appendI2: "contains m t \<Longrightarrow> contains m (s @ t)"
  by (simp add: contains_sublist sublist_append)

lemma contains_refl [simp]: "contains m m"
  by (simp add: contains_sublist)

text \<open>A marker without the separator's character cannot straddle a separator.\<close>

lemma contains_append_sep:
  assumes "c \<notin> set m" and "m \<noteq> []"
  shows "contains m (s @ c # t) \<longleftrightarrow> contains m s \<or> contains m t"
proof
  assume "contains m (s @ c # t)"
  then obtain u v where uv: "s @ c # t = u @ m @ v" by (auto simp: contains_iff)
  then consider w where "s = u @ m @ w" | w where "t = w @ m @ v"
    | w z where "m @ v = w @ c # t" "s = u @ w" "m = w @ z" "z \<noteq> []"
    by (force simp: append_eq_append_conv2 append_eq_Cons_conv Cons_eq_append_conv)
  then show "contains m s \<or> contains m t"
  proof cases
    case 1
    then show ?thesis by (auto simp: contains_iff)
  next
    case 2
    then show ?thesis by (auto simp: contains_iff)
  next
    case 3
    then have "c \<in> set m" by (cases z) auto
    with assms show ?thesis by simp
  qed
next
  assume "contains m s \<or> contains m t"
  then show "contains m (s @ c # t)"
    using contains_appendI1 contains_appendI2 [of m "c # t" s] contains_appendI2 [of m t "[c]"]
    by auto
qed

subsection \<open>Numbers in decimal\<close>

lemma of_char_digit_char: "d < 10 \<Longrightarrow> (of_char (digit_char d) :: nat) = 48 + d"
  by (simp add: digit_char_def)

lemma is_digit_digit_char [simp]: "d < 10 \<Longrightarrow> is_digit (digit_char d)"
  by (simp add: is_digit_def of_char_digit_char)

lemma digit_val_digit_char [simp]: "d < 10 \<Longrightarrow> digit_val (digit_char d) = d"
  by (simp add: digit_val_def of_char_digit_char)

lemma digit_char_val: "is_digit c \<Longrightarrow> digit_char (digit_val c) = c \<and> digit_val c < 10"
  by (auto simp: is_digit_def digit_val_def digit_char_def Let_def)

lemma digits_val_Nil [simp]: "digits_val [] = 0"
  by (simp add: digits_val_def)

lemma digits_val_snoc [simp]: "digits_val (s @ [c]) = 10 * digits_val s + digit_val c"
  by (simp add: digits_val_def)

lemma length_pad [simp]: "length (pad w n) = w"
  by (induction w arbitrary: n) auto

lemma list_all_digit_pad [simp]: "list_all is_digit (pad w n)"
  by (induction w arbitrary: n) auto

lemma digits_val_pad: "n < 10 ^ w \<Longrightarrow> digits_val (pad w n) = n"
proof (induction w arbitrary: n)
  case 0
  then show ?case by simp
next
  case (Suc w)
  then have "n div 10 < 10 ^ w" by (simp add: div_less_iff_less_mult mult.commute)
  with Suc.IH show ?case by simp
qed

lemma pad_digits_val: "list_all is_digit s \<Longrightarrow> pad (length s) (digits_val s) = s"
  by (induction s rule: rev_induct) (auto dest: digit_char_val)

lemma digits_val_less: "list_all is_digit s \<Longrightarrow> digits_val s < 10 ^ length s"
  by (induction s rule: rev_induct) (auto dest: digit_char_val)

lemma list_all_digit_show_nat: "list_all is_digit (show_nat n)"
  by (induction n rule: show_nat.induct) (subst show_nat.simps, simp)

lemma show_nat_nonempty [simp]: "show_nat n \<noteq> []"
  by (subst show_nat.simps) simp

lemma digits_val_show_nat [simp]: "digits_val (show_nat n) = n"
proof (induction n rule: show_nat.induct)
  case (1 n)
  show ?case
  proof (cases "n < 10")
    case True
    then show ?thesis
      using digits_val_snoc [of "[]" "digit_char n"] by (simp add: show_nat.simps [of n])
  next
    case False
    with 1 show ?thesis by (simp add: show_nat.simps [of n])
  qed
qed

lemma digit_group_digits: "list_all is_digit ds \<Longrightarrow> (ok \<or> ds \<noteq> []) \<Longrightarrow> digit_group ok ds = Some ds"
  by (induction ds arbitrary: ok) auto

lemma digit_not_special: "is_digit c \<Longrightarrow> \<not> is_space c \<and> c \<noteq> CHR ''-'' \<and> c \<noteq> CHR ''+''"
  by (auto simp: is_digit_def is_space_def Let_def)

lemma int_literal_digits:
  assumes "list_all is_digit ds" and "ds \<noteq> []"
  shows "int_literal ds = Some (int (digits_val ds))"
proof -
  from assms have "is_digit (hd ds)" "is_digit (last ds)"
    by (auto simp: list_all_iff)
  then have "strip ds = ds" by (auto intro!: strip_id dest: digit_not_special)
  with assms show ?thesis
    by (cases ds) (auto simp: int_literal_def digit_group_digits dest: digit_not_special)
qed

lemma int_literal_show_int: "int_literal (show_int n) = Some n"
proof (cases "n < 0")
  case False
  then show ?thesis
    by (simp add: show_int_def int_literal_digits list_all_digit_show_nat)
next
  case True
  let ?ds = "show_nat (nat (- n))"
  have "is_digit (last ?ds)"
    using list_all_digit_show_nat [of "nat (- n)"] by (simp add: list_all_iff)
  then have "strip (CHR ''-'' # ?ds) = CHR ''-'' # ?ds"
    by (auto intro!: strip_id dest: digit_not_special) (simp add: is_space_def)
  with True show ?thesis
    by (simp add: show_int_def int_literal_def digit_group_digits list_all_digit_show_nat)
qed

subsection \<open>Blank texts\<close>

lemma dropWhile_keeps: "(\<exists>x \<in> set (dropWhile P xs). \<not> P x) \<longleftrightarrow> (\<exists>x \<in> set xs. \<not> P x)"
  by (induction xs) auto

lemma strip_nonempty_iff: "strip s \<noteq> [] \<longleftrightarrow> (\<exists>c \<in> set s. \<not> is_space c)"
  using dropWhile_keeps [of is_space s] by (auto simp: strip_def lstrip_def rstrip_def)

lemma strip_show_int [simp]: "strip (show_int n) \<noteq> []"
proof -
  have d: "is_digit c \<Longrightarrow> \<not> is_space c" for c by (auto simp: is_digit_def is_space_def Let_def)
  have "\<exists>c \<in> set (show_nat m). \<not> is_space c" for m
    using list_all_digit_show_nat [of m] show_nat_nonempty [of m] d by (cases "show_nat m") (auto simp: list_all_iff)
  then show ?thesis unfolding strip_nonempty_iff by (auto simp: show_int_def)
qed

end
