(* ===== verification/Py_Values.thy ===== *)
theory Py_Values
  imports Py_Text "HOL-Library.Multiset"
begin

text \<open>
  Python values as the code meets them in JSON payloads and YAML configuration: \<open>None\<close>, booleans,
  integers, strings, lists and string-keyed dictionaries (an association list in insertion order,
  one entry per key). Floating point values are not modelled. \<open>dict.get\<close>, \<open>in\<close>, item assignment,
  \<open>setdefault\<close>, \<open>{**a, **b}\<close>, truthiness, \<open>int()\<close>, \<open>str()\<close> and the canonical \<open>json.dumps\<close> that
  \<open>payload_hash\<close> uses are the operations the source applies to them.
\<close>

datatype pyval =
    PNone
  | PBool bool
  | PInt int
  | PStr string
  | PList "pyval list"
  | PDict "(string \<times> pyval) list"

type_synonym dict = "(string \<times> pyval) list"

fun truthy :: "pyval \<Rightarrow> bool" where
  "truthy PNone = False"
| "truthy (PBool b) = b"
| "truthy (PInt n) = (n \<noteq> 0)"
| "truthy (PStr s) = (s \<noteq> [])"
| "truthy (PList xs) = (xs \<noteq> [])"
| "truthy (PDict d) = (d \<noteq> [])"

definition py_or :: "pyval \<Rightarrow> pyval \<Rightarrow> pyval" where
  "py_or a b = (if truthy a then a else b)"

definition dget :: "dict \<Rightarrow> string \<Rightarrow> pyval" where
  "dget d k = (case map_of d k of None \<Rightarrow> PNone | Some v \<Rightarrow> v)"

definition dhas :: "dict \<Rightarrow> string \<Rightarrow> bool" where
  "dhas d k = (map_of d k \<noteq> None)"

fun dset :: "dict \<Rightarrow> string \<Rightarrow> pyval \<Rightarrow> dict" where
  "dset [] k v = [(k, v)]"
| "dset ((k', v') # d) k v = (if k' = k then (k, v) # d else (k', v') # dset d k v)"

definition setdefault :: "dict \<Rightarrow> string \<Rightarrow> pyval \<Rightarrow> dict" where
  "setdefault d k v = (if dhas d k then d else dset d k v)"

definition dmerge :: "dict \<Rightarrow> dict \<Rightarrow> dict" where
  "dmerge a b = foldl (\<lambda>d (k, v). dset d k v) a b"

text \<open>\<open>dict(v or {})\<close>; a truthy value that is no mapping raises.\<close>

definition dict_of :: "pyval \<Rightarrow> py_error + dict" where
  "dict_of v = (case v of PDict d \<Rightarrow> Inr d
      | _ \<Rightarrow> if truthy v then Inl (TypeError ''dict() argument'') else Inr [])"

text \<open>\<open>int(v)\<close>.\<close>

definition py_int :: "pyval \<Rightarrow> py_error + int" where
  "py_int v = (case v of
      PInt n \<Rightarrow> Inr n
    | PBool b \<Rightarrow> Inr (if b then 1 else 0)
    | PStr s \<Rightarrow> (case int_literal s of Some n \<Rightarrow> Inr n | None \<Rightarrow> Inl (ValueError ''invalid literal for int()''))
    | _ \<Rightarrow> Inl (TypeError ''int() argument''))"

text \<open>\<open>repr\<close> and \<open>str\<close>.\<close>

definition hex_digit :: "nat \<Rightarrow> char" where
  "hex_digit n = (if n < 10 then char_of (48 + n) else char_of (87 + n))"

definition repr_char :: "char \<Rightarrow> char \<Rightarrow> string" where
  "repr_char q c =
     (let n = (of_char c :: nat) in
      if c = q \<or> c = CHR 0x5C then [CHR 0x5C, c]
      else if n = 10 then [CHR 0x5C, CHR ''n'']
      else if n = 13 then [CHR 0x5C, CHR ''r'']
      else if n = 9 then [CHR 0x5C, CHR ''t'']
      else if n < 32 \<or> n = 127 then [CHR 0x5C, CHR ''x'', hex_digit (n div 16), hex_digit (n mod 16)]
      else [c])"

definition repr_str :: "string \<Rightarrow> string" where
  "repr_str s =
     (let q = (if CHR 0x27 \<in> set s \<and> CHR 0x22 \<notin> set s then CHR 0x22 else CHR 0x27)
      in q # concat (map (repr_char q) s) @ [q])"

fun py_repr :: "pyval \<Rightarrow> string" where
  "py_repr PNone = ''None''"
| "py_repr (PBool b) = (if b then ''True'' else ''False'')"
| "py_repr (PInt n) = show_int n"
| "py_repr (PStr s) = repr_str s"
| "py_repr (PList xs) = ''['' @ join '', '' (map py_repr xs) @ '']''"
| "py_repr (PDict d) = ''{'' @ join '', '' (map (\<lambda>(k, v). repr_str k @ '': '' @ py_repr v) d) @ ''}''"

fun py_str :: "pyval \<Rightarrow> string" where
  "py_str (PStr s) = s"
| "py_str v = py_repr v"

text \<open>\<open>str(exc)\<close>.\<close>

fun exn_text :: "py_error \<Rightarrow> string" where
  "exn_text (ValueError m) = m"
| "exn_text (TypeError m) = m"
| "exn_text (RuntimeError m) = m"
| "exn_text (OverflowError m) = m"
| "exn_text (KeyError m) = repr_str m"
| "exn_text (AttributeError m) = m"
| "exn_text (OSError m) = m"
| "exn_text (ParseError m) = m"
| "exn_text UniqueViolation = ''duplicate key value violates unique constraint''"
| "exn_text (DataError m) = m"
| "exn_text (HTTPException n m) = show_int n @ '': '' @ m"

text \<open>\<open>str(d.get(k) or "")\<close>, the way the handlers read a text field.\<close>

definition text_or_empty :: "pyval \<Rightarrow> string" where
  "text_or_empty v = (if truthy v then py_str v else [])"

text \<open>\<open>json.dumps(v, sort_keys=True, separators=(",", ":"))\<close>.\<close>

definition json_char :: "char \<Rightarrow> string" where
  "json_char c =
     (let n = (of_char c :: nat) in
      if c = CHR 0x22 \<or> c = CHR 0x5C then [CHR 0x5C, c]
      else if n = 10 then [CHR 0x5C, CHR ''n'']
      else if n = 13 then [CHR 0x5C, CHR ''r'']
      else if n = 9 then [CHR 0x5C, CHR ''t'']
      else if n = 8 then [CHR 0x5C, CHR ''b'']
      else if n = 12 then [CHR 0x5C, CHR ''f'']
      else if n < 32 \<or> 126 < n
        then [CHR 0x5C, CHR ''u'', CHR ''0'', CHR ''0'', hex_digit (n div 16), hex_digit (n mod 16)]
      else [c])"

definition json_str :: "string \<Rightarrow> string" where
  "json_str s = CHR 0x22 # concat (map json_char s) @ [CHR 0x22]"

fun json_canonical :: "pyval \<Rightarrow> string" where
  "json_canonical PNone = ''null''"
| "json_canonical (PBool b) = (if b then ''true'' else ''false'')"
| "json_canonical (PInt n) = show_int n"
| "json_canonical (PStr s) = json_str s"
| "json_canonical (PList xs) = ''['' @ join '','' (map json_canonical xs) @ '']''"
| "json_canonical (PDict d) =
     ''{'' @ join '','' (map (\<lambda>(k, j). json_str k @ '':'' @ j)
        (sort_key fst (map (\<lambda>(k, v). (k, json_canonical v)) d))) @ ''}''"

subsection \<open>Dictionary laws\<close>

lemma map_of_dset [simp]: "map_of (dset d k v) = (map_of d)(k \<mapsto> v)"
  by (induction d k v rule: dset.induct) auto

lemma dget_dset [simp]: "dget (dset d k v) k' = (if k' = k then v else dget d k')"
  by (simp add: dget_def)

lemma dhas_dset [simp]: "dhas (dset d k v) k' \<longleftrightarrow> k' = k \<or> dhas d k'"
  by (simp add: dhas_def)

lemma dget_Nil [simp]: "dget [] k = PNone"
  by (simp add: dget_def)

lemma dhas_Nil [simp]: "\<not> dhas [] k"
  by (simp add: dhas_def)

lemma dget_Cons [simp]: "dget ((k, v) # d) k' = (if k = k' then v else dget d k')"
  by (simp add: dget_def)

lemma dhas_Cons [simp]: "dhas ((k, v) # d) k' \<longleftrightarrow> k = k' \<or> dhas d k'"
  by (auto simp: dhas_def)

lemma dget_absent: "\<not> dhas d k \<Longrightarrow> dget d k = PNone"
  by (simp add: dget_def dhas_def)

lemma set_keys_dset: "fst ` set (dset d k v) = insert k (fst ` set d)"
  by (induction d k v rule: dset.induct) auto

lemma distinct_dset: "distinct (map fst d) \<Longrightarrow> distinct (map fst (dset d k v))"
proof (induction d k v rule: dset.induct)
  case (2 k' v' d k v)
  then show ?case using set_keys_dset [of d k v] by auto
qed simp

lemma dget_setdefault:
  "dget (setdefault d k v) k' = (if k' = k \<and> \<not> dhas d k then v else dget d k')"
  by (auto simp: setdefault_def)

lemma dhas_iff: "dhas d k \<longleftrightarrow> k \<in> fst ` set d"
  by (simp add: dhas_def map_of_eq_None_iff)

lemma map_of_dmerge: "map_of (dmerge a b) = foldl (\<lambda>m (k, v). m(k \<mapsto> v)) (map_of a) b"
  unfolding dmerge_def by (induction b arbitrary: a) auto

text \<open>A dictionary's canonical JSON does not depend on the order its entries were inserted in.\<close>

lemma json_canonical_perm:
  assumes "mset d = mset d'" and "distinct (map fst d)"
  shows "json_canonical (PDict d) = json_canonical (PDict d')"
proof -
  let ?f = "\<lambda>(k, v). (k, json_canonical v)"
  have keys: "map fst (map ?f d) = map fst d"
    by (induction d) auto
  have inj: "inj_on fst (set (map ?f d))"
    using assms(2) unfolding keys [symmetric] by (simp only: distinct_map)
  have "mset (sort_key fst (map ?f d')) = mset (map ?f d)"
    using assms(1) by simp
  then have "sort_key fst (map ?f d) = sort_key fst (map ?f d')"
    by (intro sort_key_inj_key_eq) (use inj in \<open>auto\<close>)
  then show ?thesis by (simp only: json_canonical.simps)
qed

end
