(* ===== verification/Retry_Policy.thy ===== *)
theory Retry_Policy
  imports Py_Values
begin

text \<open>
  \<^verbatim>\<open>worker/retry.py\<close>: an error message becomes a category, a category becomes a plan (retry after a
  delay, cool the whole queue down, or give up). The lemmas show that a category depends only on
  the bracketed codes and marker phrases a message quotes, so that the category of a joined message
  is the worst category of its parts, and bound what a plan may contain.
\<close>

datatype ErrorCategory = NOT_READY | THROTTLED | CONFIG | TRANSIENT | UNKNOWN

text \<open>The status column of a queue row, also the status of a retry plan.\<close>

datatype jstatus = Pending | Running | Done | Failed

fun category_value :: "ErrorCategory \<Rightarrow> string" where
  "category_value NOT_READY = ''not_ready''"
| "category_value THROTTLED = ''throttled''"
| "category_value CONFIG = ''config''"
| "category_value TRANSIENT = ''transient''"
| "category_value UNKNOWN = ''unknown''"

definition NOT_READY_CODES :: "nat set" where
  "NOT_READY_CODES = {1003, 1004, 1005, 1006, 1007, 1008, 1009, 1019, 1021}"

definition THROTTLED_CODES :: "nat set" where
  "THROTTLED_CODES = {1018}"

definition CONFIG_CODES :: "nat set" where
  "CONFIG_CODES = {1010, 1011, 1012, 1013, 1014, 1015, 1016, 1017, 1020}"

definition CONFIG_MARKERS :: "string list" where
  "CONFIG_MARKERS =
     [''No Flex credentials'', ''Token has expired'', ''Token is invalid'', ''Query is invalid'',
      ''unknown job kind'']"

definition TRANSIENT_MARKERS :: "string list" where
  "TRANSIENT_MARKERS =
     [''timed out'', ''Connection refused'', ''Connection reset'', ''connection to server'',
      ''could not connect'', ''Name or service not known'', ''Temporary failure in name resolution'',
      ''URLError'', ''HTTP Error 5'', ''OperationalError'', ''InterfaceError'', ''did not return report'']"

text \<open>The regular expression \<^verbatim>\<open>\[(\d{4})\]\<close> at the head of a string, and \<^verbatim>\<open>findall\<close>.\<close>

definition match_code :: "string \<Rightarrow> nat option" where
  "match_code s = (case s of
      a # b # c # d # e # f # _ \<Rightarrow>
        if a = CHR ''['' \<and> list_all is_digit [b, c, d, e] \<and> f = CHR '']''
        then Some (digits_val [b, c, d, e]) else None
    | _ \<Rightarrow> None)"

function findall_codes :: "string \<Rightarrow> nat list" where
  "findall_codes [] = []"
| "findall_codes (c # cs) =
     (case match_code (c # cs) of
        Some n \<Rightarrow> n # findall_codes (drop 5 cs)
      | None \<Rightarrow> findall_codes cs)"
  by pat_completeness auto
termination
  by (relation "measure length") auto

definition flex_error_codes :: "string \<Rightarrow> nat set" where
  "flex_error_codes message = set (findall_codes message)"

definition classify_flex_error :: "string \<Rightarrow> ErrorCategory" where
  "classify_flex_error msg =
     (let codes = flex_error_codes msg in
      if codes \<inter> THROTTLED_CODES \<noteq> {} then THROTTLED
      else if codes \<inter> CONFIG_CODES \<noteq> {} \<or> list_ex (\<lambda>m. contains m msg) CONFIG_MARKERS then CONFIG
      else if codes \<inter> NOT_READY_CODES \<noteq> {} then NOT_READY
      else if list_ex (\<lambda>m. contains m msg) TRANSIENT_MARKERS then TRANSIENT
      else UNKNOWN)"

record RetryPolicy =
  not_ready_delay_sec :: int
  throttled_delay_sec :: int
  transient_delay_sec :: int
  unknown_delay_sec :: int

definition default_policy :: RetryPolicy where
  "default_policy = \<lparr>not_ready_delay_sec = 1800, throttled_delay_sec = 1800,
     transient_delay_sec = 120, unknown_delay_sec = 300\<rparr>"

text \<open>One iteration of \<open>from_config\<close>'s loop: the field's value, or its default when it is absent,
  blank or no integer.\<close>

definition policy_field :: "dict \<Rightarrow> string \<Rightarrow> int \<Rightarrow> int" where
  "policy_field data field dflt =
     (let val = dget data field in
      if val = PNone \<or> strip (py_str val) = [] then dflt
      else (case py_int val of Inl _ \<Rightarrow> dflt | Inr n \<Rightarrow> max 30 n))"

definition from_config :: "dict \<Rightarrow> RetryPolicy" where
  "from_config data = \<lparr>
     not_ready_delay_sec = policy_field data ''not_ready_delay_sec'' (not_ready_delay_sec default_policy),
     throttled_delay_sec = policy_field data ''throttled_delay_sec'' (throttled_delay_sec default_policy),
     transient_delay_sec = policy_field data ''transient_delay_sec'' (transient_delay_sec default_policy),
     unknown_delay_sec = policy_field data ''unknown_delay_sec'' (unknown_delay_sec default_policy)\<rparr>"

record RetryPlan =
  plan_status :: jstatus
  plan_category :: ErrorCategory
  delay_sec :: int
  cooldown_all_sec :: int

definition plan_retries :: "RetryPlan \<Rightarrow> bool" where
  "plan_retries p = (plan_status p = Pending)"

definition plan_retry :: "ErrorCategory \<Rightarrow> int \<Rightarrow> int \<Rightarrow> RetryPolicy \<Rightarrow> RetryPlan" where
  "plan_retry category attempts max_attempts p =
     (let failed = \<lparr>plan_status = Failed, plan_category = category, delay_sec = 0, cooldown_all_sec = 0\<rparr>;
          pending = (\<lambda>d cd. \<lparr>plan_status = Pending, plan_category = category, delay_sec = d, cooldown_all_sec = cd\<rparr>)
      in if category = CONFIG then failed
         else if attempts \<ge> max_attempts then failed
         else if category = NOT_READY then pending (not_ready_delay_sec p) 0
         else if category = THROTTLED then pending (throttled_delay_sec p) (throttled_delay_sec p)
         else if category = TRANSIENT then pending (transient_delay_sec p) 0
         else pending (unknown_delay_sec p) 0)"

fun first_in :: "'a list \<Rightarrow> 'a set \<Rightarrow> 'a \<Rightarrow> 'a" where
  "first_in [] seen dflt = dflt"
| "first_in (c # cs) seen dflt = (if c \<in> seen then c else first_in cs seen dflt)"

definition summarize_categories :: "string list \<Rightarrow> ErrorCategory" where
  "summarize_categories messages =
     first_in [THROTTLED, CONFIG, NOT_READY, TRANSIENT, UNKNOWN]
       (classify_flex_error ` set messages) UNKNOWN"

subsection \<open>Which codes a message quotes\<close>

definition quoted_code :: "nat \<Rightarrow> string \<Rightarrow> bool" where
  "quoted_code n m = (\<exists>b c d e. m = [CHR ''['', b, c, d, e, CHR '']''] \<and>
     list_all is_digit [b, c, d, e] \<and> n = digits_val [b, c, d, e])"

lemma match_code_iff: "match_code s = Some n \<longleftrightarrow> (\<exists>m t. quoted_code n m \<and> s = m @ t)"
proof
  assume "match_code s = Some n"
  then have "quoted_code n (take 6 s) \<and> s = take 6 s @ drop 6 s"
    by (auto simp: match_code_def quoted_code_def split: list.splits if_splits)
  then show "\<exists>m t. quoted_code n m \<and> s = m @ t" by blast
qed (auto simp: match_code_def quoted_code_def)

lemma match_code_drop:
  assumes "match_code (c # cs) = Some n"
  shows "match_code (drop k cs) = None \<or> 5 \<le> k"
proof (cases "5 \<le> k")
  case False
  then have "k \<in> {0, 1, 2, 3, 4}" by auto
  with assms show ?thesis
    by (auto simp: match_code_def is_digit_def split: list.splits if_splits)
qed simp

lemma findall_codes_iff:
  "n \<in> set (findall_codes s) \<longleftrightarrow> (\<exists>k. match_code (drop k s) = Some n)"
proof (induction s rule: findall_codes.induct)
  case 1
  then show ?case by (simp add: match_code_def)
next
  case (2 c cs)
  have split: "(\<exists>k. match_code (drop k (c # cs)) = Some n) \<longleftrightarrow>
      match_code (c # cs) = Some n \<or> (\<exists>k. match_code (drop k cs) = Some n)" (is "?L \<longleftrightarrow> ?R")
  proof
    assume ?L
    then obtain k where "match_code (drop k (c # cs)) = Some n" by blast
    then show ?R by (cases k) auto
  next
    assume ?R
    then show ?L by (metis drop0 drop_Suc_Cons)
  qed
  show ?case
  proof (cases "match_code (c # cs)")
    case None
    with 2 split show ?thesis by simp
  next
    case (Some n')
    have "(\<exists>k. match_code (drop k cs) = Some n) \<longleftrightarrow> (\<exists>k. match_code (drop k (drop 5 cs)) = Some n)"
    proof
      assume "\<exists>k. match_code (drop k cs) = Some n"
      then obtain k where k: "match_code (drop k cs) = Some n" by blast
      with match_code_drop [OF Some] have "5 \<le> k" by force
      then have "drop k cs = drop (k - 5) (drop 5 cs)" by simp
      with k show "\<exists>k. match_code (drop k (drop 5 cs)) = Some n" by metis
    next
      assume "\<exists>k. match_code (drop k (drop 5 cs)) = Some n"
      then show "\<exists>k. match_code (drop k cs) = Some n" by (metis drop_drop)
    qed
    with 2 split Some show ?thesis by auto
  qed
qed

lemma drop_eq_append_iff: "(\<exists>k. drop k s = m @ t) \<longleftrightarrow> (\<exists>u. s = u @ m @ t)"
  by (metis append_eq_conv_conj append_take_drop_id)

lemma flex_error_codes_iff:
  "n \<in> flex_error_codes s \<longleftrightarrow> (\<exists>m. quoted_code n m \<and> contains m s)"
  unfolding flex_error_codes_def findall_codes_iff match_code_iff contains_iff
  by (metis drop_eq_append_iff)

lemma quoted_code_chars: "quoted_code n m \<Longrightarrow> m \<noteq> [] \<and> hd m = CHR ''['' \<and>
    CHR '';'' \<notin> set m \<and> CHR '' '' \<notin> set m \<and> CHR '':'' \<notin> set m"
  by (auto simp: quoted_code_def is_digit_def)

subsection \<open>The category of a joined message\<close>

text \<open>What makes a message throttled, a configuration error, not ready or transient.\<close>

definition evidence :: "nat set \<Rightarrow> string list \<Rightarrow> string \<Rightarrow> bool" where
  "evidence C M s = (flex_error_codes s \<inter> C \<noteq> {} \<or> list_ex (\<lambda>m. contains m s) M)"

definition separable :: "string list \<Rightarrow> bool" where
  "separable M = list_all (\<lambda>m. m \<noteq> [] \<and> hd m \<noteq> CHR '' '' \<and> CHR '';'' \<notin> set m \<and> CHR '':'' \<notin> set m) M"

lemma separable_markers [simp]:
  "separable []" "separable CONFIG_MARKERS" "separable TRANSIENT_MARKERS"
  by (simp_all add: separable_def CONFIG_MARKERS_def TRANSIENT_MARKERS_def)

lemma classify_evidence:
  "classify_flex_error s =
     (if evidence THROTTLED_CODES [] s then THROTTLED
      else if evidence CONFIG_CODES CONFIG_MARKERS s then CONFIG
      else if evidence NOT_READY_CODES [] s then NOT_READY
      else if evidence {} TRANSIENT_MARKERS s then TRANSIENT
      else UNKNOWN)"
  by (simp add: classify_flex_error_def evidence_def Let_def)

lemma evidence_iff:
  "evidence C M s \<longleftrightarrow> (\<exists>m. ((\<exists>n \<in> C. quoted_code n m) \<or> m \<in> set M) \<and> contains m s)"
proof -
  have "flex_error_codes s \<inter> C \<noteq> {} \<longleftrightarrow> (\<exists>m. (\<exists>n \<in> C. quoted_code n m) \<and> contains m s)"
    using flex_error_codes_iff by (fastforce simp: set_eq_iff)
  then show ?thesis by (auto simp: evidence_def list_ex_iff)
qed

lemma contains_join_semicolon:
  assumes "m \<noteq> []" "hd m \<noteq> CHR '' ''" "CHR '';'' \<notin> set m"
  shows "contains m (join ''; '' xs) \<longleftrightarrow> (\<exists>x \<in> set xs. contains m x)"
proof (induction xs rule: induct_list012)
  case 1
  from assms(1) show ?case by simp
next
  case (2 x)
  then show ?case by simp
next
  case (3 x y zs)
  have "\<not> prefix m (CHR '' '' # s)" for s
    using assms(1,2) by (cases m) auto
  with 3 show ?case
    by (simp add: contains_append_sep [OF assms(3,1)])
qed

lemma contains_colon:
  assumes "m \<noteq> []" "hd m \<noteq> CHR '' ''" "CHR '':'' \<notin> set m"
  shows "contains m (p @ '': '' @ s) \<longleftrightarrow> contains m p \<or> contains m s"
proof -
  have "contains m (CHR '' '' # s) \<longleftrightarrow> contains m s"
    using assms(1,2) by (cases m) auto
  then show ?thesis by (simp add: contains_append_sep [OF assms(3,1)])
qed

lemma evidence_join:
  assumes "separable M"
  shows "evidence C M (join ''; '' xs) \<longleftrightarrow> (\<exists>x \<in> set xs. evidence C M x)"
proof -
  have "contains m (join ''; '' xs) \<longleftrightarrow> (\<exists>x \<in> set xs. contains m x)"
    if "(\<exists>n \<in> C. quoted_code n m) \<or> m \<in> set M" for m
    using that assms by (intro contains_join_semicolon)
      (auto simp: separable_def list_all_iff dest: quoted_code_chars)
  then show ?thesis unfolding evidence_iff by blast
qed

lemma evidence_colon:
  assumes "separable M"
  shows "evidence C M (p @ '': '' @ s) \<longleftrightarrow> evidence C M p \<or> evidence C M s"
proof -
  have "contains m (p @ '': '' @ s) \<longleftrightarrow> contains m p \<or> contains m s"
    if "(\<exists>n \<in> C. quoted_code n m) \<or> m \<in> set M" for m
    using that assms by (intro contains_colon)
      (auto simp: separable_def list_all_iff dest: quoted_code_chars)
  then show ?thesis unfolding evidence_iff by blast
qed

lemma summarize_evidence:
  "summarize_categories ms =
     (if \<exists>m \<in> set ms. evidence THROTTLED_CODES [] m then THROTTLED
      else if \<exists>m \<in> set ms. evidence CONFIG_CODES CONFIG_MARKERS m then CONFIG
      else if \<exists>m \<in> set ms. evidence NOT_READY_CODES [] m then NOT_READY
      else if \<exists>m \<in> set ms. evidence {} TRANSIENT_MARKERS m then TRANSIENT
      else UNKNOWN)"
  by (auto simp: summarize_categories_def classify_evidence image_iff)

lemma classify_join: "classify_flex_error (join ''; '' ms) = summarize_categories ms"
  by (simp add: classify_evidence [of "join ''; '' ms"] summarize_evidence evidence_join)

lemma classify_prefix:
  assumes "classify_flex_error p = UNKNOWN"
  shows "classify_flex_error (p @ '': '' @ s) = classify_flex_error s"
proof -
  from assms have "\<not> evidence THROTTLED_CODES [] p" "\<not> evidence CONFIG_CODES CONFIG_MARKERS p"
    "\<not> evidence NOT_READY_CODES [] p" "\<not> evidence {} TRANSIENT_MARKERS p"
    by (auto simp: classify_evidence split: if_splits)
  then show ?thesis
    by (simp add: classify_evidence [of "p @ '': '' @ s"] classify_evidence [of s] evidence_colon del: append.simps)
qed

lemma quoted_code_pad: "quoted_code n m \<Longrightarrow> m = ''['' @ pad 4 n @ '']''"
proof -
  assume "quoted_code n m"
  then obtain b c d e where m: "m = ''['' @ [b, c, d, e] @ '']''"
    and ds: "list_all is_digit [b, c, d, e]" and n: "n = digits_val [b, c, d, e]"
    by (auto simp: quoted_code_def)
  from pad_digits_val [OF ds] have "pad 4 n = [b, c, d, e]" by (simp add: n eval_nat_numeral del: pad.simps)
  with m show ?thesis by simp
qed

lemma quoted_code_1018: "quoted_code 1018 m \<longleftrightarrow> m = ''[1018]''"
proof
  have "pad 4 1018 = ''1018''" by code_simp
  then show "quoted_code 1018 m \<Longrightarrow> m = ''[1018]''" by (auto dest: quoted_code_pad)
qed (simp add: quoted_code_def is_digit_def digits_val_def digit_val_def)

subsection \<open>Plans\<close>

lemma policy_field_ge: "30 \<le> dflt \<Longrightarrow> 30 \<le> policy_field d f dflt"
  by (auto simp: policy_field_def Let_def split: sum.splits)

lemma from_config_ge:
  "30 \<le> not_ready_delay_sec (from_config d)" "30 \<le> throttled_delay_sec (from_config d)"
  "30 \<le> transient_delay_sec (from_config d)" "30 \<le> unknown_delay_sec (from_config d)"
  by (simp_all add: from_config_def default_policy_def policy_field_ge)

lemma from_config_fields:
  "dget d key = PNone \<Longrightarrow> policy_field d key dflt = dflt"
  "dget d key = PInt n \<Longrightarrow> policy_field d key dflt = max 30 n"
  by (simp_all add: policy_field_def py_int_def Let_def)

lemma plan_retry_status: "plan_retries (plan_retry c a m p) \<longleftrightarrow> c \<noteq> CONFIG \<and> a < m"
  by (auto simp: plan_retries_def plan_retry_def Let_def)

lemma plan_retry_category [simp]: "plan_category (plan_retry c a m p) = c"
  by (simp add: plan_retry_def Let_def)

lemma plan_retry_failed: "plan_status (plan_retry c a m p) = Failed \<longleftrightarrow> \<not> plan_retries (plan_retry c a m p)"
  by (simp add: plan_retries_def plan_retry_def Let_def)

lemma classify_throttled_iff:
  "classify_flex_error msg = THROTTLED \<longleftrightarrow> contains ''[1018]'' msg"
proof -
  have "evidence THROTTLED_CODES [] msg \<longleftrightarrow> contains ''[1018]'' msg"
    by (auto simp: evidence_iff THROTTLED_CODES_def quoted_code_1018)
  then show ?thesis by (auto simp: classify_evidence)
qed

subsection \<open>Properties\<close>

text \<open>How bad a category is, in the order in which a summary looks for it.\<close>

fun severity :: "ErrorCategory \<Rightarrow> nat" where
  "severity UNKNOWN = 0"
| "severity TRANSIENT = 1"
| "severity NOT_READY = 2"
| "severity CONFIG = 3"
| "severity THROTTLED = 4"

lemma severity_inj: "severity a = severity b \<Longrightarrow> a = b"
  by (cases a; cases b) simp_all

instantiation ErrorCategory :: linorder
begin

definition less_eq_ErrorCategory :: "ErrorCategory \<Rightarrow> ErrorCategory \<Rightarrow> bool" where
  "less_eq_ErrorCategory a b \<longleftrightarrow> severity a \<le> severity b"

definition less_ErrorCategory :: "ErrorCategory \<Rightarrow> ErrorCategory \<Rightarrow> bool" where
  "less_ErrorCategory a b \<longleftrightarrow> severity a < severity b"

instance
  by standard (auto simp: less_eq_ErrorCategory_def less_ErrorCategory_def intro: severity_inj)

end

lemma category_bounds [simp]: "UNKNOWN \<le> c" "c \<le> THROTTLED"
  by (cases c; simp add: less_eq_ErrorCategory_def)+

lemma summarize_is_worst: "summarize_categories ms = Max (insert UNKNOWN (classify_flex_error ` set ms))"
proof (rule Max_eqI [symmetric])
  show "summarize_categories ms \<in> insert UNKNOWN (classify_flex_error ` set ms)"
    by (auto simp: summarize_categories_def)
  show "c \<le> summarize_categories ms" if "c \<in> insert UNKNOWN (classify_flex_error ` set ms)" for c
    using that by (cases c) (auto simp: summarize_categories_def less_eq_ErrorCategory_def)
qed simp

text \<open>The category of several error messages joined by \<^verbatim>\<open>"; "\<close>, the form in which a run reports its per-account errors, is the
  worst of the categories of the messages: nothing is lost or invented at a join.\<close>

lemma joined_message_category:
  "classify_flex_error (join ''; '' messages) = Max (insert UNKNOWN (classify_flex_error ` set messages))"
  unfolding classify_join by (rule summarize_is_worst)

text \<open>C10: What \<^verbatim>\<open>plan_retry\<close> decides under a policy read from any configuration. A job is retried exactly
  when its error is not a configuration error and attempts remain; otherwise it fails for good. A retry waits the delay of its own category: the one configured, never
  less than 30 seconds, or without one half an hour for a statement that is not ready or a throttle, two minutes for a transient
  error and five for an unknown one. A throttled retry cools the rest of the queue down for as long as the job itself waits; no
  other category cools anything down.\<close>

theorem retry_plan_rules:
  assumes "plan = plan_retry c a m (from_config d)"
    and "(key, default_sec) = (case c of NOT_READY \<Rightarrow> (''not_ready_delay_sec'', 1800) | THROTTLED \<Rightarrow> (''throttled_delay_sec'', 1800)
           | TRANSIENT \<Rightarrow> (''transient_delay_sec'', 120) | _ \<Rightarrow> (''unknown_delay_sec'', 300))"
  shows "plan_status plan = (if c \<noteq> CONFIG \<and> a < m then Pending else Failed) \<and>
   (c \<noteq> CONFIG \<and> a < m \<longrightarrow>
      30 \<le> delay_sec plan \<and>
      (dget d key = PNone \<longrightarrow> delay_sec plan = default_sec) \<and>
      (\<forall>n. dget d key = PInt n \<longrightarrow> delay_sec plan = max 30 n) \<and>
      (c = THROTTLED \<longrightarrow> cooldown_all_sec plan = delay_sec plan)) \<and>
   (c \<noteq> THROTTLED \<longrightarrow> cooldown_all_sec plan = 0)"
proof -
  have "delay_sec plan = (case c of NOT_READY \<Rightarrow> not_ready_delay_sec (from_config d) | THROTTLED \<Rightarrow> throttled_delay_sec (from_config d)
      | TRANSIENT \<Rightarrow> transient_delay_sec (from_config d) | _ \<Rightarrow> unknown_delay_sec (from_config d))" if "c \<noteq> CONFIG" "a < m"
    using that assms(1) by (cases c) (simp_all add: plan_retry_def Let_def)
  moreover have "30 \<le> delay_sec plan" if "c \<noteq> CONFIG" "a < m"
    using that assms(1) by (cases c) (simp_all add: plan_retry_def Let_def from_config_ge)
  ultimately show ?thesis
    using assms by (cases c) (simp_all add: plan_retry_def Let_def from_config_fields from_config_def default_policy_def)
qed

theorem retry_plan_rules_witness:
  "30 = delay_sec (plan_retry NOT_READY 1 8 (from_config [(''not_ready_delay_sec'', PInt 5)])) \<and>
   1800 = cooldown_all_sec (plan_retry THROTTLED 1 8 (from_config []))"
  using retry_plan_rules [OF refl, where c = NOT_READY and a = 1 and m = 8 and d = "[(''not_ready_delay_sec'', PInt 5)]"]
    retry_plan_rules [OF refl, where c = THROTTLED and a = 1 and m = 8 and d = "[]"]
  by simp

end
