(* ===== verification/Keyed_Table.thy ===== *)
theory Keyed_Table
  imports Flex_Prelude
begin

text \<open>
  The interface the components rely on when they keep rows in a Postgres table: a row is found by
  its key, an \<open>UPDATE ... WHERE\<close> changes the matching rows and no key, an \<open>INSERT\<close> adds a row
  under a new key. The queue, the freshness table and the heartbeat table interpret it.
\<close>

locale keyed_table =
  fixes look :: "'t \<Rightarrow> 'k \<Rightarrow> 'r option"
    and update :: "('r \<Rightarrow> bool) \<Rightarrow> ('r \<Rightarrow> 'r) \<Rightarrow> 't \<Rightarrow> 't"
    and key :: "'r \<Rightarrow> 'k"
  assumes look_key: "look t k = Some r \<Longrightarrow> key r = k"
    and look_update: "(\<And>r. key (f r) = key r) \<Longrightarrow>
      look (update P f t) k = map_option (\<lambda>r. if P r then f r else r) (look t k)"
begin

definition all_rows :: "('r \<Rightarrow> bool) \<Rightarrow> 't \<Rightarrow> bool" where
  "all_rows I t = (\<forall>k r. look t k = Some r \<longrightarrow> I r)"

lemma all_rowsD: "all_rows I t \<Longrightarrow> look t k = Some r \<Longrightarrow> I r"
  by (simp add: all_rows_def)

lemma all_rows_mono: "all_rows I t \<Longrightarrow> (\<And>r. I r \<Longrightarrow> J r) \<Longrightarrow> all_rows J t"
  by (simp add: all_rows_def)

lemma look_update_key:
  assumes "\<And>r. key (f r) = key r"
  shows "look (update (\<lambda>r. key r = k0) f t) k =
    (if k = k0 then map_option f (look t k) else look t k)"
  using look_update [OF assms] look_key by (cases "look t k") auto

lemma update_dom:
  assumes "\<And>r. key (f r) = key r"
  shows "look (update P f t) k = None \<longleftrightarrow> look t k = None"
  using look_update [OF assms] by simp

lemma all_rows_update:
  assumes "\<And>r. key (f r) = key r" and "all_rows I t"
    and "\<And>r. I r \<Longrightarrow> P r \<Longrightarrow> I (f r)"
  shows "all_rows I (update P f t)"
  unfolding all_rows_def look_update [OF assms(1)]
  using assms(2,3) by (auto simp: all_rows_def)

end

locale growing_table = keyed_table look update key
  for look :: "'t \<Rightarrow> 'k \<Rightarrow> 'r option" and update and key :: "'r \<Rightarrow> 'k" +
  fixes insert :: "'r \<Rightarrow> 't \<Rightarrow> 't"
    and new_key :: "'t \<Rightarrow> 'k \<Rightarrow> bool"
  assumes look_insert: "new_key t (key r) \<Longrightarrow> look (insert r t) = (look t)(key r \<mapsto> r)"
begin

lemma all_rows_insert:
  "all_rows I t \<Longrightarrow> I r \<Longrightarrow> new_key t (key r) \<Longrightarrow> all_rows I (insert r t)"
  by (auto simp: all_rows_def look_insert)

lemma insert_keeps: "new_key t (key r) \<Longrightarrow> look t k = Some r' \<Longrightarrow> k \<noteq> key r \<Longrightarrow>
    look (insert r t) k = Some r'"
  by (simp add: look_insert)

end

end
