(* ===== verification/Job_Queue.thy ===== *)
theory Job_Queue
  imports Retry_Policy Keyed_Table
begin

text \<open>
  The ingest queue, \<^verbatim>\<open>ops_jobs.job_flex_ingest\<close>: the table of \<^verbatim>\<open>schema/ddl.py\<close> with its partial unique
  index, the enqueue operations of \<^verbatim>\<open>scheduler/enqueue.py\<close> and the claim, reclaim, finish, retry and
  defer statements of \<^verbatim>\<open>worker/claim.py\<close>. A statement reads the clock once (\<open>now\<close>). A row update
  that would leave two active rows with one \<open>(kind, payload_hash)\<close> raises, as the index does; the
  \<open>bigserial\<close> sequence moves on whether or not an insert is dropped by \<open>ON CONFLICT DO NOTHING\<close>.

  \<open>look\<close> abstracts the table to a map from ids to rows. The lemmas give every operation as an update
  of that map, that each keeps the table well formed, and which row a claim picks.
\<close>

record job =
  jid :: int
  jkind :: string
  jpayload :: dict
  jhash :: "string option"
  jpriority :: int
  jstat :: jstatus
  jattempts :: int
  jmax :: int
  jresult :: "dict option"
  jcategory :: "string option"
  jnot_before :: "instant option"
  jcreated :: instant
  jupdated :: instant
  jstarted :: "instant option"
  jfinished :: "instant option"

record queue =
  rows :: "job list"
  next_id :: int

definition empty_queue :: queue where
  "empty_queue = \<lparr>rows = [], next_id = 1\<rparr>"

definition active :: "job \<Rightarrow> bool" where
  "active j = (jstat j = Pending \<or> jstat j = Running)"

text \<open>The partial unique index \<^verbatim>\<open>job_flex_ingest_kind_hash_active\<close>.\<close>

definition unique_active :: "job list \<Rightarrow> bool" where
  "unique_active js =
     distinct (map (\<lambda>j. (jkind j, jhash j)) (filter (\<lambda>j. active j \<and> jhash j \<noteq> None) js))"

definition smallint :: "int \<Rightarrow> bool" where
  "smallint n = (- 32768 \<le> n \<and> n \<le> 32767)"

definition update_where :: "(job \<Rightarrow> bool) \<Rightarrow> (job \<Rightarrow> job) \<Rightarrow> queue \<Rightarrow> queue" where
  "update_where P f q = q\<lparr>rows := map (\<lambda>j. if P j then f j else j) (rows q)\<rparr>"

definition checked_update :: "(job \<Rightarrow> bool) \<Rightarrow> (job \<Rightarrow> job) \<Rightarrow> queue \<Rightarrow> py_error + queue" where
  "checked_update P f q =
     (let q' = update_where P f q in if unique_active (rows q') then Inr q' else Inl UniqueViolation)"

definition affected_ids :: "(job \<Rightarrow> bool) \<Rightarrow> queue \<Rightarrow> int list" where
  "affected_ids P q = map jid (filter P (rows q))"

subsection \<open>Enqueue\<close>

text \<open>\<open>sha256_hex\<close> stands for \<open>hashlib.sha256(...).hexdigest()\<close>.\<close>

definition payload_hash :: "(string \<Rightarrow> string) \<Rightarrow> dict \<Rightarrow> string" where
  "payload_hash sha256_hex payload = take 16 (sha256_hex (json_canonical (PDict payload)))"

definition new_job :: "int \<Rightarrow> string \<Rightarrow> dict \<Rightarrow> string option \<Rightarrow> int \<Rightarrow> int \<Rightarrow> instant \<Rightarrow> job" where
  "new_job i kind body ph prio maxa now =
     \<lparr>jid = i, jkind = kind, jpayload = body, jhash = ph, jpriority = prio, jstat = Pending,
      jattempts = 0, jmax = maxa, jresult = None, jcategory = None, jnot_before = None,
      jcreated = now, jupdated = now, jstarted = None, jfinished = None\<rparr>"

definition insert_job ::
  "(string \<Rightarrow> string) \<Rightarrow> instant \<Rightarrow> string \<Rightarrow> dict \<Rightarrow> int \<Rightarrow> int \<Rightarrow> dict option \<Rightarrow> queue
     \<Rightarrow> py_error + int option \<times> queue" where
  "insert_job sha now kind body prio maxa hash_payload q =
     (let kind_s = strip kind;
          ph = payload_hash sha (case hash_payload of None \<Rightarrow> body | Some hp \<Rightarrow> hp);
          i = next_id q
      in if kind_s = [] then Inl (ValueError ''kind is required'')
         else if \<not> smallint prio \<or> \<not> smallint maxa then Inl (DataError ''smallint out of range'')
         else if list_ex (\<lambda>j. active j \<and> jkind j = kind_s \<and> jhash j = Some ph) (rows q)
           then Inr (None, q\<lparr>next_id := i + 1\<rparr>)
         else Inr (Some i, q\<lparr>rows := rows q @ [new_job i kind_s body (Some ph) prio maxa now],
                             next_id := i + 1\<rparr>))"

definition insert_manual_job :: "instant \<Rightarrow> string \<Rightarrow> dict \<Rightarrow> queue \<Rightarrow> py_error + int \<times> queue" where
  "insert_manual_job now kind payload q =
     (let kind_s = strip kind;
          body = dmerge [(''manual'', PBool True)] payload;
          i = next_id q
      in if kind_s = [] then Inl (ValueError ''kind is required'')
         else Inr (i, q\<lparr>rows := rows q @ [(new_job i kind_s body None 0 1 now)
                                 \<lparr>jstat := Running, jattempts := 1, jstarted := Some now\<rparr>],
                        next_id := i + 1\<rparr>))"

text \<open>\<open>ORDER BY finished_at DESC NULLS LAST, id DESC\<close>, as a sort of the negated key.\<close>

definition finished_rank :: "job \<Rightarrow> int \<times> int \<times> int" where
  "finished_rank j = (case jfinished j of None \<Rightarrow> (1, 0, - jid j) | Some t \<Rightarrow> (0, - t, - jid j))"

fun rank_le :: "int \<times> int \<times> int \<Rightarrow> int \<times> int \<times> int \<Rightarrow> bool" where
  "rank_le (a, b, c) (a', b', c') = (a < a' \<or> a = a' \<and> (b < b' \<or> b = b' \<and> c \<le> c'))"

fun insert_ranked :: "job \<Rightarrow> job list \<Rightarrow> job list" where
  "insert_ranked x [] = [x]"
| "insert_ranked x (y # ys) =
     (if rank_le (finished_rank x) (finished_rank y) then x # y # ys else y # insert_ranked x ys)"

definition by_finished_desc :: "job list \<Rightarrow> job list" where
  "by_finished_desc js = foldr insert_ranked js []"

definition settled :: "job \<Rightarrow> bool" where
  "settled j = (jstat j = Done \<or> jstat j = Failed)"

definition trim_old_jobs :: "instant \<Rightarrow> int \<Rightarrow> nat \<Rightarrow> queue \<Rightarrow> nat \<times> queue" where
  "trim_old_jobs now keep_days keep_max q =
     (let expired = (\<lambda>j. settled j \<and> (case jfinished j of None \<Rightarrow> False
                         | Some t \<Rightarrow> t < now - secs (86400 * keep_days)));
          kept = filter (\<lambda>j. \<not> expired j) (rows q);
          excess = map jid (drop keep_max (by_finished_desc (filter settled kept)));
          final = filter (\<lambda>j. jid j \<notin> set excess) kept
      in (length (rows q) - length final, q\<lparr>rows := final\<rparr>))"

subsection \<open>Claim\<close>

record claimed =
  cid :: int
  ckind :: string
  cpayload :: dict
  cattempts :: int
  cmax :: int

text \<open>\<open>int(row.get("max_attempts") or 3)\<close>: a stored zero reads as three.\<close>

definition effective_max :: "int \<Rightarrow> int" where
  "effective_max m = (if m = 0 then 3 else m)"

definition row_to_job :: "job \<Rightarrow> claimed" where
  "row_to_job j = \<lparr>cid = jid j, ckind = jkind j, cpayload = jpayload j, cattempts = jattempts j,
     cmax = effective_max (jmax j)\<rparr>"

definition runnable :: "instant \<Rightarrow> job \<Rightarrow> bool" where
  "runnable now j = (jstat j = Pending \<and> (case jnot_before j of None \<Rightarrow> True | Some t \<Rightarrow> t \<le> now))"

text \<open>\<open>ORDER BY priority DESC, created_at ASC, id ASC\<close>.\<close>

definition claim_before :: "job \<Rightarrow> job \<Rightarrow> bool" where
  "claim_before a b =
     (jpriority a > jpriority b \<or>
      jpriority a = jpriority b \<and>
        (jcreated a < jcreated b \<or> jcreated a = jcreated b \<and> jid a < jid b))"

fun pick_first :: "job list \<Rightarrow> job option" where
  "pick_first [] = None"
| "pick_first (j # js) =
     (case pick_first js of
        None \<Rightarrow> Some j
      | Some b \<Rightarrow> Some (if claim_before b j then b else j))"

definition claim_row :: "instant \<Rightarrow> job \<Rightarrow> job" where
  "claim_row now j = j\<lparr>jstat := Running, jattempts := jattempts j + 1, jstarted := Some now,
     jupdated := now, jnot_before := None\<rparr>"

text \<open>\<open>locked\<close> lists the rows other transactions hold: \<open>FOR UPDATE SKIP LOCKED\<close> passes over them.\<close>

definition claim_next :: "int list \<Rightarrow> instant \<Rightarrow> queue \<Rightarrow> py_error + claimed option \<times> queue" where
  "claim_next locked now q =
     (case pick_first (filter (\<lambda>j. runnable now j \<and> jid j \<notin> set locked) (rows q)) of
        None \<Rightarrow> Inr (None, q)
      | Some j \<Rightarrow>
          if \<not> smallint (jattempts j + 1) then Inl (DataError ''smallint out of range'')
          else Inr (Some ((row_to_job j)\<lparr>cattempts := jattempts j + 1\<rparr>),
                    update_where (\<lambda>r. jid r = jid j) (claim_row now) q))"

subsection \<open>Reclaim, finish, retry, defer\<close>

definition stale_message :: "int \<Rightarrow> string" where
  "stale_message sec = ''stale running reclaimed after '' @ show_int sec @ ''s '' @ em_dash @
     '' worker likely restarted mid-job; retried automatically while attempts remain''"

definition stale_running :: "instant \<Rightarrow> int \<Rightarrow> job \<Rightarrow> bool" where
  "stale_running now sec j =
     (jstat j = Running \<and>
      (case jstarted j of Some t \<Rightarrow> t | None \<Rightarrow> jcreated j) < now - secs sec)"

definition reclaim_row :: "instant \<Rightarrow> int \<Rightarrow> int \<Rightarrow> job \<Rightarrow> job" where
  "reclaim_row now sec delay j =
     (let again = jattempts j < jmax j in
      j\<lparr>jstat := (if again then Pending else Failed),
        jnot_before := (if again then Some (now + secs delay) else None),
        jcategory := Some ''stale'',
        jresult := Some [(''error'', PStr (take 2000 (stale_message sec))), (''category'', PStr ''stale'')],
        jfinished := (if again then None else Some now),
        jupdated := now\<rparr>)"

definition reclaim_stale_running :: "int \<Rightarrow> int \<Rightarrow> instant \<Rightarrow> queue \<Rightarrow> int list \<times> queue" where
  "reclaim_stale_running stale_after_sec requeue_delay_sec now q =
     (let sec = max 60 stale_after_sec; delay = max 0 requeue_delay_sec; P = stale_running now sec
      in (affected_ids P q, update_where P (reclaim_row now sec delay) q))"

definition done_row :: "dict \<Rightarrow> instant \<Rightarrow> job \<Rightarrow> job" where
  "done_row res now j = j\<lparr>jstat := Done, jresult := Some res, jcategory := None,
     jfinished := Some now, jupdated := now\<rparr>"

definition mark_done :: "int \<Rightarrow> dict \<Rightarrow> instant \<Rightarrow> queue \<Rightarrow> queue" where
  "mark_done i res now q = update_where (\<lambda>j. jid j = i) (done_row res now) q"

definition retry_row :: "string \<Rightarrow> string \<Rightarrow> int \<Rightarrow> instant \<Rightarrow> job \<Rightarrow> job" where
  "retry_row error category delay now j =
     j\<lparr>jstat := Pending, jnot_before := Some (now + secs delay), jcategory := Some category,
       jresult := Some [(''error'', PStr (take 2000 error)), (''category'', PStr category),
                        (''retry_after_sec'', PInt delay)],
       jfinished := None, jupdated := now\<rparr>"

definition mark_retry :: "int \<Rightarrow> string \<Rightarrow> string \<Rightarrow> int \<Rightarrow> instant \<Rightarrow> queue \<Rightarrow> py_error + queue" where
  "mark_retry i error category delay now q =
     checked_update (\<lambda>j. jid j = i) (retry_row error category delay now) q"

definition failed_row :: "string \<Rightarrow> string option \<Rightarrow> instant \<Rightarrow> job \<Rightarrow> job" where
  "failed_row error category now j =
     j\<lparr>jstat := Failed, jcategory := category,
       jresult := Some [(''error'', PStr (take 2000 error)),
                        (''category'', (case category of None \<Rightarrow> PNone | Some c \<Rightarrow> PStr c))],
       jfinished := Some now, jupdated := now\<rparr>"

definition mark_failed :: "int \<Rightarrow> string \<Rightarrow> string option \<Rightarrow> instant \<Rightarrow> queue \<Rightarrow> queue" where
  "mark_failed i error category now q =
     update_where (\<lambda>j. jid j = i) (failed_row error category now) q"

definition defer_row :: "int \<Rightarrow> instant \<Rightarrow> job \<Rightarrow> job" where
  "defer_row delay now j =
     j\<lparr>jnot_before := Some (max (case jnot_before j of None \<Rightarrow> now | Some t \<Rightarrow> t) (now + secs delay)),
       jupdated := now\<rparr>"

definition defer_pending :: "int \<Rightarrow> int option \<Rightarrow> instant \<Rightarrow> queue \<Rightarrow> int list \<times> queue" where
  "defer_pending delay exclude now q =
     (let P = (\<lambda>j. jstat j = Pending \<and> (case exclude of None \<Rightarrow> True | Some x \<Rightarrow> jid j \<noteq> x))
      in (affected_ids P q, update_where P (defer_row delay now) q))"

subsection \<open>The table as a map from ids to rows\<close>

definition look :: "queue \<Rightarrow> int \<Rightarrow> job option" where
  "look q i = find (\<lambda>j. jid j = i) (rows q)"

definition append_row :: "job \<Rightarrow> queue \<Rightarrow> queue" where
  "append_row j q = q\<lparr>rows := rows q @ [j], next_id := next_id q + 1\<rparr>"

definition unused_id :: "queue \<Rightarrow> int \<Rightarrow> bool" where
  "unused_id q i = (\<forall>j \<in> set (rows q). jid j \<noteq> i)"

definition wf_queue :: "queue \<Rightarrow> bool" where
  "wf_queue q \<longleftrightarrow> distinct (map jid (rows q)) \<and> (\<forall>j \<in> set (rows q). jid j < next_id q) \<and>
     unique_active (rows q)"

lemma find_map_same:
  "(\<And>j. jid (g j) = jid j) \<Longrightarrow> find (\<lambda>j. jid j = i) (map g js) = map_option g (find (\<lambda>j. jid j = i) js)"
  by (induction js) auto

lemma find_snoc:
  "find P (js @ [j]) = (case find P js of Some r \<Rightarrow> Some r | None \<Rightarrow> if P j then Some j else None)"
  by (induction js) auto

lemma find_jid: "find (\<lambda>j. jid j = i) js = Some r \<Longrightarrow> jid r = i \<and> r \<in> set js"
  by (induction js) (auto split: if_splits)

lemma look_unused: "unused_id q i \<Longrightarrow> look q i = None"
  unfolding look_def unused_id_def by (simp add: find_None_iff)

interpretation jq: growing_table look update_where jid append_row unused_id
proof
  show "look q i = Some r \<Longrightarrow> jid r = i" for q i r
    by (auto simp: look_def dest: find_jid)
  show "look (update_where P f q) i = map_option (\<lambda>r. if P r then f r else r) (look q i)"
    if "\<And>r. jid (f r) = jid r" for P f q i
    unfolding look_def update_where_def using that by (simp add: find_map_same)
  show "look (append_row r q) = (look q)(jid r \<mapsto> r)" if "unused_id q (jid r)" for q r
    using look_unused [OF that] by (auto simp: look_def append_row_def find_snoc split: option.splits)
qed

lemma look_in_rows: "look q i = Some j \<Longrightarrow> j \<in> set (rows q)"
  unfolding look_def by (blast dest: find_jid)

lemma look_of_row:
  assumes "distinct (map jid (rows q))" and "j \<in> set (rows q)"
  shows "look q (jid j) = Some j"
proof -
  have "distinct (map jid js) \<Longrightarrow> j \<in> set js \<Longrightarrow> find (\<lambda>r. jid r = jid j) js = Some j" for js
    by (induction js) (auto simp: image_iff)
  with assms show ?thesis by (simp add: look_def)
qed

lemma row_unique:
  "wf_queue q \<Longrightarrow> r \<in> set (rows q) \<Longrightarrow> s \<in> set (rows q) \<Longrightarrow> jid r = jid s \<Longrightarrow> r = s"
  by (auto simp: wf_queue_def distinct_map dest: inj_onD)

lemma next_id_unused: "wf_queue q \<Longrightarrow> unused_id q (next_id q)"
  by (auto simp: wf_queue_def unused_id_def)

subsection \<open>The unique index\<close>

definition active_keys :: "job list \<Rightarrow> (string \<times> string option) list" where
  "active_keys js = map (\<lambda>j. (jkind j, jhash j)) (filter (\<lambda>j. active j \<and> jhash j \<noteq> None) js)"

lemma unique_active_keys: "unique_active js \<longleftrightarrow> distinct (active_keys js)"
  by (simp add: unique_active_def active_keys_def)

definition keeps_identity :: "(job \<Rightarrow> job) \<Rightarrow> bool" where
  "keeps_identity f \<longleftrightarrow> (\<forall>j. jid (f j) = jid j \<and> jkind (f j) = jkind j \<and> jhash (f j) = jhash j)"

lemma keeps_identity_rows [simp]:
  "keeps_identity (claim_row now)" "keeps_identity (reclaim_row now sec delay)"
  "keeps_identity (done_row res now)" "keeps_identity (retry_row e c d now)"
  "keeps_identity (failed_row e oc now)" "keeps_identity (defer_row d now)"
  by (simp_all add: keeps_identity_def claim_row_def reclaim_row_def done_row_def retry_row_def
      failed_row_def defer_row_def Let_def)

lemma keeps_identityD [simp]:
  "keeps_identity f \<Longrightarrow> jid (f j) = jid j"
  "keeps_identity f \<Longrightarrow> jkind (f j) = jkind j"
  "keeps_identity f \<Longrightarrow> jhash (f j) = jhash j"
  by (simp_all add: keeps_identity_def)

lemma active_keys_update:
  assumes "keeps_identity f" and "\<And>j. j \<in> set js \<Longrightarrow> P j \<Longrightarrow> active (f j) \<Longrightarrow> active j"
  shows "subseq (active_keys (map (\<lambda>j. if P j then f j else j) js)) (active_keys js)"
  using assms(2) by (induction js) (auto simp: active_keys_def keeps_identityD [OF assms(1)])

lemma unique_active_update:
  assumes "keeps_identity f" and "\<And>j. j \<in> set js \<Longrightarrow> P j \<Longrightarrow> active (f j) \<Longrightarrow> active j"
    and "unique_active js"
  shows "unique_active (map (\<lambda>j. if P j then f j else j) js)"
proof -
  have "subseq (active_keys (map (\<lambda>j. if P j then f j else j) js)) (active_keys js)"
    by (rule active_keys_update [OF assms(1)]) (rule assms(2))
  with assms(3) show ?thesis
    by (metis in_set_subseqs subseqs_distinctD unique_active_keys)
qed

lemma wf_update_where:
  assumes "wf_queue q" and "keeps_identity f"
    and "\<And>j. j \<in> set (rows q) \<Longrightarrow> P j \<Longrightarrow> active (f j) \<Longrightarrow> active j"
  shows "wf_queue (update_where P f q)"
proof -
  have "jid \<circ> (\<lambda>j. if P j then f j else j) = jid"
    using assms(2) by auto
  then show ?thesis
    using assms unfolding wf_queue_def update_where_def
    by (auto intro: unique_active_update)
qed

subsection \<open>Which row a claim picks\<close>

lemma claim_before_trans_neg: "\<not> claim_before a b \<Longrightarrow> \<not> claim_before b c \<Longrightarrow> \<not> claim_before a c"
  by (auto simp: claim_before_def)

lemma claim_before_asym: "claim_before a b \<Longrightarrow> \<not> claim_before b a"
  by (auto simp: claim_before_def)

lemma pick_first_None [simp]: "pick_first js = None \<longleftrightarrow> js = []"
  by (cases js) (auto split: option.splits)

lemma pick_first_Some:
  "pick_first js = Some b \<Longrightarrow> b \<in> set js \<and> (\<forall>j \<in> set js. \<not> claim_before j b)"
proof (induction js arbitrary: b)
  case (Cons j js)
  have irrefl: "\<not> claim_before j j" for j by (simp add: claim_before_def)
  show ?case
  proof (cases "pick_first js")
    case None
    with Cons.prems irrefl show ?thesis by simp
  next
    case (Some b')
    with Cons.IH have b': "b' \<in> set js" "\<forall>k \<in> set js. \<not> claim_before k b'" by auto
    show ?thesis
    proof (cases "claim_before b' j")
      case True
      with Some Cons.prems b' show ?thesis by (auto dest: claim_before_asym)
    next
      case False
      with b'(2) have "\<forall>k \<in> set js. \<not> claim_before k j" by (metis claim_before_trans_neg)
      with False Some Cons.prems irrefl show ?thesis by auto
    qed
  qed
qed simp

lemma claim_next_SomeD:
  assumes "claim_next locked now q = Inr (Some c, q')"
  obtains j where "j \<in> set (rows q)" "runnable now j" "jid j \<notin> set locked"
    "\<forall>k \<in> set (rows q). runnable now k \<and> jid k \<notin> set locked \<longrightarrow> \<not> claim_before k j"
    "smallint (jattempts j + 1)"
    "c = (row_to_job j)\<lparr>cattempts := jattempts j + 1\<rparr>"
    "q' = update_where (\<lambda>r. jid r = jid j) (claim_row now) q"
  using assms unfolding claim_next_def
  by (auto split: option.splits if_splits dest!: pick_first_Some)

lemma claim_next_None_iff:
  "(\<exists>q'. claim_next locked now q = Inr (None, q')) \<longleftrightarrow>
     (\<forall>j \<in> set (rows q). runnable now j \<longrightarrow> jid j \<in> set locked)"
proof (cases "pick_first (filter (\<lambda>j. runnable now j \<and> jid j \<notin> set locked) (rows q))")
  case None
  then have "filter (\<lambda>j. runnable now j \<and> jid j \<notin> set locked) (rows q) = []" by simp
  with None show ?thesis by (auto simp: claim_next_def filter_empty_conv)
next
  case (Some j)
  from pick_first_Some [OF Some] Some show ?thesis by (auto simp: claim_next_def)
qed

lemma look_claim:
  assumes "wf_queue q" and "claim_next locked now q = Inr (Some c, q')"
  obtains j where "look q (cid c) = Some j" "runnable now j"
    "c = (row_to_job j)\<lparr>cattempts := jattempts j + 1\<rparr>"
    "look q' = (look q)(cid c \<mapsto> claim_row now j)"
proof -
  from assms(2) obtain j where j: "j \<in> set (rows q)" "runnable now j"
    and c: "c = (row_to_job j)\<lparr>cattempts := jattempts j + 1\<rparr>"
    and q': "q' = update_where (\<lambda>r. jid r = jid j) (claim_row now) q"
    by (rule claim_next_SomeD) auto
  from c have cid: "cid c = jid j" by (simp add: row_to_job_def)
  with assms(1) j have look: "look q (cid c) = Some j" by (simp add: look_of_row wf_queue_def)
  then have "look q' = (look q)(cid c \<mapsto> claim_row now j)"
    unfolding q' by (auto simp: fun_eq_iff jq.look_update_key cid)
  with look j(2) c show thesis by (rule that)
qed

lemma active_claim_row [simp]: "active (claim_row now j)"
  by (simp add: active_def claim_row_def)

lemma wf_claim: "wf_queue q \<Longrightarrow> claim_next locked now q = Inr (oc, q') \<Longrightarrow> wf_queue q'"
proof (cases oc)
  case (Some c)
  assume wf: "wf_queue q" and cl: "claim_next locked now q = Inr (oc, q')"
  from cl Some obtain j where j: "j \<in> set (rows q)" "runnable now j"
    and q': "q' = update_where (\<lambda>r. jid r = jid j) (claim_row now) q"
    by (auto elim: claim_next_SomeD)
  have "active r" if "r \<in> set (rows q)" "jid r = jid j" for r
    using row_unique [OF wf that(1) j(1) that(2)] j(2) by (simp add: runnable_def active_def)
  with wf show ?thesis unfolding q' by (intro wf_update_where) auto
qed (auto simp: claim_next_def split: option.splits if_splits)

subsection \<open>The other operations as updates of the map\<close>

lemma look_reclaim:
  "look (snd (reclaim_stale_running st rq now q)) i =
     map_option (\<lambda>j. if stale_running now (max 60 st) j then reclaim_row now (max 60 st) (max 0 rq) j else j)
       (look q i)"
  by (simp add: reclaim_stale_running_def Let_def jq.look_update)

lemma wf_reclaim: "wf_queue q \<Longrightarrow> wf_queue (snd (reclaim_stale_running st rq now q))"
  unfolding reclaim_stale_running_def Let_def
  by (auto intro!: wf_update_where simp: stale_running_def active_def)

lemma look_mark_done:
  "look (mark_done i res now q) k = (if k = i then map_option (done_row res now) (look q k) else look q k)"
  by (simp add: mark_done_def jq.look_update_key)

lemma wf_mark_done: "wf_queue q \<Longrightarrow> wf_queue (mark_done i res now q)"
  unfolding mark_done_def by (auto intro!: wf_update_where simp: active_def done_row_def)

lemma look_mark_failed:
  "look (mark_failed i e c now q) k = (if k = i then map_option (failed_row e c now) (look q k) else look q k)"
  by (simp add: mark_failed_def jq.look_update_key)

lemma wf_mark_failed: "wf_queue q \<Longrightarrow> wf_queue (mark_failed i e c now q)"
  unfolding mark_failed_def by (auto intro!: wf_update_where simp: active_def failed_row_def)

lemma look_defer:
  "look (snd (defer_pending d ex now q)) i =
     map_option (\<lambda>j. if jstat j = Pending \<and> (case ex of None \<Rightarrow> True | Some x \<Rightarrow> jid j \<noteq> x)
                      then defer_row d now j else j) (look q i)"
  by (simp add: defer_pending_def Let_def jq.look_update)

lemma wf_defer: "wf_queue q \<Longrightarrow> wf_queue (snd (defer_pending d ex now q))"
  unfolding defer_pending_def Let_def
  by (auto intro!: wf_update_where simp: active_def defer_row_def)

lemma look_mark_retry:
  "mark_retry i e c d now q = Inr q' \<Longrightarrow>
     look q' k = (if k = i then map_option (retry_row e c d now) (look q k) else look q k)"
  by (auto simp: mark_retry_def checked_update_def Let_def jq.look_update_key split: if_splits)

lemma wf_mark_retry: "wf_queue q \<Longrightarrow> mark_retry i e c d now q = Inr q' \<Longrightarrow> wf_queue q'"
proof -
  assume wf: "wf_queue q" and m: "mark_retry i e c d now q = Inr q'"
  from m have q': "q' = update_where (\<lambda>j. jid j = i) (retry_row e c d now) q" "unique_active (rows q')"
    by (auto simp: mark_retry_def checked_update_def Let_def split: if_splits)
  have "jid \<circ> (\<lambda>j. if jid j = i then retry_row e c d now j else j) = jid" by auto
  with wf q' show ?thesis by (auto simp: wf_queue_def update_where_def)
qed

lemma mark_retry_active:
  assumes "wf_queue q" and "look q i = Some j" and "active j"
  obtains q' where "mark_retry i e c d now q = Inr q'"
proof -
  have "active r" if "r \<in> set (rows q)" "jid r = i" for r
    using row_unique [OF assms(1) that(1) look_in_rows [OF assms(2)]] that(2) assms(3)
      jq.look_key [OF assms(2)] by simp
  with assms(1) have "wf_queue (update_where (\<lambda>j. jid j = i) (retry_row e c d now) q)"
    by (intro wf_update_where) auto
  then show thesis
    by (intro that) (simp add: mark_retry_def checked_update_def Let_def wf_queue_def)
qed

subsection \<open>Inserting\<close>

definition identity_of :: "dict \<Rightarrow> dict option \<Rightarrow> dict" where
  "identity_of body hp = (case hp of None \<Rightarrow> body | Some h \<Rightarrow> h)"

definition taken :: "string \<Rightarrow> string \<Rightarrow> queue \<Rightarrow> bool" where
  "taken kind ph q = (\<exists>j \<in> set (rows q). active j \<and> jkind j = kind \<and> jhash j = Some ph)"

lemma insert_job_eq:
  "insert_job sha now kind body prio maxa hp q =
     (let k = strip kind; ph = payload_hash sha (identity_of body hp) in
      if k = [] then Inl (ValueError ''kind is required'')
      else if \<not> smallint prio \<or> \<not> smallint maxa then Inl (DataError ''smallint out of range'')
      else if taken k ph q then Inr (None, q\<lparr>next_id := next_id q + 1\<rparr>)
      else Inr (Some (next_id q), append_row (new_job (next_id q) k body (Some ph) prio maxa now) q))"
  unfolding insert_job_def identity_of_def taken_def append_row_def list_ex_iff Let_def
  by (rule refl)

lemma insert_manual_job_eq:
  "insert_manual_job now kind payload q =
     (if strip kind = [] then Inl (ValueError ''kind is required'')
      else Inr (next_id q, append_row ((new_job (next_id q) (strip kind)
             (dmerge [(''manual'', PBool True)] payload) None 0 1 now)
             \<lparr>jstat := Running, jattempts := 1, jstarted := Some now\<rparr>) q))"
  by (simp add: insert_manual_job_def append_row_def Let_def)

lemma wf_append_row:
  assumes "wf_queue q" and "jid j = next_id q"
    and "\<And>h. active j \<Longrightarrow> jhash j = Some h \<Longrightarrow> \<not> taken (jkind j) h q"
  shows "wf_queue (append_row j q)"
proof -
  have "(jkind j, jhash j) \<notin> set (active_keys (rows q))" if "active j" "jhash j \<noteq> None"
    using assms(3) that by (auto simp: active_keys_def taken_def)
  then have "unique_active (rows q @ [j])"
    using assms(1) by (auto simp: wf_queue_def unique_active_keys) (auto simp: active_keys_def)
  then show ?thesis
    using assms(1,2) by (auto simp: wf_queue_def append_row_def)
qed

lemma wf_bump_id: "wf_queue q \<Longrightarrow> wf_queue (q\<lparr>next_id := next_id q + 1\<rparr>)"
  by (auto simp: wf_queue_def)

lemma wf_insert_job: "wf_queue q \<Longrightarrow> insert_job sha now k b p m hp q = Inr (r, q') \<Longrightarrow> wf_queue q'"
  by (auto simp: insert_job_eq Let_def new_job_def wf_bump_id intro!: wf_append_row split: if_splits)

lemma wf_insert_manual_job: "wf_queue q \<Longrightarrow> insert_manual_job now k b q = Inr (i, q') \<Longrightarrow> wf_queue q'"
  by (auto simp: insert_manual_job_eq new_job_def intro!: wf_append_row split: if_splits)

lemma look_bump_id [simp]: "look (q\<lparr>next_id := n\<rparr>) = look q"
  by (simp add: look_def fun_eq_iff)

lemma look_insert_job:
  "wf_queue q \<Longrightarrow> insert_job sha now k b p m hp q = Inr (Some i, q') \<Longrightarrow>
     i = next_id q \<and> smallint m \<and>
     look q' = (look q)(i \<mapsto> new_job i (strip k) b (Some (payload_hash sha (identity_of b hp))) p m now)"
  using jq.look_insert [of q "new_job (next_id q) (strip k) b (Some (payload_hash sha (identity_of b hp))) p m now"]
    next_id_unused [of q]
  by (auto simp: insert_job_eq Let_def new_job_def split: if_splits)

lemma look_insert_job_dup:
  "insert_job sha now k b p m hp q = Inr (None, q') \<Longrightarrow> look q' = look q"
  by (auto simp: insert_job_eq Let_def split: if_splits)

lemma look_insert_manual_job:
  "wf_queue q \<Longrightarrow> insert_manual_job now k b q = Inr (i, q') \<Longrightarrow>
     i = next_id q \<and> look q' = (look q)(i \<mapsto> (new_job i (strip k) (dmerge [(''manual'', PBool True)] b) None 0 1 now)
             \<lparr>jstat := Running, jattempts := 1, jstarted := Some now\<rparr>)"
  using jq.look_insert [of q "(new_job (next_id q) (strip k) (dmerge [(''manual'', PBool True)] b) None 0 1 now)
             \<lparr>jstat := Running, jattempts := 1, jstarted := Some now\<rparr>"] next_id_unused [of q]
  by (auto simp: insert_manual_job_eq new_job_def split: if_splits)

subsection \<open>Trimming\<close>

lemma mset_insert_ranked [simp]: "mset (insert_ranked x ys) = {#x#} + mset ys"
  by (induction ys) auto

lemma mset_by_finished_desc [simp]: "mset (by_finished_desc js) = mset js"
  by (induction js) (auto simp: by_finished_desc_def)

lemma set_by_finished_desc [simp]: "set (by_finished_desc js) = set js"
  by (metis mset_by_finished_desc set_mset_mset)

lemma trim_rows:
  fixes now keep_days keep_max q
  defines "kept \<equiv> filter (\<lambda>j. \<not> (settled j \<and> (case jfinished j of None \<Rightarrow> False
                         | Some t \<Rightarrow> t < now - secs (86400 * keep_days)))) (rows q)"
  shows "rows (snd (trim_old_jobs now keep_days keep_max q)) =
    filter (\<lambda>j. jid j \<notin> jid ` set (drop keep_max (by_finished_desc (filter settled kept)))) kept"
  by (simp add: trim_old_jobs_def kept_def Let_def)

lemma trim_keeps_active:
  assumes "wf_queue q" and "j \<in> set (rows q)" and "active j"
  shows "j \<in> set (rows (snd (trim_old_jobs now kd km q)))"
proof -
  from assms(3) have ns: "\<not> settled j" by (auto simp: active_def settled_def)
  have "jid j \<noteq> jid k" if "k \<in> set (rows q)" "settled k" for k
    using row_unique [OF assms(1,2) that(1)] that(2) ns by blast
  then have other: "jid j \<notin> jid ` set (drop km (by_finished_desc (filter settled ks)))"
    if "set ks \<subseteq> set (rows q)" for ks
    using that by (fastforce dest: in_set_dropD)
  show ?thesis
    unfolding trim_rows set_filter mem_Collect_eq
    using ns assms(2) by (intro conjI other) auto
qed

lemma trim_settled_bound:
  assumes "wf_queue q"
  shows "length (filter settled (rows (snd (trim_old_jobs now kd km q)))) \<le> km"
proof -
  define kept where "kept = filter (\<lambda>j. \<not> (settled j \<and> (case jfinished j of None \<Rightarrow> False
                         | Some t \<Rightarrow> t < now - secs (86400 * kd)))) (rows q)"
  define s where "s = by_finished_desc (filter settled kept)"
  define final where "final = filter settled (filter (\<lambda>j. jid j \<notin> jid ` set (drop km s)) kept)"
  have dist: "distinct (map jid kept)"
    using assms by (simp add: wf_queue_def kept_def distinct_map_filter)
  have "set (map jid final) \<subseteq> jid ` set (take km s)"
  proof
    fix i
    assume "i \<in> set (map jid final)"
    then obtain j where j: "j \<in> set s" "j \<notin> set (drop km s)" "i = jid j"
      by (auto simp: final_def s_def)
    then have "j \<in> set (take km s)"
      by (metis UnE append_take_drop_id set_append)
    with j show "i \<in> jid ` set (take km s)" by blast
  qed
  then have "card (set (map jid final)) \<le> card (jid ` set (take km s))"
    by (intro card_mono) auto
  also have "\<dots> \<le> length (take km s)"
    by (metis card_length list.set_map length_map)
  finally have "length (map jid final) \<le> km"
    using dist by (simp add: distinct_card final_def distinct_map_filter del: set_map)
  then show ?thesis
    by (simp add: final_def trim_rows kept_def s_def)
qed

subsection \<open>Properties\<close>

lemma claim_before_total:
  "wf_queue q \<Longrightarrow> j \<in> set (rows q) \<Longrightarrow> k \<in> set (rows q) \<Longrightarrow> k \<noteq> j \<Longrightarrow> \<not> claim_before k j \<Longrightarrow> claim_before j k"
  using row_unique [of q k j] by (fastforce simp: claim_before_def)

definition sample_queue :: queue where
  "sample_queue = \<lparr>rows = [new_job 1 ''flex-transactions'' [] (Some ''b'') 4 8 100,
     new_job 2 ''flex-trades'' [] (Some ''a'') 5 8 200], next_id = 3\<rparr>"

lemma wf_sample_queue: "wf_queue sample_queue"
  by (simp add: wf_queue_def sample_queue_def new_job_def unique_active_def active_def)

text \<open>C4: \<^verbatim>\<open>claim_next\<close> takes a runnable row no other transaction holds, and every other such row comes after
  it in the order priority descending, creation time, id. The row becomes running with one more
  attempt and no wait, the worker is told that attempt number, and no other row changes.\<close>

theorem claim_next_in_order:
  assumes "wf_queue q" and "claim_next locked now q = Inr (Some c, q')"
  shows "\<exists>j. look q (cid c) = Some j \<and> runnable now j \<and> cid c \<notin> set locked \<and>
     cattempts c = jattempts j + 1 \<and> ckind c = jkind j \<and> cpayload c = jpayload j \<and>
     look q' = (look q)(cid c \<mapsto> claim_row now j) \<and>
     (\<forall>k \<in> set (rows q). runnable now k \<and> jid k \<notin> set locked \<and> k \<noteq> j \<longrightarrow> claim_before j k)"
proof -
  from assms(2) obtain j where j: "j \<in> set (rows q)" "runnable now j" "jid j \<notin> set locked"
    and first: "\<forall>k \<in> set (rows q). runnable now k \<and> jid k \<notin> set locked \<longrightarrow> \<not> claim_before k j"
    and c: "c = (row_to_job j)\<lparr>cattempts := jattempts j + 1\<rparr>"
    by (rule claim_next_SomeD) auto
  from c have cid: "cid c = jid j" by (simp add: row_to_job_def)
  with assms(1) j(1) have look: "look q (cid c) = Some j" by (simp add: look_of_row wf_queue_def)
  from assms have "look q' = (look q)(cid c \<mapsto> claim_row now j)"
    by (rule look_claim) (use look in auto)
  moreover have "\<forall>k \<in> set (rows q). runnable now k \<and> jid k \<notin> set locked \<and> k \<noteq> j \<longrightarrow> claim_before j k"
    using first claim_before_total [OF assms(1) j(1)] by blast
  ultimately show ?thesis
    using look j(2,3) cid by (intro exI [of _ j]) (simp add: c row_to_job_def)
qed

theorem claim_next_in_order_witness:
  "wf_queue sample_queue \<and>
   (\<exists>c q' j. claim_next [] 300 sample_queue = Inr (Some c, q') \<and> look sample_queue (cid c) = Some j \<and>
      jid j = 2 \<and> look q' (cid c) = Some (claim_row 300 j))"
proof -
  obtain c q' where c: "claim_next [] 300 sample_queue = Inr (Some c, q')" "cid c = 2"
    by (simp add: claim_next_def sample_queue_def new_job_def runnable_def claim_before_def
        smallint_def row_to_job_def)
  from claim_next_in_order [OF wf_sample_queue c(1)] obtain j
    where "look sample_queue (cid c) = Some j" "look q' (cid c) = Some (claim_row 300 j)" by auto
  with c show ?thesis using wf_sample_queue jq.look_key [of sample_queue "cid c" j] by auto
qed

text \<open>a poll of \<^verbatim>\<open>claim_next\<close> comes back empty exactly when every runnable row is held by another
  transaction, and then it leaves the queue as it was.\<close>

lemma claim_next_idle:
  "(\<exists>q'. claim_next locked now q = Inr (None, q')) = (\<forall>j \<in> set (rows q). runnable now j \<longrightarrow> jid j \<in> set locked) \<and>
   (\<forall>q'. claim_next locked now q = Inr (None, q') \<longrightarrow> q' = q)"
  using claim_next_None_iff by (auto simp: claim_next_def split: option.splits if_splits)

text \<open>enqueueing is idempotent while the job is active. A second \<^verbatim>\<open>insert_job\<close> of the same kind, whose
  identity payload has the same entries in any order, inserts nothing, whatever its priority,
  attempt budget and execution knobs.\<close>

lemma insert_job_dedupes:
  assumes "insert_job sha now kind body prio maxa (Some ident) q = Inr (Some i, q1)"
    and "mset ident' = mset ident" and "distinct (map fst ident)"
    and "smallint prio'" and "smallint maxa'"
  shows "\<exists>q2. insert_job sha now' kind body' prio' maxa' (Some ident') q1 = Inr (None, q2) \<and> rows q2 = rows q1"
proof -
  let ?ph = "payload_hash sha ident"
  have ph: "payload_hash sha ident' = ?ph"
    using json_canonical_perm [of ident ident'] assms(2,3) by (simp add: payload_hash_def)
  from assms(1) have q1: "strip kind \<noteq> []"
      "q1 = append_row (new_job (next_id q) (strip kind) body (Some ?ph) prio maxa now) q"
    by (auto simp: insert_job_eq Let_def identity_of_def split: if_splits)
  then have "taken (strip kind) ?ph q1"
    by (auto simp: taken_def append_row_def new_job_def active_def)
  with q1(1) assms(4,5) show ?thesis
    by (simp add: insert_job_eq Let_def identity_of_def ph)
qed

text \<open>C11: \<^verbatim>\<open>reclaim_stale_running\<close> leaves no stale running row behind. Each row it returns goes back to pending
  after the requeue delay when attempts are left and fails otherwise, and every other row is untouched.\<close>

theorem reclaim_complete:
  assumes "look q i = Some j"
  shows "(\<forall>k \<in> set (rows (snd (reclaim_stale_running st rq now q))). \<not> stale_running now (max 60 st) k) \<and>
    (stale_running now (max 60 st) j \<longrightarrow> i \<in> set (fst (reclaim_stale_running st rq now q))) \<and>
    (\<exists>j'. look (snd (reclaim_stale_running st rq now q)) i = Some j' \<and> jattempts j' = jattempts j \<and>
      (if \<not> stale_running now (max 60 st) j then j' = j
       else if jattempts j < jmax j
       then jstat j' = Pending \<and> jnot_before j' = Some (now + secs (max 0 rq)) \<and> jfinished j' = None
       else jstat j' = Failed \<and> jfinished j' = Some now))"
proof -
  have "\<not> stale_running now s (reclaim_row now s d k)" for s d k
    by (simp add: stale_running_def reclaim_row_def Let_def)
  then have "\<forall>k \<in> set (rows (snd (reclaim_stale_running st rq now q))). \<not> stale_running now (max 60 st) k"
    by (auto simp: reclaim_stale_running_def update_where_def Let_def)
  moreover have "i \<in> set (fst (reclaim_stale_running st rq now q))" if "stale_running now (max 60 st) j"
    using that look_in_rows [OF assms] jq.look_key [OF assms]
    by (auto simp: reclaim_stale_running_def affected_ids_def Let_def)
  moreover have "look (snd (reclaim_stale_running st rq now q)) i =
      Some (if stale_running now (max 60 st) j then reclaim_row now (max 60 st) (max 0 rq) j else j)"
    by (simp add: look_reclaim assms)
  ultimately show ?thesis by (auto simp: reclaim_row_def Let_def)
qed

theorem reclaim_complete_witness:
  "\<exists>j'. look (snd (reclaim_stale_running 7200 600 (secs 9000)
        \<lparr>rows = [claim_row 0 (new_job 1 ''flex-trades'' [] (Some ''a'') 5 8 0)], next_id = 2\<rparr>)) 1 = Some j' \<and>
     jstat j' = Pending \<and> jnot_before j' = Some (secs 9600)"
  using reclaim_complete [of "\<lparr>rows = [claim_row 0 (new_job 1 ''flex-trades'' [] (Some ''a'') 5 8 0)], next_id = 2\<rparr>"
      1 "claim_row 0 (new_job 1 ''flex-trades'' [] (Some ''a'') 5 8 0)" 7200 600 "secs 9000"]
  by (auto simp: look_def claim_row_def new_job_def stale_running_def secs_def usec_def)

text \<open>\<^verbatim>\<open>trim_old_jobs\<close> never deletes a pending or running job, and leaves at most \<^verbatim>\<open>keep_max\<close> settled ones.\<close>

lemma trim_old_jobs_bounds:
  assumes "wf_queue q"
  shows "filter active (rows (snd (trim_old_jobs now keep_days keep_max q))) = filter active (rows q) \<and>
     length (filter settled (rows (snd (trim_old_jobs now keep_days keep_max q)))) \<le> keep_max"
proof -
  let ?q' = "snd (trim_old_jobs now keep_days keep_max q)"
  obtain P where P: "rows ?q' = filter P (rows q)"
    unfolding trim_rows by (auto simp: filter_filter)
  have "P j" if "j \<in> set (rows q)" "active j" for j
    using trim_keeps_active [OF assms that, of now keep_days keep_max] unfolding P by simp
  then have "filter active (rows ?q') = filter active (rows q)"
    unfolding P filter_filter by (auto intro: filter_cong)
  with trim_settled_bound [OF assms] show ?thesis by blast
qed

end
