(* ===== verification/Calendar_Dates.thy ===== *)
theory Calendar_Dates
  imports Py_Values
begin

text \<open>
  The calendar arithmetic of Python's \<open>datetime\<close> that the code uses: the proleptic Gregorian ordinal
  (1 is 0001-01-01) and its year, month and day, \<open>strftime("%Y%m%d")\<close>, \<open>isoformat()\<close>, the fields of a
  local time, and \<open>datetime.strptime(s, "%Y%m%d")\<close>. A \<open>date\<close> is its ordinal; arithmetic that leaves the
  years 1 to 9999 raises \<open>OverflowError\<close>. The lemmas show that ordinals and year/month/day correspond
  one to one and that a date printed with \<open>%Y%m%d\<close> is read back.
\<close>

type_synonym date = int

definition MAXORDINAL :: int where
  "MAXORDINAL = 3652059"

definition valid_date :: "date \<Rightarrow> bool" where
  "valid_date d \<longleftrightarrow> 1 \<le> d \<and> d \<le> MAXORDINAL"

text \<open>\<open>d + timedelta(days=n)\<close>.\<close>

definition add_days :: "date \<Rightarrow> int \<Rightarrow> py_error + date" where
  "add_days d n = (if valid_date (d + n) then Inr (d + n) else Inl (OverflowError ''date value out of range''))"

definition is_leap :: "int \<Rightarrow> bool" where
  "is_leap y \<longleftrightarrow> y mod 4 = 0 \<and> (y mod 100 \<noteq> 0 \<or> y mod 400 = 0)"

definition days_in_month :: "int \<Rightarrow> int \<Rightarrow> int" where
  "days_in_month y m =
     (if m = 2 then (if is_leap y then 29 else 28)
      else if m = 4 \<or> m = 6 \<or> m = 9 \<or> m = 11 then 30 else 31)"

definition days_before_year :: "int \<Rightarrow> int" where
  "days_before_year y = (y - 1) * 365 + (y - 1) div 4 - (y - 1) div 100 + (y - 1) div 400"

definition days_before_month :: "int \<Rightarrow> int \<Rightarrow> int" where
  "days_before_month y m = sum_list (map (days_in_month y) [1..m - 1])"

definition ymd2ord :: "int \<Rightarrow> int \<Rightarrow> int \<Rightarrow> date" where
  "ymd2ord y m d = days_before_year y + days_before_month y m + d"

text \<open>The year of an ordinal: from a year that is not too late, forward.\<close>

function year_from :: "int \<Rightarrow> int \<Rightarrow> int" where
  "year_from y n = (if n \<le> days_before_year (y + 1) \<or> n < y then y else year_from (y + 1) n)"
  by pat_completeness auto
termination
  by (relation "measure (\<lambda>(y, n). nat (n + 1 - y))") auto

declare year_from.simps [simp del]

fun month_from :: "int \<Rightarrow> int list \<Rightarrow> int \<Rightarrow> int \<times> int" where
  "month_from y [] d = (12, d)"
| "month_from y (m # ms) d =
     (if d \<le> days_in_month y m \<or> ms = [] then (m, d) else month_from y ms (d - days_in_month y m))"

definition ord2ymd :: "date \<Rightarrow> int \<times> int \<times> int" where
  "ord2ymd n =
     (let y = year_from (1 + (n - 1) div 366) n;
          (m, d) = month_from y [1..12] (n - days_before_year y)
      in (y, m, d))"

text \<open>\<open>%Y\<close> is not padded by the C library the interpreter calls; \<open>isoformat()\<close> pads.\<close>

definition strftime_ymd :: "date \<Rightarrow> string" where
  "strftime_ymd n = (case ord2ymd n of (y, m, d) \<Rightarrow> show_nat (nat y) @ pad 2 (nat m) @ pad 2 (nat d))"

definition isoformat :: "date \<Rightarrow> string" where
  "isoformat n = (case ord2ymd n of (y, m, d) \<Rightarrow>
     pad 4 (nat y) @ ''-'' @ pad 2 (nat m) @ ''-'' @ pad 2 (nat d))"

text \<open>An instant shifted by a zone's offset, read as local calendar fields. Ordinal 719163 is
  1970-01-01, a Thursday.\<close>

definition EPOCH_ORDINAL :: int where
  "EPOCH_ORDINAL = 719163"

definition local_date :: "int \<Rightarrow> date" where
  "local_date l = l div secs 86400 + EPOCH_ORDINAL"

definition local_hour :: "int \<Rightarrow> int" where
  "local_hour l = (l div secs 3600) mod 24"

definition local_minute :: "int \<Rightarrow> int" where
  "local_minute l = (l div secs 60) mod 60"

definition local_second :: "int \<Rightarrow> int" where
  "local_second l = (l div secs 1) mod 60"

definition weekday :: "date \<Rightarrow> int" where
  "weekday d = (d + 6) mod 7"

definition iso_z_of :: "int \<Rightarrow> string" where
  "iso_z_of t = (case ord2ymd (local_date t) of (y, m, d) \<Rightarrow>
     show_nat (nat y) @ ''-'' @ pad 2 (nat m) @ ''-'' @ pad 2 (nat d)) @ ''T'' @ pad 2 (nat (local_hour t)) @ '':'' @
     pad 2 (nat (local_minute t)) @ '':'' @ pad 2 (nat (local_second t)) @ ''Z''"

subsection \<open>Reading a date\<close>

text \<open>\<open>strptime\<close> with \<open>%Y%m%d\<close> is the regular expression \<^verbatim>\<open>(\d\d\d\d)(1[0-2]|0[1-9]|[1-9])(3[0-1]|[1-2]\d|0[1-9]|[1-9]| [1-9])\<close>
  matched at the start, with the first alternative that lets the rest match; a remainder is an
  error, and so is a day the month does not have. A matcher is a function to the list of the
  (value, rest) pairs it can produce, in the order the regular expression tries them.\<close>

definition in_range :: "char \<Rightarrow> char \<Rightarrow> char \<Rightarrow> bool" where
  "in_range a b c \<longleftrightarrow> (of_char a :: nat) \<le> of_char c \<and> (of_char c :: nat) \<le> of_char b"

fun two_digits :: "(char \<Rightarrow> bool) \<Rightarrow> (char \<Rightarrow> bool) \<Rightarrow> string \<Rightarrow> (nat \<times> string) list" where
  "two_digits P Q (a # b # s) = (if P a \<and> Q b then [(digit_val a * 10 + digit_val b, s)] else [])"
| "two_digits P Q _ = []"

fun one_digit :: "(char \<Rightarrow> bool) \<Rightarrow> string \<Rightarrow> (nat \<times> string) list" where
  "one_digit P (a # s) = (if P a then [(digit_val a, s)] else [])"
| "one_digit P [] = []"

definition match_month :: "string \<Rightarrow> (nat \<times> string) list" where
  "match_month s =
     two_digits (\<lambda>c. c = CHR ''1'') (in_range (CHR ''0'') (CHR ''2'')) s @
     two_digits (\<lambda>c. c = CHR ''0'') (in_range (CHR ''1'') (CHR ''9'')) s @
     one_digit (in_range (CHR ''1'') (CHR ''9'')) s"

definition match_day :: "string \<Rightarrow> (nat \<times> string) list" where
  "match_day s =
     two_digits (\<lambda>c. c = CHR ''3'') (in_range (CHR ''0'') (CHR ''1'')) s @
     two_digits (in_range (CHR ''1'') (CHR ''2'')) is_digit s @
     two_digits (\<lambda>c. c = CHR ''0'') (in_range (CHR ''1'') (CHR ''9'')) s @
     one_digit (in_range (CHR ''1'') (CHR ''9'')) s @
     (case s of a # b # r \<Rightarrow> if a = CHR '' '' \<and> in_range (CHR ''1'') (CHR ''9'') b then [(digit_val b, r)] else []
        | _ \<Rightarrow> [])"

definition match_ymd :: "string \<Rightarrow> (int \<times> int \<times> int \<times> string) list" where
  "match_ymd s =
     (if list_all is_digit (take 4 s) \<and> 4 \<le> length s then
        concat (map (\<lambda>(m, r). map (\<lambda>(d, r'). (int (digits_val (take 4 s)), int m, int d, r')) (match_day r))
          (match_month (drop 4 s)))
      else [])"

definition strptime_ymd :: "string \<Rightarrow> py_error + date" where
  "strptime_ymd s =
     (case match_ymd s of
        [] \<Rightarrow> Inl (ValueError (''time data '' @ repr_str s @ '' does not match format '' @ repr_str ''%Y%m%d''))
      | (y, m, d, rest) # _ \<Rightarrow>
          if rest \<noteq> [] then Inl (ValueError (''unconverted data remains: '' @ rest))
          else if y < 1 then Inl (ValueError (''year '' @ show_int y @ '' is out of range''))
          else if days_in_month y m < d then Inl (ValueError ''day is out of range for month'')
          else Inr (ymd2ord y m d))"

subsection \<open>Ordinals and calendar dates correspond\<close>

lemma div_pred:
  fixes y k :: int
  assumes "0 < k"
  shows "y div k = (y - 1) div k + (if y mod k = 0 then 1 else 0)"
proof -
  define q r where "q = (y - 1) div k" and "r = (y - 1) mod k"
  have y: "y = k * q + (r + 1)" and r: "0 \<le> r" "r < k"
    using assms by (simp_all add: q_def r_def)
  show ?thesis
  proof (cases "r + 1 < k")
    case True
    with y r have "y div k = q" "y mod k = r + 1" by (auto intro!: int_div_pos_eq int_mod_pos_eq)
    with r show ?thesis by (simp add: q_def)
  next
    case False
    with y r have "y = k * (q + 1)" by (simp add: algebra_simps)
    with assms have "y div k = q + 1" "y mod k = 0" by simp_all
    then show ?thesis by (simp add: q_def)
  qed
qed

lemma year_length:
  "days_before_year (y + 1) = days_before_year y + (if is_leap y then 366 else 365)"
proof -
  have "y mod 100 mod 4 = y mod 4" "y mod 400 mod 100 = y mod 100"
    by (rule mod_mod_cancel, simp)+
  then have m: "y mod 100 = 0 \<Longrightarrow> y mod 4 = 0" "y mod 400 = 0 \<Longrightarrow> y mod 100 = 0"
    by (metis mod_0)+
  have count: "(a + (if p4 then 1 else 0)) - (b + (if p100 then 1 else 0)) + (c + (if p400 then 1 else 0)) =
      a - b + c + (if p4 \<and> (\<not> p100 \<or> p400) then 1 else 0)"
    if "p100 \<Longrightarrow> p4" "p400 \<Longrightarrow> p100" for a b c :: int and p4 p100 p400
    using that by (cases p4; cases p100; cases p400) simp_all
  have "days_before_year (y + 1) = y * 365 + (y div 4 - y div 100 + y div 400)"
    by (simp only: days_before_year_def add_diff_cancel_right' add_diff_eq diff_add_eq add.assoc)
  also have "y div 4 - y div 100 + y div 400 =
      (y - 1) div 4 - (y - 1) div 100 + (y - 1) div 400 + (if is_leap y then 1 else 0)"
    unfolding div_pred [of 4 y, OF zero_less_numeral] div_pred [of 100 y, OF zero_less_numeral]
      div_pred [of 400 y, OF zero_less_numeral] is_leap_def
    by (rule count [OF m])
  finally have "days_before_year (y + 1) = days_before_year y + 365 + (if is_leap y then 1 else 0)"
    by (simp only: days_before_year_def [of y] algebra_simps)
  then show ?thesis by (cases "is_leap y") simp_all
qed

lemma days_before_year_1 [simp]: "days_before_year 1 = 0"
  by (simp add: days_before_year_def)

lemma days_before_year_lower: "1 \<le> y \<Longrightarrow> 365 * (y - 1) \<le> days_before_year y"
  by (induction y rule: int_ge_induct) (auto simp: year_length)

lemma days_before_year_upper: "1 \<le> y \<Longrightarrow> days_before_year y \<le> 366 * (y - 1)"
  by (induction y rule: int_ge_induct) (auto simp: year_length)

lemma year_from_correct:
  "1 \<le> y \<Longrightarrow> days_before_year y < n \<Longrightarrow>
     y \<le> year_from y n \<and> days_before_year (year_from y n) < n \<and> n \<le> days_before_year (year_from y n + 1)"
proof (induction y n rule: year_from.induct)
  case (1 y n)
  show ?case
  proof (cases "n \<le> days_before_year (y + 1)")
    case True
    with 1 show ?thesis by (simp add: year_from.simps [of y n])
  next
    case False
    have "y - 1 \<le> 365 * (y - 1)" using \<open>1 \<le> y\<close> by simp
    with 1(3) days_before_year_lower [OF \<open>1 \<le> y\<close>] have "\<not> n < y" by linarith
    with False 1 show ?thesis by (auto simp: year_from.simps [of y n])
  qed
qed

lemma year_of_ordinal:
  assumes "1 \<le> n"
  shows "let y = year_from (1 + (n - 1) div 366) n in 1 \<le> y \<and> days_before_year y < n \<and> n \<le> days_before_year (y + 1)"
proof -
  have 1: "1 \<le> 1 + (n - 1) div 366" using assms by simp
  have "366 * ((n - 1) div 366) \<le> n - 1"
    using mult_div_mod_eq [of 366 "n - 1"] pos_mod_sign [of 366 "n - 1"] by linarith
  with days_before_year_upper [OF 1] have "days_before_year (1 + (n - 1) div 366) < n" by simp
  from year_from_correct [OF 1 this] 1 show ?thesis by (auto simp: Let_def)
qed

lemma days_in_month_pos [simp]: "28 \<le> days_in_month y m" "days_in_month y m \<le> 31"
  by (auto simp: days_in_month_def)

lemma month_from_split:
  "1 \<le> d \<Longrightarrow> d \<le> sum_list (map (days_in_month y) ms) \<Longrightarrow>
     \<exists>pre m suf r. ms = pre @ m # suf \<and> month_from y ms d = (m, r) \<and> 1 \<le> r \<and> r \<le> days_in_month y m \<and>
       d = sum_list (map (days_in_month y) pre) + r"
proof (induction ms arbitrary: d)
  case Nil
  then show ?case by simp
next
  case (Cons m ms)
  show ?case
  proof (cases "d \<le> days_in_month y m")
    case True
    with Cons.prems show ?thesis by (intro exI [of _ "[]"]) auto
  next
    case False
    with Cons.prems have "ms \<noteq> []" by auto
    have "1 \<le> d - days_in_month y m" "d - days_in_month y m \<le> sum_list (map (days_in_month y) ms)"
      using False Cons.prems by auto
    from Cons.IH [OF this] obtain pre m' suf r where "ms = pre @ m' # suf"
      "month_from y ms (d - days_in_month y m) = (m', r)" "1 \<le> r" "r \<le> days_in_month y m'"
      "d - days_in_month y m = sum_list (map (days_in_month y) pre) + r" by blast
    with False \<open>ms \<noteq> []\<close> show ?thesis
      by (intro exI [of _ "m # pre"] exI [of _ m'] exI [of _ suf] exI [of _ r]) simp
  qed
qed

lemma upto_split: "[a..b] = pre @ m # suf \<Longrightarrow> pre = [a..m - 1] \<and> a \<le> m \<and> m \<le> b"
proof (induction pre arbitrary: a)
  case Nil
  then show ?case by (cases "a \<le> b") (auto simp: upto_rec1)
next
  case (Cons x pre)
  then have "a \<le> b" by (cases "a \<le> b") auto
  with Cons.prems have "x = a" "[a + 1..b] = pre @ m # suf" by (auto simp: upto_rec1)
  with Cons.IH [of "a + 1"] show ?case by (auto simp: upto_rec1)
qed

lemma year_days: "sum_list (map (days_in_month y) [1..12]) = (if is_leap y then 366 else 365)"
  by (simp add: upto_rec1 days_in_month_def)

lemma ord2ymd_correct:
  assumes "1 \<le> n" and "ord2ymd n = (y, m, d)"
  shows "ymd2ord y m d = n" "1 \<le> y" "1 \<le> m" "m \<le> 12" "1 \<le> d" "d \<le> days_in_month y m"
    "days_before_year y < n"
proof -
  define y' where "y' = year_from (1 + (n - 1) div 366) n"
  have y': "1 \<le> y'" "days_before_year y' < n" "n \<le> days_before_year (y' + 1)"
    using year_of_ordinal [OF assms(1)] by (auto simp: Let_def y'_def)
  then have "1 \<le> n - days_before_year y'" "n - days_before_year y' \<le> sum_list (map (days_in_month y') [1..12])"
    by (auto simp: year_days year_length)
  from month_from_split [OF this] obtain pre m' suf r where s: "[1..12] = pre @ m' # suf"
    and mf: "month_from y' [1..12] (n - days_before_year y') = (m', r)"
    and r: "1 \<le> r" "r \<le> days_in_month y' m'" "n - days_before_year y' = sum_list (map (days_in_month y') pre) + r"
    by blast
  have "(y, m, d) = (y', m', r)"
    using assms(2) mf by (simp add: ord2ymd_def Let_def flip: y'_def)
  with upto_split [OF s] r y' show "ymd2ord y m d = n" "1 \<le> y" "1 \<le> m" "m \<le> 12" "1 \<le> d" "d \<le> days_in_month y m"
    "days_before_year y < n"
    by (auto simp: ymd2ord_def days_before_month_def)
qed

text \<open>The years of the dates that the window code meets.\<close>

lemma year_bounds:
  assumes "364878 \<le> n" "n \<le> MAXORDINAL" and "ord2ymd n = (y, m, d)"
  shows "1000 \<le> y \<and> y \<le> 9999"
proof -
  from assms have n1: "1 \<le> n" by simp
  note c = ord2ymd_correct [OF n1 assms(3)]
  have "y = year_from (1 + (n - 1) div 366) n"
    using assms(3) by (simp add: ord2ymd_def Let_def split: prod.splits)
  with year_of_ordinal [OF n1] have up: "n \<le> days_before_year (y + 1)" by (simp add: Let_def)
  have mono: "days_before_year a \<le> days_before_year b" if "a \<le> b" for a b
    using that by (induction b rule: int_ge_induct) (auto simp: year_length)
  have "\<not> y \<le> 999"
    using mono [of "y + 1" 1000] up assms(1) by (auto simp: days_before_year_def [of 1000])
  moreover have "\<not> 10000 \<le> y"
    using mono [of 10000 y] c(7) assms(2) by (auto simp: days_before_year_def [of 10000] MAXORDINAL_def)
  ultimately show ?thesis by simp
qed

lemma show_nat_pad: "10 ^ w \<le> n \<Longrightarrow> n < 10 ^ Suc w \<Longrightarrow> show_nat n = pad (Suc w) n"
proof (induction w arbitrary: n)
  case 0
  then show ?case by (simp add: show_nat.simps [of n])
next
  case (Suc w)
  have "(10::nat) ^ 1 \<le> 10 ^ Suc w" by (rule power_increasing) auto
  then have "(10::nat) \<le> 10 ^ Suc w" by (simp only: power_one_right)
  with Suc.prems(1) have "\<not> n < 10" by (meson not_less order_trans)
  moreover have "10 ^ w \<le> n div 10" "n div 10 < 10 ^ Suc w"
    using Suc.prems by (auto simp: less_mult_imp_div_less less_eq_div_iff_mult_less_eq mult.commute)
  ultimately show ?case
    using Suc.IH [of "n div 10"] by (simp add: show_nat.simps [of n])
qed

lemma Suc_3: "Suc 3 = 4"
  by simp

subsection \<open>Printing and reading\<close>

lemma digit_char_range:
  "n < 10 \<Longrightarrow> in_range (CHR ''1'') (CHR ''9'') (digit_char n) \<longleftrightarrow> 1 \<le> n"
  "n < 10 \<Longrightarrow> in_range (CHR ''1'') (CHR ''2'') (digit_char n) \<longleftrightarrow> n = 1 \<or> n = 2"
  "n < 10 \<Longrightarrow> in_range (CHR ''0'') (CHR ''2'') (digit_char n) \<longleftrightarrow> n \<le> 2"
  "n < 10 \<Longrightarrow> in_range (CHR ''0'') (CHR ''1'') (digit_char n) \<longleftrightarrow> n \<le> 1"
  by (auto simp: in_range_def of_char_digit_char)

lemma pad_2: "n < 100 \<Longrightarrow> pad 2 n = [digit_char (n div 10), digit_char (n mod 10)]"
  by (simp add: numeral_2_eq_2)

lemma digit_char_eq:
  assumes "n < 10"
  shows "digit_char n = c \<longleftrightarrow> of_char c = 48 + n"
  by (metis assms of_char_digit_char of_char_eq_iff)

lemma match_month_pad:
  assumes "1 \<le> m" "m \<le> 12"
  shows "\<exists>more. match_month (pad 2 m @ r) = (m, r) # more"
proof -
  from assms have "m < 100" "m div 10 < 10" "m mod 10 < 10" "m div 10 * 10 + m mod 10 = m" "m div 10 \<le> 1" by auto
  moreover from this have "m div 10 = 1 \<Longrightarrow> m mod 10 \<le> 2" "m div 10 = 0 \<Longrightarrow> 1 \<le> m mod 10"
    using assms by linarith+
  ultimately show ?thesis
    by (cases "m div 10 = 1") (auto simp: pad_2 match_month_def digit_char_range digit_char_eq)
qed

lemma match_day_pad:
  assumes "1 \<le> d" "d \<le> 31"
  shows "\<exists>more. match_day (pad 2 d @ r) = (d, r) # more"
proof -
  from assms have f: "d < 100" "d div 10 < 10" "d mod 10 < 10" "d div 10 * 10 + d mod 10 = d" by auto
  from assms have "d div 10 = 3 \<and> d mod 10 \<le> 1 \<or> (d div 10 = 1 \<or> d div 10 = 2) \<or> d div 10 = 0 \<and> 1 \<le> d mod 10"
    using f(4) by linarith
  then show ?thesis
    using f by (elim disjE) (simp_all add: pad_2 match_day_def digit_char_range digit_char_eq)
qed

lemma strptime_strftime:
  assumes "364878 \<le> n" "n \<le> MAXORDINAL"
  shows "strptime_ymd (strftime_ymd n) = Inr n" "length (strftime_ymd n) = 8" "list_all is_digit (strftime_ymd n)"
proof -
  obtain y m d where o: "ord2ymd n = (y, m, d)" by (cases "ord2ymd n")
  from assms have "1 \<le> n" by simp
  note c = ord2ymd_correct [OF this o]
  from year_bounds [OF assms o] have y: "1000 \<le> nat y" "nat y \<le> 9999" by auto
  have sy: "show_nat (nat y) = pad 4 (nat y)"
    using show_nat_pad [of 3 "nat y"] y by (simp only: Suc_3) simp
  have s: "strftime_ymd n = pad 4 (nat y) @ pad 2 (nat m) @ pad 2 (nat d)"
    by (simp add: strftime_ymd_def o sy)
  have "1 \<le> nat m" "nat m \<le> 12" "1 \<le> nat d" "nat d \<le> 31"
    using c days_in_month_pos(2) [of y m] by linarith+
  then obtain more more' where
    "match_month (pad 2 (nat m) @ pad 2 (nat d)) = (nat m, pad 2 (nat d)) # more"
    "match_day (pad 2 (nat d)) = (nat d, []) # more'"
    using match_month_pad [of "nat m" "pad 2 (nat d)"] match_day_pad [of "nat d" "[]"]
    by auto
  then obtain more'' where "match_ymd (strftime_ymd n) = (y, m, d, []) # more''"
    using c y by (simp add: match_ymd_def s digits_val_pad)
  with c y show "strptime_ymd (strftime_ymd n) = Inr n" by (simp add: strptime_ymd_def)
  show "length (strftime_ymd n) = 8" "list_all is_digit (strftime_ymd n)"
    by (simp_all add: s)
qed

end
