(* ===== verification/Cron_Plan.thy ===== *)
theory Cron_Plan
  imports Py_Values Calendar_Dates
begin

text \<open>
  \<^verbatim>\<open>scheduler/cronutil.py\<close>: five-field cron expressions matched minute by minute in a time zone. The
  zone database is a parameter \<open>tzdb\<close> that gives, for a zone name, the offset from UTC (in
  microseconds) at every instant, or nothing for a name \<open>ZoneInfo\<close> does not know. Instants are aware
  datetimes in UTC, as every caller passes them. The lemmas characterise the fire times of an
  expression and what the last and the next fire are.
\<close>

type_synonym tzdb = "string \<Rightarrow> (instant \<Rightarrow> int) option"

definition minute :: int where
  "minute = secs 60"

text \<open>\<open>p.split("-", 1)\<close>.\<close>

definition split_dash :: "string \<Rightarrow> string \<times> string" where
  "split_dash p = (let a = takeWhile (\<lambda>c. c \<noteq> CHR ''-'') p in (a, drop (length a + 1) p))"

definition parse_part :: "string \<Rightarrow> int \<Rightarrow> int \<Rightarrow> py_error + int list" where
  "parse_part part minimum maximum =
     (let p = strip part in
      if prefix ''*/'' p then
        bind_err (py_int (PStr (drop 2 p))) (\<lambda>step.
        if step \<le> 0 then Inl (ValueError (''invalid step in cron field: '' @ repr_str part))
        else Inr (filter (\<lambda>v. v mod step = 0) [minimum..maximum]))
      else if CHR ''-'' \<in> set p then
        (case split_dash p of (a, b) \<Rightarrow>
           bind_err (py_int (PStr a)) (\<lambda>x. bind_err (py_int (PStr b)) (\<lambda>y. Inr [x..y])))
      else bind_err (py_int (PStr p)) (\<lambda>x. Inr [x]))"

fun parse_parts :: "string list \<Rightarrow> int \<Rightarrow> int \<Rightarrow> py_error + int list" where
  "parse_parts [] mn mx = Inr []"
| "parse_parts (p # ps) mn mx =
     bind_err (parse_part p mn mx) (\<lambda>xs. bind_err (parse_parts ps mn mx) (\<lambda>ys. Inr (xs @ ys)))"

text \<open>\<open>None\<close> is "every value".\<close>

definition parse_field :: "string \<Rightarrow> int \<Rightarrow> int \<Rightarrow> py_error + int list option" where
  "parse_field field minimum maximum =
     (let f = strip field in
      if f = ''*'' then Inr None
      else bind_err (parse_parts (split_on (CHR '','') f) minimum maximum) (\<lambda>xs. Inr (Some xs)))"

type_synonym cron = "int list option \<times> int list option \<times> int list option"

definition parse_cron :: "string \<Rightarrow> py_error + cron" where
  "parse_cron expr =
     (case split_ws (strip expr) of
        [minute_s, hour_s, dom_s, month_s, dow_s] \<Rightarrow>
          bind_err (parse_field minute_s 0 59) (\<lambda>minutes.
          bind_err (parse_field hour_s 0 23) (\<lambda>hours.
          bind_err (parse_field dow_s 0 6) (\<lambda>dows.
          Inr (minutes, hours, dows))))
      | _ \<Rightarrow> Inl (ValueError (''expected 5-field cron, got '' @ repr_str expr)))"

fun admits :: "int list option \<Rightarrow> int \<Rightarrow> bool" where
  "admits None v = True"
| "admits (Some vs) v = (v \<in> set vs)"

definition cron_dow :: "date \<Rightarrow> int" where
  "cron_dow d = (if weekday d = 6 then 0 else weekday d + 1)"

definition matches :: "int \<Rightarrow> cron \<Rightarrow> bool" where
  "matches local c = (case c of (minutes, hours, dows) \<Rightarrow>
     admits minutes (local_minute local) \<and> admits hours (local_hour local) \<and>
     admits dows (cron_dow (local_date local)))"

definition zone_of :: "tzdb \<Rightarrow> string option \<Rightarrow> py_error + (instant \<Rightarrow> int)" where
  "zone_of db tz = (case tz of
      None \<Rightarrow> Inr (\<lambda>_. 0)
    | Some name \<Rightarrow> if name = [] then Inr (\<lambda>_. 0)
        else (case db name of Some off \<Rightarrow> Inr off | None \<Rightarrow> Inl (KeyError name)))"

text \<open>\<open>t.astimezone(zone)\<close> as local microseconds.\<close>

definition local_time :: "(instant \<Rightarrow> int) \<Rightarrow> instant \<Rightarrow> int" where
  "local_time off t = t + off t"

function fires_from :: "(instant \<Rightarrow> int) \<Rightarrow> cron \<Rightarrow> instant \<Rightarrow> instant \<Rightarrow> instant list" where
  "fires_from off c cur until =
     (if cur < until
      then (if matches (local_time off cur) c then [cur] else []) @ fires_from off c (cur + minute) until
      else [])"
  by pat_completeness auto
termination
  by (relation "measure (\<lambda>(off, c, cur, until). nat (until - cur))") (auto simp: minute_def secs_def usec_def)

declare fires_from.simps [simp del]

definition iter_cron_fires :: "tzdb \<Rightarrow> string \<Rightarrow> instant \<Rightarrow> instant \<Rightarrow> string option \<Rightarrow> py_error + instant list" where
  "iter_cron_fires db expr start until tz =
     bind_err (parse_cron expr) (\<lambda>c.
     bind_err (zone_of db tz) (\<lambda>off.
     let floor = start - start mod minute;
         cur = (if floor < start then floor + minute else floor)
     in Inr (fires_from off c cur until)))"

definition next_fires :: "tzdb \<Rightarrow> string \<Rightarrow> instant \<Rightarrow> int \<Rightarrow> int \<Rightarrow> string option \<Rightarrow> py_error + instant list" where
  "next_fires db expr after cnt horizon_days tz =
     bind_err (iter_cron_fires db expr (after + minute) (after + secs (86400 * horizon_days)) tz)
       (\<lambda>fs. Inr (take (nat (max 0 cnt)) fs))"

definition previous_fire :: "tzdb \<Rightarrow> string \<Rightarrow> instant \<Rightarrow> int \<Rightarrow> string option \<Rightarrow> py_error + instant option" where
  "previous_fire db expr before lookback_days tz =
     bind_err (iter_cron_fires db expr (before - secs (86400 * lookback_days)) before tz)
       (\<lambda>fs. Inr (if fs = [] then None else Some (last fs)))"

definition iso_z :: "instant option \<Rightarrow> string option" where
  "iso_z dt = map_option iso_z_of dt"

subsection \<open>Which minutes fire\<close>

text \<open>The minutes an expression fires in, independently of any window or iteration.\<close>

definition due :: "tzdb \<Rightarrow> string \<Rightarrow> string option \<Rightarrow> instant \<Rightarrow> bool" where
  "due db expr tz t \<longleftrightarrow> minute dvd t \<and>
     (case (parse_cron expr, zone_of db tz) of
        (Inr c, Inr off) \<Rightarrow> matches (local_time off t) c
      | _ \<Rightarrow> False)"

lemma minute_pos [simp]: "0 < minute"
  by (simp add: minute_def secs_def usec_def)

lemma fires_from_set:
  "minute dvd cur \<Longrightarrow>
     set (fires_from off c cur e) = {t. minute dvd t \<and> cur \<le> t \<and> t < e \<and> matches (local_time off t) c}"
proof (induction off c cur e rule: fires_from.induct)
  case (1 off c cur e)
  show ?case
  proof (cases "cur < e")
    case True
    have step: "t = cur \<or> cur + minute \<le> t \<longleftrightarrow> cur \<le> t" if "minute dvd t" for t
    proof (cases "cur < t")
      case True
      from that 1(2) have "minute dvd t - cur" by simp
      with True zdvd_imp_le [of minute "t - cur"] show ?thesis by simp
    next
      case False
      then show ?thesis using minute_pos by linarith
    qed
    have "set (fires_from off c (cur + minute) e) =
        {t. minute dvd t \<and> cur + minute \<le> t \<and> t < e \<and> matches (local_time off t) c}"
      using 1 True by simp
    then have "set (fires_from off c cur e) = {t. t = cur \<and> matches (local_time off t) c} \<union>
        {t. minute dvd t \<and> cur + minute \<le> t \<and> t < e \<and> matches (local_time off t) c}"
      using True by (auto simp: fires_from.simps [of off c cur e])
    also have "\<dots> = {t. minute dvd t \<and> (t = cur \<or> cur + minute \<le> t) \<and> t < e \<and> matches (local_time off t) c}"
      using 1(2) True by blast
    also have "\<dots> = {t. minute dvd t \<and> cur \<le> t \<and> t < e \<and> matches (local_time off t) c}"
      using step by blast
    finally show ?thesis .
  qed (auto simp: fires_from.simps [of off c cur e])
qed

lemma fires_from_sorted: "sorted_wrt (<) (fires_from off c cur e) \<and> (\<forall>t \<in> set (fires_from off c cur e). cur \<le> t)"
proof (induction off c cur e rule: fires_from.induct)
  case (1 off c cur e)
  then show ?case
    using minute_pos by (fastforce simp: fires_from.simps [of off c cur e] simp del: minute_pos)
qed

lemma ceil_minute:
  defines "fl t \<equiv> t - t mod minute"
  shows "minute dvd (if fl t < t then fl t + minute else fl t)"
    and "minute dvd u \<Longrightarrow> (if fl t < t then fl t + minute else fl t) \<le> u \<longleftrightarrow> t \<le> u"
proof -
  have d: "minute dvd fl t" and b: "fl t \<le> t" "t < fl t + minute"
    by (simp_all add: fl_def dvd_minus_mod)
  show "minute dvd (if fl t < t then fl t + minute else fl t)" using d by simp
  assume u: "minute dvd u"
  have "fl t + minute \<le> u" if "fl t < t" "t \<le> u"
    using zdvd_imp_le [of minute "u - fl t"] d u that by (simp add: dvd_diff)
  then show "(if fl t < t then fl t + minute else fl t) \<le> u \<longleftrightarrow> t \<le> u" using b by auto
qed

lemma iter_cron_fires_Inr:
  assumes "iter_cron_fires db expr s e tz = Inr fs"
  shows "set fs = {t. s \<le> t \<and> t < e \<and> due db expr tz t}" "sorted_wrt (<) fs"
proof -
  from assms obtain c off where c: "parse_cron expr = Inr c" "zone_of db tz = Inr off"
    and fs: "fs = fires_from off c (if s - s mod minute < s then s - s mod minute + minute else s - s mod minute) e"
    by (auto simp: iter_cron_fires_def bind_err_eq_Inr Let_def)
  have "set fs = {t. minute dvd t \<and> s \<le> t \<and> t < e \<and> matches (local_time off t) c}"
    unfolding fs fires_from_set [OF ceil_minute(1)] using ceil_minute(2) [of _ s] by blast
  then show "set fs = {t. s \<le> t \<and> t < e \<and> due db expr tz t}"
    by (auto simp: due_def c)
  show "sorted_wrt (<) fs" unfolding fs using fires_from_sorted by blast
qed

lemma iter_cron_fires_ok:
  "(\<exists>fs. iter_cron_fires db expr s e tz = Inr fs) \<longleftrightarrow>
     (\<exists>c off. parse_cron expr = Inr c \<and> zone_of db tz = Inr off)"
  by (auto simp: iter_cron_fires_def bind_err_eq_Inr Let_def)

lemma previous_fire_Some:
  assumes "previous_fire db expr before days tz = Inr (Some p)"
  shows "due db expr tz p" "before - secs (86400 * days) \<le> p" "p < before"
    "\<And>t. due db expr tz t \<Longrightarrow> t < before \<Longrightarrow> t \<le> p"
proof -
  from assms obtain fs where fs: "iter_cron_fires db expr (before - secs (86400 * days)) before tz = Inr fs"
    "fs \<noteq> []" "p = last fs" by (auto simp: previous_fire_def bind_err_eq_Inr split: if_splits)
  note i = iter_cron_fires_Inr [OF fs(1)]
  have "p \<in> set fs" using fs by simp
  then show p: "due db expr tz p" "before - secs (86400 * days) \<le> p" "p < before" using i(1) by auto
  fix t
  assume t: "due db expr tz t" "t < before"
  show "t \<le> p"
  proof (cases "before - secs (86400 * days) \<le> t")
    case True
    with t i(1) have "t \<in> set fs" by auto
    with fs(2,3) i(2) show ?thesis by (simp add: sorted_wrt_le_last)
  qed (use p in simp)
qed

lemma previous_fire_None:
  assumes "previous_fire db expr before days tz = Inr None"
    and "due db expr tz t" "t < before"
  shows "t < before - secs (86400 * days)"
proof -
  from assms(1) have "iter_cron_fires db expr (before - secs (86400 * days)) before tz = Inr []"
    by (auto simp: previous_fire_def bind_err_eq_Inr split: if_splits)
  from iter_cron_fires_Inr(1) [OF this] assms(2,3) show ?thesis by auto
qed

lemma previous_fire_eqI:
  assumes "due db expr tz p" "p < before" "before \<le> p + minute" "before - secs (86400 * days) \<le> p"
  shows "previous_fire db expr before days tz = Inr (Some p)"
proof -
  from assms(1) obtain c off where "parse_cron expr = Inr c" "zone_of db tz = Inr off"
    by (auto simp: due_def split: sum.splits)
  then obtain r where r: "previous_fire db expr before days tz = Inr r"
    by (auto simp: previous_fire_def iter_cron_fires_def Let_def)
  then obtain p' where p': "r = Some p'"
    using previous_fire_None [of db expr before days tz p] assms by (cases r) auto
  note s = previous_fire_Some [OF r [unfolded p']]
  from s(4) [OF assms(1,2)] have "p \<le> p'" .
  moreover have "minute dvd p' - p" using s(1) assms(1) by (simp add: due_def)
  moreover have "p' - p < minute" using s(3) assms(3) by simp
  ultimately have "p' = p" using zdvd_imp_le [of minute "p' - p"] by (cases "p < p'") auto
  with r p' show ?thesis by simp
qed

lemma next_fires_first:
  assumes "next_fires db expr after 1 days tz = Inr up"
  shows "case up of
      [] \<Rightarrow> \<not> (\<exists>t. due db expr tz t \<and> after + minute \<le> t \<and> t < after + secs (86400 * days))
    | t # _ \<Rightarrow> due db expr tz t \<and> after + minute \<le> t \<and> t < after + secs (86400 * days) \<and>
        (\<forall>u. due db expr tz u \<longrightarrow> after + minute \<le> u \<longrightarrow> t \<le> u)"
proof -
  from assms obtain fs where fs: "iter_cron_fires db expr (after + minute) (after + secs (86400 * days)) tz = Inr fs" "up = take 1 fs"
    by (auto simp: next_fires_def bind_err_eq_Inr)
  note i = iter_cron_fires_Inr [OF fs(1)]
  show ?thesis
  proof (cases fs)
    case Nil
    with i(1) fs(2) show ?thesis by auto
  next
    case (Cons t ts)
    with i(1) have "due db expr tz t" "after + minute \<le> t" "t < after + secs (86400 * days)" by auto
    moreover have "t \<le> u" if "due db expr tz u" "after + minute \<le> u" for u
      using that i Cons \<open>t < after + secs (86400 * days)\<close> by (cases "u < after + secs (86400 * days)") (fastforce simp: less_imp_le)+
    ultimately show ?thesis using Cons fs(2) by simp
  qed
qed

subsection \<open>A plan as an interface\<close>

text \<open>The least and the greatest of a set of instants, when it has one.\<close>

definition least_of :: "int set \<Rightarrow> int option \<Rightarrow> bool" where
  "least_of A o' \<longleftrightarrow> (case o' of None \<Rightarrow> A = {} | Some t \<Rightarrow> t \<in> A \<and> (\<forall>u\<in>A. t \<le> u))"

definition greatest_of :: "int set \<Rightarrow> int option \<Rightarrow> bool" where
  "greatest_of A o' \<longleftrightarrow> (case o' of None \<Rightarrow> A = {} | Some t \<Rightarrow> t \<in> A \<and> (\<forall>u\<in>A. u \<le> t))"

definition first_opt :: "'a list \<Rightarrow> 'a option" where
  "first_opt xs = (case xs of [] \<Rightarrow> None | x # _ \<Rightarrow> Some x)"

lemma first_opt_simps [simp]: "first_opt [] = None" "first_opt (x # xs) = Some x"
  by (simp_all add: first_opt_def)

text \<open>What the scheduler, the self-check and the views rely on: the fires of one cron, the first ones from \<open>lead\<close> after an instant up to a
  horizon, and the last one before an instant within the same reach.\<close>

locale fire_calendar =
  fixes fires :: "instant \<Rightarrow> bool"
    and upcoming :: "instant \<Rightarrow> py_error + instant list"
    and previous :: "instant \<Rightarrow> py_error + instant option"
    and lead :: int
    and reach :: int
  assumes upcoming_first: "upcoming now = Inr up \<Longrightarrow> least_of {t. now + lead \<le> t \<and> t < now + reach \<and> fires t} (first_opt up)"
    and upcoming_lead: "upcoming now = Inr up \<Longrightarrow> t \<in> set up \<Longrightarrow> now + lead \<le> t"
    and previous_last: "previous now = Inr p \<Longrightarrow> greatest_of {t. now - reach \<le> t \<and> t < now \<and> fires t} p"
    and lead_pos: "0 < lead"
begin

lemma previous_before: "previous now = Inr (Some p) \<Longrightarrow> p < now"
  by (drule previous_last) (simp add: greatest_of_def)

lemma previous_then_upcoming:
  assumes "previous now = Inr (Some p)" "upcoming now = Inr (t # ts)"
  shows "p < t" and "fires u \<Longrightarrow> p < u \<Longrightarrow> u < t \<Longrightarrow> now \<le> u \<and> u < now + lead"
proof -
  note p = previous_last [OF assms(1)] and t = upcoming_first [OF assms(2)]
  from p t lead_pos show "p < t" by (auto simp: greatest_of_def least_of_def)
  assume u: "fires u" "p < u" "u < t"
  have "now \<le> u"
  proof (rule ccontr)
    assume "\<not> now \<le> u"
    with p u(1,2) have "u \<le> p" by (simp add: greatest_of_def)
    with u(2) show False by simp
  qed
  moreover have "u < now + lead"
  proof (rule ccontr)
    assume "\<not> u < now + lead"
    with t u(1,3) have "t \<le> u" by (simp add: least_of_def)
    with u(3) show False by simp
  qed
  ultimately show "now \<le> u \<and> u < now + lead" by blast
qed

text \<open>A fire within the lead is in neither list.\<close>

lemma imminent_in_neither:
  assumes "upcoming now = Inr up" "previous now = Inr prev" "now \<le> t" "t < now + lead"
  shows "t \<notin> set up \<and> prev \<noteq> Some t"
  using upcoming_lead [OF assms(1)] previous_before [of now t] assms(2-4) by force

end

lemma next_fires_lead: "next_fires db expr after n days tz = Inr up \<Longrightarrow> t \<in> set up \<Longrightarrow> after + minute \<le> t"
  by (auto simp: next_fires_def bind_err_eq_Inr dest!: in_set_takeD dest: iter_cron_fires_Inr(1))

interpretation cal: fire_calendar "due db cron tz" "\<lambda>now. next_fires db cron now 1 14 tz" "\<lambda>now. previous_fire db cron now 14 tz" minute
    "secs (86400 * 14)"
  for db cron tz
proof unfold_locales
  show "least_of {t. now + minute \<le> t \<and> t < now + secs (86400 * 14) \<and> due db cron tz t} (first_opt up)"
    if "next_fires db cron now 1 14 tz = Inr up" for now up
    using next_fires_first [OF that] by (auto simp: least_of_def first_opt_def split: list.splits)
  show "now + minute \<le> t" if "next_fires db cron now 1 14 tz = Inr up" "t \<in> set up" for now up t
    using next_fires_lead [OF that] .
  show "greatest_of {t. now - secs (86400 * 14) \<le> t \<and> t < now \<and> due db cron tz t} p" if "previous_fire db cron now 14 tz = Inr p" for now p
    using that previous_fire_Some [of db cron now 14 tz] previous_fire_None [of db cron now 14 tz]
    by (cases p) (fastforce simp: greatest_of_def)+
qed simp

subsection \<open>Properties\<close>

text \<open>C17: The planned fires of a slot in a window are exactly the whole minutes of the window at which the
  expression matches the local time of the zone, each once and in order.\<close>

theorem cron_fires_exact:
  assumes "iter_cron_fires db expr start until tz = Inr fs"
  shows "set fs = {t. start \<le> t \<and> t < until \<and> due db expr tz t} \<and> sorted_wrt (<) fs"
  using iter_cron_fires_Inr [OF assms] by blast

theorem cron_fires_exact_witness:
  "\<exists>fs. iter_cron_fires (\<lambda>z. if z = ''America/New_York'' then Some (\<lambda>_. - secs 14400) else None)
      ''30 6 * * 1-6'' 0 (secs 86400) (Some ''America/New_York'') = Inr fs \<and> secs 37800 \<in> set fs"
proof -
  let ?db = "\<lambda>z. if z = ''America/New_York'' then Some (\<lambda>_. - secs 14400) else None"
  have p: "parse_cron ''30 6 * * 1-6'' = Inr (Some [30], Some [6], Some [1, 2, 3, 4, 5, 6])" by code_simp
  then obtain fs where "iter_cron_fires ?db ''30 6 * * 1-6'' 0 (secs 86400) (Some ''America/New_York'') = Inr fs"
    using iter_cron_fires_ok [of ?db "''30 6 * * 1-6''" 0 "secs 86400" "Some ''America/New_York''"]
    by (auto simp: zone_of_def)
  moreover have "due ?db ''30 6 * * 1-6'' (Some ''America/New_York'') (secs 37800)"
    unfolding due_def p
    by (simp add: zone_of_def matches_def local_time_def minute_def secs_def usec_def local_minute_def
        local_hour_def local_date_def EPOCH_ORDINAL_def cron_dow_def weekday_def)
  ultimately show ?thesis
    using cron_fires_exact [of ?db "''30 6 * * 1-6''" 0 "secs 86400" "Some ''America/New_York''" fs]
    by (auto simp: secs_def usec_def)
qed

text \<open>\<^verbatim>\<open>previous_fire\<close> is the latest planned minute before the given instant: nothing fires between it and
  that instant; when it finds none, the whole lookback holds none.\<close>

lemma previous_fire_latest:
  assumes "previous_fire db expr before days tz = Inr r"
  shows "case r of
      None \<Rightarrow> (\<forall>t. due db expr tz t \<longrightarrow> t < before - secs (86400 * days) \<or> before \<le> t)
    | Some p \<Rightarrow> due db expr tz p \<and> before - secs (86400 * days) \<le> p \<and> p < before \<and>
        (\<forall>t. due db expr tz t \<longrightarrow> t \<le> p \<or> before \<le> t)"
proof (cases r)
  case None
  then show ?thesis using previous_fire_None [of db expr before days tz] assms by (auto simp: not_le)
next
  case (Some p)
  then show ?thesis using previous_fire_Some [of db expr before days tz p] assms by (auto simp: not_le)
qed

text \<open>The day-of-month and month fields of an expression play no part: two expressions that agree on
  minute, hour and day of week plan the same fires, so a monthly cron is planned every day.\<close>

lemma cron_ignores_day_and_month:
  assumes "split_ws (strip expr) = [m, h, d, mo, w]" and "split_ws (strip expr') = [m, h, d', mo', w]"
  shows "iter_cron_fires db expr start until tz = iter_cron_fires db expr' start until tz"
  using assms by (simp add: iter_cron_fires_def parse_cron_def)

end
