(* ===== verification/Ops_Schema.thy ===== *)
theory Ops_Schema
  imports Py_Values Keyed_Table
begin

text \<open>
  \<^verbatim>\<open>schema/ddl.py\<close>: the catalogue of tables and columns that \<open>ensure_flex_ops_schema\<close> verifies, creates
  and migrates; the one-row-per-kind freshness table; the worker's heartbeat row; the settings row
  with the range days. The lemmas show that the schema call reaches the columns the code needs from
  any catalogue and is idempotent, and that a failed attempt never moves "last success".
\<close>

subsection \<open>The catalogue and its migrations\<close>

record catalog =
  cat_tables :: "string list"
  cat_columns :: "(string \<times> string) list"
  cat_indexes :: "string list"

datatype ddl =
    CreateTable string "string list"
  | CreateIndex string
  | AddColumn string string
  | CommentOn string

definition add_new :: "'a \<Rightarrow> 'a list \<Rightarrow> 'a list" where
  "add_new x xs = (if x \<in> set xs then xs else xs @ [x])"

text \<open>\<open>IF NOT EXISTS\<close> throughout; \<open>ALTER TABLE\<close> and \<open>COMMENT ON\<close> fail on a table that is not there.\<close>

fun exec_ddl :: "ddl \<Rightarrow> catalog \<Rightarrow> py_error + catalog" where
  "exec_ddl (CreateTable t cs) c =
     (if t \<in> set (cat_tables c) then Inr c
      else Inr (c\<lparr>cat_tables := cat_tables c @ [t],
                  cat_columns := fold add_new (map (Pair t) cs) (cat_columns c)\<rparr>))"
| "exec_ddl (CreateIndex i) c = Inr (c\<lparr>cat_indexes := add_new i (cat_indexes c)\<rparr>)"
| "exec_ddl (AddColumn t col) c =
     (if t \<in> set (cat_tables c) then Inr (c\<lparr>cat_columns := add_new (t, col) (cat_columns c)\<rparr>)
      else Inl (RuntimeError ''undefined table''))"
| "exec_ddl (CommentOn t) c =
     (if t \<in> set (cat_tables c) then Inr c else Inl (RuntimeError ''undefined table''))"

fun exec_all :: "ddl list \<Rightarrow> catalog \<Rightarrow> py_error + catalog" where
  "exec_all [] c = Inr c"
| "exec_all (s # ss) c = bind_err (exec_ddl s c) (exec_all ss)"

definition JOB_TABLE :: string where
  "JOB_TABLE = ''job_flex_ingest''"

definition FRESHNESS_TABLE :: string where
  "FRESHNESS_TABLE = ''flex_ingest_freshness''"

definition HEARTBEAT_TABLE :: string where
  "HEARTBEAT_TABLE = ''flex_worker_heartbeat''"

definition SETTINGS_TABLE :: string where
  "SETTINGS_TABLE = ''flex_settings''"

definition job_columns :: "string list" where
  "job_columns = [''id'', ''kind'', ''payload'', ''payload_hash'', ''priority'', ''status'', ''attempts'',
     ''max_attempts'', ''result'', ''error_category'', ''not_before'', ''created_at'', ''updated_at'',
     ''started_at'', ''finished_at'']"

definition freshness_columns :: "string list" where
  "freshness_columns = [''dimension'', ''latest_ts'', ''row_count'', ''updated_at'', ''last_ok'', ''last_error'',
     ''processed_rows'', ''new_rows'', ''last_job_id'', ''last_finished_at'']"

definition heartbeat_columns :: "string list" where
  "heartbeat_columns = [''worker'', ''pod'', ''version'', ''seen_at'', ''started_at'', ''jobs_done'', ''jobs_failed'',
     ''jobs_retried'', ''catchups'', ''db_reconnects'', ''stale_reclaimed'', ''last_error'', ''last_error_category'']"

definition settings_columns :: "string list" where
  "settings_columns = [''id'', ''flex_default_range_days'', ''flex_init_range_days'', ''updated_at'']"

definition MIGRATIONS :: "ddl list" where
  "MIGRATIONS =
     [AddColumn JOB_TABLE ''not_before'', AddColumn JOB_TABLE ''error_category'',
      AddColumn FRESHNESS_TABLE ''last_ok'', AddColumn FRESHNESS_TABLE ''last_error'',
      AddColumn FRESHNESS_TABLE ''processed_rows'', AddColumn FRESHNESS_TABLE ''new_rows'',
      AddColumn FRESHNESS_TABLE ''last_job_id'', AddColumn FRESHNESS_TABLE ''last_finished_at'',
      CreateTable HEARTBEAT_TABLE heartbeat_columns,
      CreateTable SETTINGS_TABLE settings_columns,
      CommentOn SETTINGS_TABLE]"

definition creation :: "ddl list" where
  "creation =
     [CreateTable JOB_TABLE job_columns, CreateIndex ''job_flex_ingest_kind_hash_active'',
      CreateIndex ''job_flex_ingest_claim'', CreateTable FRESHNESS_TABLE freshness_columns]"

definition present_count :: "catalog \<Rightarrow> nat" where
  "present_count c = (if JOB_TABLE \<in> set (cat_tables c) then 1 else 0) +
     (if FRESHNESS_TABLE \<in> set (cat_tables c) then 1 else 0)"

text \<open>The process-wide flag \<open>_migrated\<close> is threaded through. One transaction: on an error the
  catalogue is as it was, but the flag keeps the value it had when the statement failed.\<close>

definition ensure_flex_ops_schema :: "bool \<Rightarrow> bool \<times> catalog \<Rightarrow> py_error + bool \<times> catalog" where
  "ensure_flex_ops_schema migrate st =
     (case st of (migrated, c) \<Rightarrow>
        bind_err (if present_count c < 2 then exec_all creation c else Inr c) (\<lambda>c1.
        if migrate \<and> \<not> migrated
        then bind_err (exec_all MIGRATIONS c1) (\<lambda>c2. Inr (True, c2))
        else Inr (migrated, c1)))"

subsection \<open>Freshness\<close>

record freshness =
  dimension :: string
  latest_ts :: "instant option"
  f_row_count :: "int option"
  f_updated_at :: instant
  last_ok :: "bool option"
  last_error :: "string option"
  processed_rows :: "int option"
  new_rows :: "int option"
  last_job_id :: "int option"
  last_finished_at :: "instant option"

type_synonym freshness_table = "freshness list"

definition find_dim :: "freshness_table \<Rightarrow> string \<Rightarrow> freshness option" where
  "find_dim t d = find (\<lambda>r. dimension r = d) t"

definition update_dims :: "(freshness \<Rightarrow> bool) \<Rightarrow> (freshness \<Rightarrow> freshness) \<Rightarrow> freshness_table \<Rightarrow> freshness_table" where
  "update_dims P f t = map (\<lambda>r. if P r then f r else r) t"

definition add_dim :: "freshness \<Rightarrow> freshness_table \<Rightarrow> freshness_table" where
  "add_dim r t = t @ [r]"

text \<open>\<open>INSERT ... ON CONFLICT (dimension) DO UPDATE\<close>.\<close>

definition upsert_dim :: "freshness \<Rightarrow> (freshness \<Rightarrow> freshness) \<Rightarrow> freshness_table \<Rightarrow> freshness_table" where
  "upsert_dim r f t =
     (if find_dim t (dimension r) = None then add_dim r t
      else update_dims (\<lambda>x. dimension x = dimension r) f t)"

definition record_freshness ::
  "instant \<Rightarrow> string \<Rightarrow> bool \<Rightarrow> int \<Rightarrow> int option \<Rightarrow> string option \<Rightarrow> int option \<Rightarrow> freshness_table \<Rightarrow> freshness_table" where
  "record_freshness now dim ok processed newr error job t =
     (if ok then
        upsert_dim
          \<lparr>dimension = dim, latest_ts = Some now, f_row_count = Some processed, f_updated_at = now,
           last_ok = Some True, last_error = None, processed_rows = Some processed, new_rows = newr,
           last_job_id = job, last_finished_at = Some now\<rparr>
          (\<lambda>r. r\<lparr>latest_ts := Some now, f_row_count := Some processed, f_updated_at := now,
             last_ok := Some True, last_error := None, processed_rows := Some processed,
             new_rows := newr, last_job_id := job, last_finished_at := Some now\<rparr>) t
      else
        (let e = or_none (take 2000 (the_text error)) in
         upsert_dim
          \<lparr>dimension = dim, latest_ts = None, f_row_count = None, f_updated_at = now,
           last_ok = Some False, last_error = e, processed_rows = None, new_rows = None,
           last_job_id = job, last_finished_at = Some now\<rparr>
          (\<lambda>r. r\<lparr>f_updated_at := now, last_ok := Some False, last_error := e,
             last_job_id := job, last_finished_at := Some now\<rparr>) t))"

definition update_freshness :: "instant \<Rightarrow> string \<Rightarrow> int \<Rightarrow> freshness_table \<Rightarrow> freshness_table" where
  "update_freshness now dim row_count t = record_freshness now dim True row_count None None None t"

subsection \<open>Heartbeat and settings\<close>

text \<open>The worker loop's \<open>state\<close> dictionary.\<close>

record worker_counters =
  jobs_done :: int
  jobs_failed :: int
  jobs_retried :: int
  catchups :: int
  last_kind :: "string option"
  last_claim_at :: string
  w_last_error :: string
  w_last_error_category :: string
  stale_reclaimed :: int
  db_reconnects :: int

definition WORKER_KEY :: string where
  "WORKER_KEY = ''flex-query-worker''"

record heartbeat =
  hb_worker :: string
  hb_pod :: string
  hb_version :: string
  hb_seen_at :: instant
  hb_started_at :: instant
  hb_jobs_done :: int
  hb_jobs_failed :: int
  hb_jobs_retried :: int
  hb_catchups :: int
  hb_db_reconnects :: int
  hb_stale_reclaimed :: int
  hb_last_error :: "string option"
  hb_last_error_category :: "string option"

definition find_worker :: "heartbeat list \<Rightarrow> string \<Rightarrow> heartbeat option" where
  "find_worker t w = find (\<lambda>r. hb_worker r = w) t"

definition update_workers :: "(heartbeat \<Rightarrow> bool) \<Rightarrow> (heartbeat \<Rightarrow> heartbeat) \<Rightarrow> heartbeat list \<Rightarrow> heartbeat list" where
  "update_workers P f t = map (\<lambda>r. if P r then f r else r) t"

definition record_heartbeat ::
  "instant \<Rightarrow> worker_counters \<Rightarrow> string \<Rightarrow> string \<Rightarrow> instant \<Rightarrow> heartbeat list \<Rightarrow> heartbeat list" where
  "record_heartbeat now st pod version started t =
     (let row = \<lparr>hb_worker = WORKER_KEY, hb_pod = pod, hb_version = version, hb_seen_at = now,
                 hb_started_at = started, hb_jobs_done = jobs_done st, hb_jobs_failed = jobs_failed st,
                 hb_jobs_retried = jobs_retried st, hb_catchups = catchups st,
                 hb_db_reconnects = db_reconnects st, hb_stale_reclaimed = stale_reclaimed st,
                 hb_last_error = or_none (take 500 (w_last_error st)),
                 hb_last_error_category = or_none (w_last_error_category st)\<rparr>
      in if find_worker t WORKER_KEY = None then t @ [row]
         else update_workers (\<lambda>r. hb_worker r = WORKER_KEY) (\<lambda>_. row) t)"

text \<open>The settings row, \<open>None\<close> when there is none; its two columns are \<open>NOT NULL\<close>.\<close>

definition read_flex_settings :: "(int \<times> int) option \<Rightarrow> (int \<times> int) option" where
  "read_flex_settings row = (case row of None \<Rightarrow> None | Some (d, i) \<Rightarrow> Some (max 1 d, max 1 i))"

subsection \<open>What the schema call reaches\<close>

lemma set_add_new [simp]: "set (add_new x xs) = insert x (set xs)"
  by (auto simp: add_new_def)

lemma add_new_present [simp]: "x \<in> set xs \<Longrightarrow> add_new x xs = xs"
  by (simp add: add_new_def)

lemma set_fold_add_new [simp]: "set (fold add_new ys xs) = set ys \<union> set xs"
  by (induction ys arbitrary: xs) auto

text \<open>What a statement leaves behind, and what it needs of the tables before it.\<close>

fun achieved :: "ddl \<Rightarrow> catalog \<Rightarrow> bool" where
  "achieved (CreateTable t cs) c \<longleftrightarrow> t \<in> set (cat_tables c)"
| "achieved (CreateIndex i) c \<longleftrightarrow> i \<in> set (cat_indexes c)"
| "achieved (AddColumn t col) c \<longleftrightarrow> t \<in> set (cat_tables c) \<and> (t, col) \<in> set (cat_columns c)"
| "achieved (CommentOn t) c \<longleftrightarrow> t \<in> set (cat_tables c)"

fun supported :: "ddl list \<Rightarrow> string set \<Rightarrow> bool" where
  "supported [] ts \<longleftrightarrow> True"
| "supported (CreateTable t cs # ss) ts \<longleftrightarrow> supported ss (insert t ts)"
| "supported (CreateIndex i # ss) ts \<longleftrightarrow> supported ss ts"
| "supported (AddColumn t col # ss) ts \<longleftrightarrow> t \<in> ts \<and> supported ss ts"
| "supported (CommentOn t # ss) ts \<longleftrightarrow> t \<in> ts \<and> supported ss ts"

definition grows :: "catalog \<Rightarrow> catalog \<Rightarrow> bool" where
  "grows c c' \<longleftrightarrow> set (cat_tables c) \<subseteq> set (cat_tables c') \<and> set (cat_columns c) \<subseteq> set (cat_columns c') \<and>
     set (cat_indexes c) \<subseteq> set (cat_indexes c')"

lemma grows_refl [simp]: "grows c c"
  by (simp add: grows_def)

lemma grows_trans: "grows a b \<Longrightarrow> grows b c \<Longrightarrow> grows a c"
  by (auto simp: grows_def)

lemma achieved_grows: "achieved s c \<Longrightarrow> grows c c' \<Longrightarrow> achieved s c'"
  by (cases s) (auto simp: grows_def)

lemma exec_ddl_grows: "exec_ddl s c = Inr c' \<Longrightarrow> grows c c'"
  by (cases s) (auto simp: grows_def split: if_splits)

lemma exec_ddl_achieves: "exec_ddl s c = Inr c' \<Longrightarrow> achieved s c'"
  by (cases s) (auto split: if_splits)

lemma exec_ddl_idle: "achieved s c \<Longrightarrow> exec_ddl s c = Inr c"
  by (cases s) auto

lemma exec_all_grows: "exec_all ss c = Inr c' \<Longrightarrow> grows c c'"
proof (induction ss arbitrary: c)
  case Nil
  then show ?case by simp
next
  case (Cons s ss)
  then obtain c1 where "exec_ddl s c = Inr c1" "exec_all ss c1 = Inr c'"
    by (auto simp: bind_err_eq_Inr)
  then show ?case using Cons.IH exec_ddl_grows grows_trans by blast
qed

lemma exec_all_achieves: "exec_all ss c = Inr c' \<Longrightarrow> s \<in> set ss \<Longrightarrow> achieved s c'"
proof (induction ss arbitrary: c)
  case Nil
  then show ?case by simp
next
  case (Cons s1 ss)
  then obtain c1 where 1: "exec_ddl s1 c = Inr c1" "exec_all ss c1 = Inr c'"
    by (auto simp: bind_err_eq_Inr)
  then have "achieved s1 c'" using exec_ddl_achieves exec_all_grows achieved_grows by blast
  then show ?case using Cons 1(2) by auto
qed

lemma exec_all_idle: "(\<And>s. s \<in> set ss \<Longrightarrow> achieved s c) \<Longrightarrow> exec_all ss c = Inr c"
  by (induction ss) (simp_all add: exec_ddl_idle)

lemma exec_all_succeeds: "supported ss (set (cat_tables c)) \<Longrightarrow> \<exists>c'. exec_all ss c = Inr c'"
proof (induction ss arbitrary: c)
  case Nil
  then show ?case by simp
next
  case (Cons s ss)
  then show ?case by (cases s) (auto simp: insert_absorb)
qed

lemma creation_ok: "\<exists>c1. exec_all creation c = Inr c1"
  by (rule exec_all_succeeds) (simp add: creation_def)

lemma migrations_ok:
  "{JOB_TABLE, FRESHNESS_TABLE} \<subseteq> set (cat_tables c) \<Longrightarrow> \<exists>c2. exec_all MIGRATIONS c = Inr c2"
  by (rule exec_all_succeeds) (simp add: MIGRATIONS_def)

lemma present_count_full: "2 \<le> present_count c \<longleftrightarrow> {JOB_TABLE, FRESHNESS_TABLE} \<subseteq> set (cat_tables c)"
  by (simp add: present_count_def)

lemma exec_ddl_covers:
  assumes "exec_ddl s c = Inr c'" "t \<in> set (cat_tables c) \<Longrightarrow> Pair t ` S \<subseteq> set (cat_columns c)"
    "\<And>cs. s = CreateTable t cs \<Longrightarrow> S \<subseteq> set cs" "t \<in> set (cat_tables c')"
  shows "Pair t ` S \<subseteq> set (cat_columns c')"
  using assms by (cases s) (auto simp: image_subset_iff image_iff subset_iff split: if_splits)

lemma exec_all_covers:
  assumes "exec_all ss c = Inr c'" "t \<in> set (cat_tables c) \<Longrightarrow> Pair t ` S \<subseteq> set (cat_columns c)"
    "\<And>cs. CreateTable t cs \<in> set ss \<Longrightarrow> S \<subseteq> set cs" "t \<in> set (cat_tables c')"
  shows "Pair t ` S \<subseteq> set (cat_columns c')"
  using assms
proof (induction ss arbitrary: c)
  case Nil
  then show ?case by simp
next
  case (Cons s ss)
  then obtain c1 where "exec_ddl s c = Inr c1" "exec_all ss c1 = Inr c'"
    by (auto simp: bind_err_eq_Inr)
  then show ?case
    using Cons exec_ddl_covers [of s c c1 t S] by (metis list.set_intros)
qed

lemmas table_names = JOB_TABLE_def FRESHNESS_TABLE_def HEARTBEAT_TABLE_def SETTINGS_TABLE_def

text \<open>The columns of a deployment older than the migrations.\<close>

definition legacy_columns :: "string \<Rightarrow> string set" where
  "legacy_columns t =
     (if t = JOB_TABLE then set job_columns - {''not_before'', ''error_category''}
      else if t = FRESHNESS_TABLE then {''dimension'', ''latest_ts'', ''row_count'', ''updated_at''}
      else if t = HEARTBEAT_TABLE then set heartbeat_columns
      else if t = SETTINGS_TABLE then set settings_columns
      else {})"

definition deployed :: "catalog \<Rightarrow> bool" where
  "deployed c \<longleftrightarrow> (\<forall>t \<in> set (cat_tables c). Pair t ` legacy_columns t \<subseteq> set (cat_columns c))"

definition provides :: "catalog \<Rightarrow> string \<Rightarrow> string list \<Rightarrow> bool" where
  "provides c t cs \<longleftrightarrow> t \<in> set (cat_tables c) \<and> Pair t ` set cs \<subseteq> set (cat_columns c)"

lemma legacy_created:
  "CreateTable t cs \<in> set (creation @ MIGRATIONS) \<Longrightarrow> legacy_columns t \<subseteq> set cs"
proof -
  assume "CreateTable t cs \<in> set (creation @ MIGRATIONS)"
  then consider "t = JOB_TABLE" "cs = job_columns" | "t = FRESHNESS_TABLE" "cs = freshness_columns"
    | "t = HEARTBEAT_TABLE" "cs = heartbeat_columns" | "t = SETTINGS_TABLE" "cs = settings_columns"
    by (simp add: creation_def MIGRATIONS_def) blast
  then show ?thesis
    by cases (auto simp: legacy_columns_def table_names freshness_columns_def)
qed

lemma deployed_exec:
  assumes "exec_all ss c = Inr c'" "deployed c" "set ss \<subseteq> set (creation @ MIGRATIONS)"
  shows "deployed c'"
  unfolding deployed_def
proof
  fix t
  assume "t \<in> set (cat_tables c')"
  then show "Pair t ` legacy_columns t \<subseteq> set (cat_columns c')"
    using assms legacy_created by (intro exec_all_covers [OF assms(1)]) (auto simp: deployed_def, blast)
qed

lemma migrated_provides:
  assumes "deployed c" and m: "\<And>s. s \<in> set MIGRATIONS \<Longrightarrow> achieved s c"
  shows "provides c JOB_TABLE job_columns" "provides c FRESHNESS_TABLE freshness_columns"
    "provides c HEARTBEAT_TABLE heartbeat_columns" "provides c SETTINGS_TABLE settings_columns"
proof -
  have t: "{JOB_TABLE, FRESHNESS_TABLE, HEARTBEAT_TABLE, SETTINGS_TABLE} \<subseteq> set (cat_tables c)"
    using m by (fastforce simp: MIGRATIONS_def)
  then have l: "Pair t ` legacy_columns t \<subseteq> set (cat_columns c)"
    if "t \<in> {JOB_TABLE, FRESHNESS_TABLE, HEARTBEAT_TABLE, SETTINGS_TABLE}" for t
    using that assms(1) unfolding deployed_def by blast
  have j: "Pair JOB_TABLE ` {''not_before'', ''error_category''} \<subseteq> set (cat_columns c)"
    using m by (fastforce simp: MIGRATIONS_def)
  have f: "Pair FRESHNESS_TABLE ` {''last_ok'', ''last_error'', ''processed_rows'', ''new_rows'', ''last_job_id'',
      ''last_finished_at''} \<subseteq> set (cat_columns c)"
    using m by (fastforce simp: MIGRATIONS_def)
  have "set job_columns \<subseteq> legacy_columns JOB_TABLE \<union> {''not_before'', ''error_category''}"
    by (auto simp: legacy_columns_def)
  then show "provides c JOB_TABLE job_columns"
    using t l [of JOB_TABLE] j unfolding provides_def by blast
  have "set freshness_columns \<subseteq> legacy_columns FRESHNESS_TABLE \<union> {''last_ok'', ''last_error'', ''processed_rows'',
      ''new_rows'', ''last_job_id'', ''last_finished_at''}"
    by (auto simp: legacy_columns_def freshness_columns_def table_names)
  then show "provides c FRESHNESS_TABLE freshness_columns"
    using t l [of FRESHNESS_TABLE] f unfolding provides_def by blast
  have "legacy_columns HEARTBEAT_TABLE = set heartbeat_columns" "legacy_columns SETTINGS_TABLE = set settings_columns"
    by (simp_all add: legacy_columns_def table_names)
  then show "provides c HEARTBEAT_TABLE heartbeat_columns" "provides c SETTINGS_TABLE settings_columns"
    using t l [of HEARTBEAT_TABLE] l [of SETTINGS_TABLE] unfolding provides_def by auto
qed

text \<open>C13: From a catalogue of any age - empty, or with tables as they were before the migrations -
  the worker's first schema call succeeds, takes nothing away, leaves every column the job,
  freshness, heartbeat and settings statements use, and is idempotent: repeating it, in the same
  process or a new one, with or without migrations, leaves the catalogue as it is.\<close>

theorem ensure_schema_reaches:
  assumes "deployed c"
  shows "\<exists>c'. ensure_flex_ops_schema True (False, c) = Inr (True, c') \<and> grows c c' \<and>
    provides c' JOB_TABLE job_columns \<and> provides c' FRESHNESS_TABLE freshness_columns \<and>
    provides c' HEARTBEAT_TABLE heartbeat_columns \<and> provides c' SETTINGS_TABLE settings_columns \<and>
    (\<forall>m b. ensure_flex_ops_schema m (b, c') = Inr (m \<or> b, c'))"
proof -
  obtain c1 where c1: "(if present_count c < 2 then exec_all creation c else Inr c) = Inr c1"
    using creation_ok by (cases "present_count c < 2") auto
  have b1: "{JOB_TABLE, FRESHNESS_TABLE} \<subseteq> set (cat_tables c1)"
  proof (cases "present_count c < 2")
    case True
    then have "achieved s c1" if "s \<in> set creation" for s
      using that c1 exec_all_achieves by auto
    then show ?thesis by (fastforce simp: creation_def)
  next
    case False
    then show ?thesis using c1 present_count_full [of c] by simp
  qed
  obtain c2 where c2: "exec_all MIGRATIONS c1 = Inr c2"
    using migrations_ok [OF b1] by blast
  have g: "grows c c1" "grows c1 c2"
    using c1 c2 exec_all_grows by (auto split: if_splits)
  have "deployed c1"
    using c1 assms deployed_exec [of creation c c1] by (auto split: if_splits)
  then have d2: "deployed c2" using c2 deployed_exec by auto
  have m2: "achieved s c2" if "s \<in> set MIGRATIONS" for s
    using that c2 exec_all_achieves by blast
  have "\<not> present_count c2 < 2"
    using b1 g(2) present_count_full [of c2] by (auto simp: grows_def)
  then have "ensure_flex_ops_schema m (b, c2) = Inr (m \<or> b, c2)" for m b
    using m2 exec_all_idle [of MIGRATIONS c2] by (auto simp: ensure_flex_ops_schema_def)
  moreover have "ensure_flex_ops_schema True (False, c) = Inr (True, c2)"
    using c1 c2 by (simp add: ensure_flex_ops_schema_def)
  ultimately show ?thesis
    using migrated_provides [OF d2 m2] g grows_trans by blast
qed

theorem ensure_schema_reaches_witness:
  "\<exists>c'. ensure_flex_ops_schema True (False, \<lparr>cat_tables = [], cat_columns = [], cat_indexes = []\<rparr>) = Inr (True, c') \<and>
    provides c' SETTINGS_TABLE settings_columns"
  using ensure_schema_reaches [of "\<lparr>cat_tables = [], cat_columns = [], cat_indexes = []\<rparr>"]
  by (auto simp: deployed_def)

subsection \<open>Freshness and heartbeat rows by key\<close>

lemma find_map_key:
  "(\<And>r. key (f r) = key r) \<Longrightarrow>
     find (\<lambda>r. key r = k) (map (\<lambda>r. if P r then f r else r) t) =
     map_option (\<lambda>r. if P r then f r else r) (find (\<lambda>r. key r = k) t)"
  by (induction t) auto

lemma find_keyD: "find (\<lambda>r. key r = k) t = Some r \<Longrightarrow> key r = k"
  by (induction t) (auto split: if_splits)

lemma find_append_new:
  "find (\<lambda>r. key r = key x) t = None \<Longrightarrow>
     find (\<lambda>r. key r = k) (t @ [x]) = (if k = key x then Some x else find (\<lambda>r. key r = k) t)"
  by (induction t) (auto split: if_splits)

interpretation fresh: growing_table find_dim update_dims dimension add_dim "\<lambda>t d. find_dim t d = None"
  by unfold_locales
    (auto simp: find_dim_def update_dims_def add_dim_def fun_eq_iff find_append_new
      intro: find_map_key dest: find_keyD)

interpretation pulse: growing_table find_worker update_workers hb_worker "\<lambda>r t. t @ [r]" "\<lambda>t w. find_worker t w = None"
  by unfold_locales
    (auto simp: find_worker_def update_workers_def fun_eq_iff find_append_new
      intro: find_map_key dest: find_keyD)

lemma find_dim_upsert:
  assumes "\<And>x. dimension (f x) = dimension x"
  shows "find_dim (upsert_dim r f t) d =
    (if d = dimension r then Some (case find_dim t d of None \<Rightarrow> r | Some x \<Rightarrow> f x) else find_dim t d)"
proof (cases "find_dim t (dimension r)")
  case None
  then show ?thesis
    using fresh.look_insert [of t r] by (simp add: upsert_dim_def)
next
  case (Some x)
  then show ?thesis
    using fresh.look_update_key [OF assms] by (simp add: upsert_dim_def)
qed

lemma find_dim_record:
  "find_dim (record_freshness now dim ok processed newr error job t) d =
    (if d \<noteq> dim then find_dim t d
     else if ok then
       Some \<lparr>dimension = dim, latest_ts = Some now, f_row_count = Some processed, f_updated_at = now,
           last_ok = Some True, last_error = None, processed_rows = Some processed, new_rows = newr,
           last_job_id = job, last_finished_at = Some now\<rparr>
     else let old = find_dim t d in
       Some \<lparr>dimension = dim, latest_ts = Option.bind old latest_ts, f_row_count = Option.bind old f_row_count,
           f_updated_at = now, last_ok = Some False, last_error = or_none (take 2000 (the_text error)),
           processed_rows = Option.bind old processed_rows, new_rows = Option.bind old new_rows,
           last_job_id = job, last_finished_at = Some now\<rparr>)"
proof -
  have "dimension x = d" if "find_dim t d = Some x" for x
    using that by (rule fresh.look_key)
  then show ?thesis
    by (auto simp: record_freshness_def find_dim_upsert Let_def split: option.splits)
qed

text \<open>One reported outcome of a kind: its time, the kind, whether it succeeded, the row counts, the
  error text and the job.\<close>

record outcome =
  o_now :: instant
  o_dim :: string
  o_ok :: bool
  o_processed :: int
  o_new :: "int option"
  o_error :: "string option"
  o_job :: "int option"

definition report :: "outcome \<Rightarrow> freshness_table \<Rightarrow> freshness_table" where
  "report x t = record_freshness (o_now x) (o_dim x) (o_ok x) (o_processed x) (o_new x) (o_error x) (o_job x) t"

definition successes :: "string \<Rightarrow> outcome list \<Rightarrow> outcome list" where
  "successes d xs = filter (\<lambda>x. o_dim x = d \<and> o_ok x) xs"

lemma find_dim_report_latest:
  "Option.bind (find_dim (report x t) d) latest_ts =
     (if o_dim x = d \<and> o_ok x then Some (o_now x) else Option.bind (find_dim t d) latest_ts)"
  by (simp add: report_def find_dim_record Let_def)

lemma find_dim_report_rows:
  "Option.bind (find_dim (report x t) d) processed_rows =
     (if o_dim x = d \<and> o_ok x then Some (o_processed x) else Option.bind (find_dim t d) processed_rows)"
  by (simp add: report_def find_dim_record Let_def)

lemma find_dim_report_other: "o_dim x \<noteq> d \<Longrightarrow> find_dim (report x t) d = find_dim t d"
  by (simp add: report_def find_dim_record)

text \<open>C12: Whatever sequence of outcomes is reported, in whatever order the kinds are mixed, the
  freshness row of a kind carries the time and the row count of its last SUCCESS - failures, however
  many, never move them - while \<open>last_ok\<close> and \<open>last_job_id\<close> are those of its last outcome.\<close>

theorem freshness_is_last_success:
  "Option.bind (find_dim (fold report xs []) d) latest_ts =
     (if successes d xs = [] then None else Some (o_now (last (successes d xs)))) \<and>
   Option.bind (find_dim (fold report xs []) d) processed_rows =
     (if successes d xs = [] then None else Some (o_processed (last (successes d xs)))) \<and>
   map_option (\<lambda>r. (last_ok r, last_job_id r)) (find_dim (fold report xs []) d) =
     (if filter (\<lambda>x. o_dim x = d) xs = [] then None
      else let x = last (filter (\<lambda>x. o_dim x = d) xs) in Some (Some (o_ok x), o_job x))"
proof (induction xs rule: rev_induct)
  case Nil
  then show ?case by (simp add: find_dim_def successes_def)
next
  case (snoc x xs)
  have "map_option (\<lambda>r. (last_ok r, last_job_id r)) (find_dim (report x t) d) =
     (if o_dim x = d then Some (Some (o_ok x), o_job x)
      else map_option (\<lambda>r. (last_ok r, last_job_id r)) (find_dim t d))" for t
    by (simp add: report_def find_dim_record Let_def)
  then show ?case
    using snoc by (simp add: find_dim_report_latest find_dim_report_rows successes_def)
qed

lemma find_worker_record:
  "find_worker (record_heartbeat now st pod version started t) WORKER_KEY =
    Some \<lparr>hb_worker = WORKER_KEY, hb_pod = pod, hb_version = version, hb_seen_at = now,
                 hb_started_at = started, hb_jobs_done = jobs_done st, hb_jobs_failed = jobs_failed st,
                 hb_jobs_retried = jobs_retried st, hb_catchups = catchups st,
                 hb_db_reconnects = db_reconnects st, hb_stale_reclaimed = stale_reclaimed st,
                 hb_last_error = or_none (take 500 (w_last_error st)),
                 hb_last_error_category = or_none (w_last_error_category st)\<rparr>"
proof (cases "find_worker t WORKER_KEY")
  case None
  then show ?thesis
    by (simp add: record_heartbeat_def Let_def pulse.look_insert)
next
  case (Some r)
  then have "hb_worker r = WORKER_KEY" by (rule pulse.look_key)
  with Some show ?thesis
    unfolding record_heartbeat_def Let_def find_worker_def update_workers_def
    by (induction t) (auto split: if_splits)
qed

lemma record_heartbeat_single:
  "length (filter (\<lambda>r. hb_worker r = WORKER_KEY) (record_heartbeat now st pod version started t)) =
     max 1 (length (filter (\<lambda>r. hb_worker r = WORKER_KEY) t))"
proof (cases "find_worker t WORKER_KEY = None")
  case True
  then have "filter (\<lambda>r. hb_worker r = WORKER_KEY) t = []"
    by (auto simp: find_worker_def find_None_iff filter_empty_conv)
  with True show ?thesis by (simp add: record_heartbeat_def Let_def)
next
  case False
  then have "filter (\<lambda>r. hb_worker r = WORKER_KEY) t \<noteq> []"
    by (auto simp: find_worker_def find_None_iff filter_empty_conv)
  moreover have "length (filter (\<lambda>r. hb_worker r = WORKER_KEY) (record_heartbeat now st pod version started t)) =
     length (filter (\<lambda>r. hb_worker r = WORKER_KEY) t)"
    using False unfolding record_heartbeat_def Let_def update_workers_def
    by (simp add: filter_map comp_def if_distrib cong: if_cong)
  ultimately show ?thesis by (cases "filter (\<lambda>r. hb_worker r = WORKER_KEY) t") auto
qed

end
