(* ===== verification/Slot_Scheduler.thy ===== *)
theory Slot_Scheduler
  imports Job_Queue Cron_Plan Ops_Schema
begin

text \<open>
  \<^verbatim>\<open>scheduler/daily.py\<close> and \<^verbatim>\<open>worker/catchup.py\<close>: how a scheduled slot becomes a queue row, the command-line
  entry point that refuses to enqueue without credentials, and the worker's own check for slots whose
  planned fire left no job behind. The schedule is the parsed \<^verbatim>\<open>scheduler\<close> section, a dictionary.
\<close>

definition SLOT_NAMES :: "string list" where
  "SLOT_NAMES = [''flex-trades'', ''flex-transactions'']"

definition SLOT_KIND :: "(string \<times> string) list" where
  "SLOT_KIND = [(''flex-trades'', ''flex-trades''), (''flex-transactions'', ''flex-transactions'')]"

definition DEFAULT_SLOT_MAX_ATTEMPTS :: int where
  "DEFAULT_SLOT_MAX_ATTEMPTS = 8"

definition EXECUTION_KEYS :: "string list" where
  "EXECUTION_KEYS = [''fallback'', ''catchup'']"

definition DEFAULT_CATCHUP_GRACE_SEC :: int where
  "DEFAULT_CATCHUP_GRACE_SEC = 2700"

definition schedule_timezone :: "dict \<Rightarrow> string option" where
  "schedule_timezone cfg = or_none (strip (text_or_empty (dget cfg ''timezone'')))"

definition catchup_grace_sec :: "dict \<Rightarrow> int" where
  "catchup_grace_sec cfg =
     (let raw = dget cfg ''catchup_grace_sec'' in
      if raw = PNone \<or> raw = PStr [] then DEFAULT_CATCHUP_GRACE_SEC
      else (case py_int raw of Inr n \<Rightarrow> max 300 n | Inl _ \<Rightarrow> DEFAULT_CATCHUP_GRACE_SEC))"

record slot_result =
  sr_slot :: string
  sr_kind :: string
  sr_enqueued :: int
  sr_deduped :: int
  sr_job_id :: "int option"
  sr_payload :: dict
  sr_max_attempts :: int

definition with_as_of :: "instant \<Rightarrow> dict \<Rightarrow> dict" where
  "with_as_of now payload =
     (if dhas payload ''as_of'' then payload
      else dset payload ''as_of'' (PStr (isoformat (local_date now))))"

definition identity :: "dict \<Rightarrow> dict" where
  "identity body = filter (\<lambda>(k, _). k \<notin> set EXECUTION_KEYS) body"

definition enqueue_slot ::
  "(string \<Rightarrow> string) \<Rightarrow> instant \<Rightarrow> string \<Rightarrow> dict \<Rightarrow> dict \<Rightarrow> queue \<Rightarrow> py_error + slot_result \<times> queue" where
  "enqueue_slot sha now slot cfg payload q =
     (let slot_key = lower (strip slot) in
      if slot_key \<notin> set SLOT_NAMES then
        Inl (ValueError (''unknown slot: '' @ repr_str slot @ '' (expected one of ('' @
          join '', '' (map repr_str SLOT_NAMES) @ ''))''))
      else
        bind_err (dict_of (dget cfg ''slots'')) (\<lambda>slots.
        bind_err (dict_of (dget slots slot_key)) (\<lambda>scfg.
        bind_err (py_int (py_or (dget scfg ''priority'') (PInt 0))) (\<lambda>prio.
        bind_err (py_int (py_or (dget scfg ''max_attempts'') (PInt DEFAULT_SLOT_MAX_ATTEMPTS))) (\<lambda>max_attempts.
        let kind = the (map_of SLOT_KIND slot_key);
            body0 = with_as_of now payload;
            body = setdefault body0 ''fallback'' (PBool False)
        in bind_err (insert_job sha now kind body prio max_attempts (Some (identity body0)) q) (\<lambda>(job_id, q').
           Inr (\<lparr>sr_slot = slot_key, sr_kind = kind,
                 sr_enqueued = (if job_id = None then 0 else 1),
                 sr_deduped = (if job_id = None then 1 else 0),
                 sr_job_id = job_id, sr_payload = body, sr_max_attempts = max_attempts\<rparr>, q')))))))"

subsection \<open>The command line\<close>

text \<open>\<open>connects n\<close>: the n-th of the five connection attempts succeeds. \<open>tokens\<close> is what
  \<open>resolve_flex_tokens\<close> returns for host and secondary. The state is the schema flag with its catalogue,
  and the queue; the result is the exit code.\<close>

definition main :: "(string \<Rightarrow> string) \<Rightarrow> instant \<Rightarrow> (nat \<Rightarrow> bool) \<Rightarrow> string \<times> string \<Rightarrow> string \<Rightarrow> dict
    \<Rightarrow> (bool \<times> catalog) \<times> queue \<Rightarrow> (py_error + int) \<times> ((bool \<times> catalog) \<times> queue)" where
  "main sha now connects tokens slot cfg st =
     (case st of (sch, q) \<Rightarrow>
        if \<not> list_ex connects [1..<6] then (Inl (RuntimeError ''postgres connect failed''), st)
        else (case ensure_flex_ops_schema True sch of
            Inl e \<Rightarrow> (Inl e, st)
          | Inr sch' \<Rightarrow>
              if fst tokens = [] \<and> snd tokens = [] then (Inr 1, (sch', q))
              else (case enqueue_slot sha now slot cfg [] q of
                  Inl e \<Rightarrow> (Inl e, (sch', q))
                | Inr (_, q') \<Rightarrow> (Inr 0, (sch', q')))))"

subsection \<open>Missed slots\<close>

record missed =
  m_slot :: string
  m_kind :: string
  m_planned :: instant
  m_as_of :: string

definition slot_cron :: "dict \<Rightarrow> string \<Rightarrow> py_error + string" where
  "slot_cron cfg slot =
     bind_err (dict_of (dget cfg ''slots'')) (\<lambda>slots.
     bind_err (dict_of (dget slots slot)) (\<lambda>scfg. Inr (text_or_empty (dget scfg ''cron''))))"

text \<open>The rest of the loop body for a slot whose last planned fire is \<open>planned\<close>.\<close>

definition missed_at ::
  "tzdb \<Rightarrow> dict \<Rightarrow> instant \<Rightarrow> int \<Rightarrow> (string \<Rightarrow> instant option) \<Rightarrow> string \<Rightarrow> string \<Rightarrow> instant \<Rightarrow> py_error + missed option" where
  "missed_at db cfg now grace jobs_since slot kind planned =
     (if now - planned < secs grace \<or> now - planned > secs 86400 then Inr None
      else if (case jobs_since kind of None \<Rightarrow> False | Some newest \<Rightarrow> newest \<ge> planned) then Inr None
      else
        bind_err (zone_of db (schedule_timezone cfg)) (\<lambda>off.
        Inr (Some \<lparr>m_slot = slot, m_kind = kind, m_planned = planned,
                   m_as_of = isoformat (local_date (local_time off planned))\<rparr>)))"

definition missed_slot ::
  "tzdb \<Rightarrow> dict \<Rightarrow> instant \<Rightarrow> int \<Rightarrow> (string \<Rightarrow> instant option) \<Rightarrow> string \<times> string \<Rightarrow> py_error + missed option" where
  "missed_slot db cfg now grace jobs_since sk =
     (case sk of (slot, kind) \<Rightarrow>
        bind_err (slot_cron cfg slot) (\<lambda>cron.
        if cron = [] then Inr None
        else
          bind_err (previous_fire db cron now 14 (schedule_timezone cfg)) (\<lambda>planned_o.
          case planned_o of
            None \<Rightarrow> Inr None
          | Some planned \<Rightarrow> missed_at db cfg now grace jobs_since slot kind planned)))"

fun collect_missed :: "('a \<Rightarrow> py_error + 'b option) \<Rightarrow> 'a list \<Rightarrow> py_error + 'b list" where
  "collect_missed f [] = Inr []"
| "collect_missed f (x # xs) =
     bind_err (f x) (\<lambda>r. bind_err (collect_missed f xs) (\<lambda>rs. Inr (case r of None \<Rightarrow> rs | Some m \<Rightarrow> m # rs)))"

definition missed_slots ::
  "tzdb \<Rightarrow> dict \<Rightarrow> instant \<Rightarrow> int \<Rightarrow> (string \<Rightarrow> instant option) \<Rightarrow> py_error + missed list" where
  "missed_slots db cfg now grace jobs_since = collect_missed (missed_slot db cfg now grace jobs_since) SLOT_KIND"

text \<open>\<open>SELECT kind, max(created_at) ... GROUP BY kind\<close>.\<close>

definition newest_job_per_kind :: "queue \<Rightarrow> string \<Rightarrow> instant option" where
  "newest_job_per_kind q kind =
     (case map jcreated (filter (\<lambda>j. jkind j = kind) (rows q)) of
        [] \<Rightarrow> None
      | t # ts \<Rightarrow> Some (fold max ts t))"

text \<open>Every enqueue commits on its own: an error part-way leaves the earlier slots enqueued.\<close>

fun enqueue_missed ::
  "(string \<Rightarrow> string) \<Rightarrow> instant \<Rightarrow> dict \<Rightarrow> missed list \<Rightarrow> queue \<Rightarrow> (py_error + (missed \<times> int) list) \<times> queue" where
  "enqueue_missed sha now cfg [] q = (Inr [], q)"
| "enqueue_missed sha now cfg (m # ms) q =
     (case enqueue_slot sha now (m_slot m) cfg [(''as_of'', PStr (m_as_of m)), (''catchup'', PBool True)] q of
        Inl e \<Rightarrow> (Inl e, q)
      | Inr (r, q1) \<Rightarrow>
          (case enqueue_missed sha now cfg ms q1 of
             (Inl e, q2) \<Rightarrow> (Inl e, q2)
           | (Inr ds, q2) \<Rightarrow>
               (Inr (case sr_job_id r of None \<Rightarrow> ds | Some i \<Rightarrow> (m, i) # ds), q2)))"

definition catchup_missed_slots ::
  "(string \<Rightarrow> string) \<Rightarrow> tzdb \<Rightarrow> dict \<Rightarrow> instant \<Rightarrow> int \<Rightarrow> queue \<Rightarrow> (py_error + (missed \<times> int) list) \<times> queue" where
  "catchup_missed_slots sha db cfg now grace q =
     (case missed_slots db cfg now grace (newest_job_per_kind q) of
        Inl e \<Rightarrow> (Inl e, q)
      | Inr ms \<Rightarrow> enqueue_missed sha now cfg ms q)"

definition next_catchup_window :: "instant \<Rightarrow> int \<Rightarrow> instant" where
  "next_catchup_window planned_at grace = planned_at + secs grace"

subsection \<open>What an enqueue does\<close>

lemma slot_kind_same: "k \<in> set SLOT_NAMES \<Longrightarrow> map_of SLOT_KIND k = Some k"
  by (auto simp: SLOT_NAMES_def SLOT_KIND_def)

lemma slot_name_stripped: "k \<in> set SLOT_NAMES \<Longrightarrow> strip k = k \<and> k \<noteq> []"
  by (auto simp: SLOT_NAMES_def strip_def lstrip_def rstrip_def is_space_def)

lemma enqueue_slot_Inr:
  assumes "enqueue_slot sha now slot cfg payload q = Inr (r, q')"
  obtains prio where "lower (strip slot) \<in> set SLOT_NAMES" "sr_kind r = lower (strip slot)" "sr_slot r = lower (strip slot)"
    "sr_payload r = setdefault (with_as_of now payload) ''fallback'' (PBool False)"
    "insert_job sha now (sr_kind r) (sr_payload r) prio (sr_max_attempts r)
       (Some (identity (with_as_of now payload))) q = Inr (sr_job_id r, q')"
    "sr_enqueued r = (if sr_job_id r = None then 0 else 1)"
  using assms
  by (auto simp: enqueue_slot_def Let_def bind_err_eq_Inr slot_kind_same split: if_splits prod.splits)

lemma wf_enqueue_slot: "wf_queue q \<Longrightarrow> enqueue_slot sha now slot cfg p q = Inr (r, q') \<Longrightarrow> wf_queue q'"
  by (elim enqueue_slot_Inr) (auto dest: wf_insert_job)

lemma look_enqueue_slot:
  assumes "wf_queue q" "enqueue_slot sha now slot cfg p q = Inr (r, q')"
  shows "case sr_job_id r of None \<Rightarrow> look q' = look q
    | Some i \<Rightarrow> i = next_id q \<and> smallint (sr_max_attempts r) \<and>
        (\<exists>prio. look q' = (look q)(i \<mapsto> new_job i (sr_kind r) (sr_payload r)
           (Some (payload_hash sha (identity (with_as_of now p)))) prio (sr_max_attempts r) now))"
proof -
  from assms(2) obtain prio where k: "lower (strip slot) \<in> set SLOT_NAMES" "sr_kind r = lower (strip slot)"
    and i: "insert_job sha now (sr_kind r) (sr_payload r) prio (sr_max_attempts r)
       (Some (identity (with_as_of now p))) q = Inr (sr_job_id r, q')"
    by (rule enqueue_slot_Inr)
  show ?thesis
  proof (cases "sr_job_id r")
    case None
    with i show ?thesis by (auto dest: look_insert_job_dup)
  next
    case (Some n)
    with i have "insert_job sha now (sr_kind r) (sr_payload r) prio (sr_max_attempts r)
       (Some (identity (with_as_of now p))) q = Inr (Some n, q')" by simp
    from look_insert_job [OF assms(1) this] slot_name_stripped [OF k(1)] k(2) Some show ?thesis
      by (auto simp: identity_of_def)
  qed
qed

lemma wf_enqueue_missed: "wf_queue q \<Longrightarrow> wf_queue (snd (enqueue_missed sha now cfg ms q))"
proof (induction ms arbitrary: q)
  case (Cons m ms)
  then show ?case by (auto split: sum.splits prod.splits dest: wf_enqueue_slot) (metis snd_conv wf_enqueue_slot)+
qed simp

lemma wf_catchup: "wf_queue q \<Longrightarrow> wf_queue (snd (catchup_missed_slots sha db cfg now grace q))"
  by (auto simp: catchup_missed_slots_def wf_enqueue_missed split: sum.splits)

subsection \<open>The newest job of a kind\<close>

lemma fold_max_ge: "t \<le> fold max ts (t :: int)" "x \<in> set ts \<Longrightarrow> x \<le> fold max ts t"
proof (induction ts arbitrary: t)
  case (Cons a ts)
  {
    case 1
    from Cons.IH(1) [of "max a t"] show ?case by simp
  next
    case 2
    from Cons.IH(1) [of "max a t"] Cons.IH(2) [of "max a t"] 2 show ?case by auto
  }
qed simp_all

lemma newest_job_ge:
  assumes "j \<in> set (rows q)"
  shows "\<exists>t. newest_job_per_kind q (jkind j) = Some t \<and> jcreated j \<le> t"
proof -
  have "jcreated j \<in> set (map jcreated (filter (\<lambda>r. jkind r = jkind j) (rows q)))"
    using assms by auto
  then obtain t ts where "map jcreated (filter (\<lambda>r. jkind r = jkind j) (rows q)) = t # ts" "jcreated j \<in> set (t # ts)"
    by (metis list.set_cases)
  then show ?thesis
    using fold_max_ge(1) [of t ts] fold_max_ge(2) [of "jcreated j" ts t] by (auto simp: newest_job_per_kind_def)
qed

lemma insert_job_rows:
  "insert_job sha now k b p m hp q = Inr (r, q') \<Longrightarrow>
     rows q' = rows q @ (case r of None \<Rightarrow> [] | Some i \<Rightarrow>
       [new_job i (strip k) b (Some (payload_hash sha (identity_of b hp))) p m now])"
  by (auto simp: insert_job_eq Let_def append_row_def split: if_splits)

lemma enqueue_slot_rows:
  assumes "enqueue_slot sha now slot cfg p q = Inr (r, q')"
  shows "set (rows q) \<subseteq> set (rows q')"
    and "sr_job_id r = Some i \<Longrightarrow> \<exists>j \<in> set (rows q'). jid j = i \<and> jkind j = sr_kind r \<and> jcreated j = now"
proof -
  from assms obtain prio where k: "lower (strip slot) \<in> set SLOT_NAMES" "sr_kind r = lower (strip slot)"
    and i: "insert_job sha now (sr_kind r) (sr_payload r) prio (sr_max_attempts r)
       (Some (identity (with_as_of now p))) q = Inr (sr_job_id r, q')"
    by (rule enqueue_slot_Inr)
  from insert_job_rows [OF i] slot_name_stripped [OF k(1)] k(2)
  show "set (rows q) \<subseteq> set (rows q')"
    and "sr_job_id r = Some i \<Longrightarrow> \<exists>j \<in> set (rows q'). jid j = i \<and> jkind j = sr_kind r \<and> jcreated j = now"
    by (auto simp: new_job_def)
qed

lemma enqueue_missed_rows:
  "enqueue_missed sha now cfg ms q = (Inr ds, q') \<Longrightarrow>
     set (rows q) \<subseteq> set (rows q') \<and>
     (\<forall>(m, i) \<in> set ds. m \<in> set ms \<and> (\<exists>j \<in> set (rows q'). jid j = i \<and> jkind j = lower (strip (m_slot m)) \<and> jcreated j = now))"
proof (induction ms arbitrary: q ds)
  case Nil
  then show ?case by simp
next
  case (Cons m ms)
  from Cons.prems obtain r q1 ds' where e: "enqueue_slot sha now (m_slot m) cfg
      [(''as_of'', PStr (m_as_of m)), (''catchup'', PBool True)] q = Inr (r, q1)"
    and ds': "enqueue_missed sha now cfg ms q1 = (Inr ds', q')"
    and ds: "ds = (case sr_job_id r of None \<Rightarrow> ds' | Some i \<Rightarrow> (m, i) # ds')"
    by (auto split: sum.splits prod.splits)
  note IH = Cons.IH [OF ds']
  from e have k: "sr_kind r = lower (strip (m_slot m))" by (rule enqueue_slot_Inr)
  from enqueue_slot_rows [OF e] IH k ds show ?case
    by (fastforce split: option.splits)
qed

text \<open>After an enqueue that goes through there is an active job with its kind and identity: a new one, or the one that made it a duplicate.\<close>

lemma enqueue_slot_active:
  assumes "enqueue_slot sha now slot cfg p q = Inr (r, q')"
  shows "\<exists>j \<in> set (rows q'). active j \<and> jkind j = lower (strip slot) \<and> jhash j = Some (payload_hash sha (identity (with_as_of now p)))"
proof -
  from assms obtain prio where k: "lower (strip slot) \<in> set SLOT_NAMES" "sr_kind r = lower (strip slot)"
    and i: "insert_job sha now (sr_kind r) (sr_payload r) prio (sr_max_attempts r)
       (Some (identity (with_as_of now p))) q = Inr (sr_job_id r, q')"
    by (rule enqueue_slot_Inr)
  note ks = slot_name_stripped [OF k(1)]
  show ?thesis
  proof (cases "sr_job_id r")
    case None
    with i have "taken (lower (strip slot)) (payload_hash sha (identity (with_as_of now p))) q" "rows q' = rows q"
      using ks by (auto simp: insert_job_eq k(2) identity_of_def Let_def split: if_splits)
    then show ?thesis by (auto simp: taken_def)
  next
    case (Some n)
    with insert_job_rows [OF i] ks k(2) show ?thesis by (auto simp: new_job_def active_def identity_of_def)
  qed
qed

definition catchup_identity :: "string \<Rightarrow> dict" where
  "catchup_identity day = [(''as_of'', PStr day)]"

lemma catchup_identity_eq: "identity (with_as_of now [(''as_of'', PStr day), (''catchup'', PBool True)]) = catchup_identity day"
  by (simp add: identity_def with_as_of_def dhas_def EXECUTION_KEYS_def catchup_identity_def)

lemma enqueue_missed_active:
  "enqueue_missed sha now cfg ms q = (Inr ds, q') \<Longrightarrow> m \<in> set ms \<Longrightarrow>
     \<exists>j \<in> set (rows q'). active j \<and> jkind j = lower (strip (m_slot m)) \<and> jhash j = Some (payload_hash sha (catchup_identity (m_as_of m)))"
proof (induction ms arbitrary: q ds)
  case (Cons x ms)
  from Cons.prems(1) obtain r q1 ds' where e: "enqueue_slot sha now (m_slot x) cfg
      [(''as_of'', PStr (m_as_of x)), (''catchup'', PBool True)] q = Inr (r, q1)"
    and ds': "enqueue_missed sha now cfg ms q1 = (Inr ds', q')"
    by (auto split: sum.splits prod.splits)
  show ?case
  proof (cases "m = x")
    case True
    with enqueue_slot_active [OF e] enqueue_missed_rows [OF ds'] show ?thesis unfolding catchup_identity_eq by blast
  next
    case False
    with Cons.IH [OF ds'] Cons.prems(2) show ?thesis by simp
  qed
qed simp

lemma missed_slot_Some:
  assumes "missed_slot db cfg now grace js (slot, kind) = Inr (Some m)"
  shows "m_slot m = slot" "m_kind m = kind"
    "\<exists>cron. slot_cron cfg slot = Inr cron \<and> cron \<noteq> [] \<and>
       previous_fire db cron now 14 (schedule_timezone cfg) = Inr (Some (m_planned m))"
    "secs grace \<le> now - m_planned m" "now - m_planned m \<le> secs 86400"
    "case js kind of None \<Rightarrow> True | Some t \<Rightarrow> t < m_planned m"
    "\<exists>off. zone_of db (schedule_timezone cfg) = Inr off \<and>
       m_as_of m = isoformat (local_date (local_time off (m_planned m)))"
proof -
  from assms obtain cron p where c: "slot_cron cfg slot = Inr cron" "cron \<noteq> []"
    "previous_fire db cron now 14 (schedule_timezone cfg) = Inr (Some p)"
    and r: "missed_at db cfg now grace js slot kind p = Inr (Some m)"
    by (auto simp: missed_slot_def bind_err_eq_Inr split: if_splits option.splits)
  from r obtain off where m: "\<not> (now - p < secs grace \<or> now - p > secs 86400)"
    "\<not> (case js kind of None \<Rightarrow> False | Some newest \<Rightarrow> newest \<ge> p)"
    "zone_of db (schedule_timezone cfg) = Inr off"
    "m = \<lparr>m_slot = slot, m_kind = kind, m_planned = p, m_as_of = isoformat (local_date (local_time off p))\<rparr>"
    unfolding missed_at_def bind_err_eq_Inr by (auto simp: bind_err_eq_Inr split: if_splits)
  from m(4) show "m_slot m = slot" "m_kind m = kind" by simp_all
  from m c show "\<exists>cron. slot_cron cfg slot = Inr cron \<and> cron \<noteq> [] \<and>
       previous_fire db cron now 14 (schedule_timezone cfg) = Inr (Some (m_planned m))"
    "secs grace \<le> now - m_planned m" "now - m_planned m \<le> secs 86400"
    "case js kind of None \<Rightarrow> True | Some t \<Rightarrow> t < m_planned m"
    "\<exists>off. zone_of db (schedule_timezone cfg) = Inr off \<and>
       m_as_of m = isoformat (local_date (local_time off (m_planned m)))"
    by (auto split: option.splits)
qed

lemma collect_missed_Inr:
  "collect_missed f xs = Inr rs \<Longrightarrow> set rs = {m. \<exists>x \<in> set xs. f x = Inr (Some m)} \<and> (\<forall>x \<in> set xs. \<exists>r. f x = Inr r)"
proof (induction xs arbitrary: rs)
  case Nil
  then show ?case by simp
next
  case (Cons x xs)
  then obtain r rs' where "f x = Inr r" "collect_missed f xs = Inr rs'"
    "rs = (case r of None \<Rightarrow> rs' | Some m \<Rightarrow> m # rs')" by (auto simp: bind_err_eq_Inr)
  with Cons.IH [of rs'] show ?case by (auto split: option.splits)
qed

lemma missed_slots_mem:
  assumes "missed_slots db cfg now grace js = Inr ms"
  shows "m \<in> set ms \<longleftrightarrow> (\<exists>k \<in> set SLOT_NAMES. missed_slot db cfg now grace js (k, k) = Inr (Some m))"
proof -
  have "set ms = {m. \<exists>x \<in> set SLOT_KIND. missed_slot db cfg now grace js x = Inr (Some m)}"
    using collect_missed_Inr [OF assms [unfolded missed_slots_def]] by blast
  then show ?thesis by (simp add: SLOT_KIND_def SLOT_NAMES_def)
qed

lemma slot_name_lower: "k \<in> set SLOT_NAMES \<Longrightarrow> lower (strip k) = k"
proof -
  have "list_all (\<lambda>k. lower (strip k) = k) SLOT_NAMES" by code_simp
  then show "k \<in> set SLOT_NAMES \<Longrightarrow> lower (strip k) = k" by (simp add: list_all_iff)
qed

subsection \<open>Properties\<close>

lemma identity_keys: "distinct (map fst d) \<Longrightarrow> distinct (map fst (identity d))"
  by (simp add: identity_def distinct_map_filter)

text \<open>C8: The day is the identity of a slot's job. While the job an enqueue created is still pending or
  running, whatever its attempts, a later enqueue of the same slot whose payload agrees on everything
  but \<^verbatim>\<open>fallback\<close> and \<^verbatim>\<open>catchup\<close> is deduped: no row is added or changed.\<close>

theorem same_day_enqueue_dedupes:
  assumes "wf_queue q" and "enqueue_slot sha now slot cfg p q = Inr (r, q1)" and "sr_job_id r = Some i"
    and "look q1 i = Some j0" and "look q2 i = Some j" and "active j"
    and "jkind j = jkind j0" and "jhash j = jhash j0"
    and "enqueue_slot sha now' slot' cfg' p' q2 = Inr (r', q3)"
    and "lower (strip slot') = lower (strip slot)"
    and "distinct (map fst (with_as_of now p))"
    and "mset (identity (with_as_of now' p')) = mset (identity (with_as_of now p))"
  shows "sr_deduped r' = 1 \<and> sr_job_id r' = None \<and> rows q3 = rows q2"
proof -
  let ?h = "payload_hash sha (identity (with_as_of now p))"
  have "payload_hash sha (identity (with_as_of now' p')) = ?h"
    using json_canonical_perm [of "identity (with_as_of now p)" "identity (with_as_of now' p')"]
      identity_keys [OF assms(11)] assms(12) by (simp add: payload_hash_def)
  moreover from look_enqueue_slot [OF assms(1,2)] assms(3,4) have "jkind j0 = sr_kind r" "jhash j0 = Some ?h"
    by (auto simp: new_job_def)
  ultimately have t: "taken (sr_kind r) (payload_hash sha (identity (with_as_of now' p'))) q2"
    using assms(6-8) look_in_rows [OF assms(5)] by (auto simp: taken_def)
  from assms(2) have k: "sr_kind r = lower (strip slot)" by (rule enqueue_slot_Inr)
  from assms(9) obtain prio where s: "lower (strip slot') \<in> set SLOT_NAMES" "sr_kind r' = lower (strip slot')"
    and i: "insert_job sha now' (sr_kind r') (sr_payload r') prio (sr_max_attempts r')
       (Some (identity (with_as_of now' p'))) q2 = Inr (sr_job_id r', q3)"
    by (rule enqueue_slot_Inr)
  from i t s slot_name_stripped [OF s(1)] k assms(10) have "sr_job_id r' = None" "rows q3 = rows q2"
    by (auto simp: insert_job_eq Let_def identity_of_def split: if_splits)
  moreover from assms(9) \<open>sr_job_id r' = None\<close> have "sr_deduped r' = 1"
    by (auto simp: enqueue_slot_def Let_def bind_err_eq_Inr split: if_splits)
  ultimately show ?thesis by blast
qed

definition sample_schedule :: dict where
  "sample_schedule = [(''slots'', PDict [(''flex-trades'', PDict [(''cron'', PStr ''30 6 * * 1-6''),
     (''priority'', PInt 5), (''max_attempts'', PInt 8)])])]"

lemma sample_enqueue:
  "enqueue_slot id now ''flex-trades'' sample_schedule [(''as_of'', PStr d), (''catchup'', PBool True)] empty_queue =
     Inr (\<lparr>sr_slot = ''flex-trades'', sr_kind = ''flex-trades'', sr_enqueued = 1, sr_deduped = 0, sr_job_id = Some 1,
           sr_payload = [(''as_of'', PStr d), (''catchup'', PBool True), (''fallback'', PBool False)],
           sr_max_attempts = 8\<rparr>,
          \<lparr>rows = [new_job 1 ''flex-trades'' [(''as_of'', PStr d), (''catchup'', PBool True), (''fallback'', PBool False)]
             (Some (payload_hash id [(''as_of'', PStr d)])) 5 8 now], next_id = 2\<rparr>)"
proof -
  have "lower (strip ''flex-trades'') = ''flex-trades''" "strip ''flex-trades'' = ''flex-trades''" by code_simp+
  then show ?thesis
    by (simp add: enqueue_slot_def sample_schedule_def SLOT_NAMES_def SLOT_KIND_def Let_def dget_def dict_of_def
        py_or_def py_int_def with_as_of_def dhas_def setdefault_def identity_def EXECUTION_KEYS_def
        insert_job_def smallint_def empty_queue_def)
qed

theorem same_day_enqueue_dedupes_witness:
  "\<exists>r q1 r' q3. enqueue_slot id 0 ''flex-trades'' sample_schedule
       [(''as_of'', PStr ''2026-09-04''), (''catchup'', PBool True)] empty_queue = Inr (r, q1) \<and>
     enqueue_slot id 5 ''Flex-Trades'' [] [(''as_of'', PStr ''2026-09-04''), (''fallback'', PBool True)] q1 = Inr (r', q3) \<and>
     sr_job_id r' = None \<and> rows q3 = rows q1"
proof -
  let ?p = "[(''as_of'', PStr ''2026-09-04''), (''catchup'', PBool True)]"
  let ?p' = "[(''as_of'', PStr ''2026-09-04''), (''fallback'', PBool True)]"
  obtain r q1 where e: "enqueue_slot id 0 ''flex-trades'' sample_schedule ?p empty_queue = Inr (r, q1)"
    and r: "sr_job_id r = Some 1"
    and q1: "q1 = \<lparr>rows = [new_job 1 ''flex-trades'' (?p @ [(''fallback'', PBool False)])
             (Some (payload_hash id [(''as_of'', PStr ''2026-09-04'')])) 5 8 0], next_id = 2\<rparr>"
    using sample_enqueue [of 0 "''2026-09-04''"] by simp
  have n: "lower (strip ''Flex-Trades'') = ''flex-trades''" "lower (strip ''flex-trades'') = ''flex-trades''"
    "strip ''flex-trades'' = ''flex-trades''" by code_simp+
  have "\<exists>r' q3. enqueue_slot id 5 ''Flex-Trades'' [] ?p' q1 = Inr (r', q3)"
    by (simp add: enqueue_slot_def SLOT_NAMES_def SLOT_KIND_def Let_def dget_def dict_of_def n
        py_or_def py_int_def with_as_of_def dhas_def DEFAULT_SLOT_MAX_ATTEMPTS_def insert_job_def smallint_def
        split: if_split)
  then obtain r' q3 where e': "enqueue_slot id 5 ''Flex-Trades'' [] ?p' q1 = Inr (r', q3)" by blast
  obtain j where j: "look q1 1 = Some j" "active j"
    by (simp add: q1 look_def new_job_def active_def)
  have wf: "wf_queue empty_queue" by (simp add: wf_queue_def empty_queue_def unique_active_def)
  have i: "identity (with_as_of 0 ?p) = [(''as_of'', PStr ''2026-09-04'')]"
    "identity (with_as_of 5 ?p') = [(''as_of'', PStr ''2026-09-04'')]" "with_as_of 0 ?p = ?p"
    by (simp_all add: identity_def with_as_of_def dhas_def EXECUTION_KEYS_def)
  have h: "lower (strip ''Flex-Trades'') = lower (strip ''flex-trades'')" "distinct (map fst (with_as_of 0 ?p))"
    "mset (identity (with_as_of 5 ?p')) = mset (identity (with_as_of 0 ?p))"
    by (code_simp, code_simp, simp only: i(1,2))
  show ?thesis
    using same_day_enqueue_dedupes [OF wf e r j(1) j(1) j(2) refl refl e' h] e e' by blast
qed

text \<open>C16: What counts as missed. A slot is reported exactly when its cron has a last fire in the fortnight
  before now that is at least the grace old and at most a day, and no job of its kind was created
  since that fire; the reported day is the local day of the fire.\<close>

theorem missed_slots_exact:
  assumes "missed_slots db cfg now grace js = Inr ms"
  shows "m \<in> set ms \<longleftrightarrow>
    (\<exists>cron off. slot_cron cfg (m_slot m) = Inr cron \<and> cron \<noteq> [] \<and> m_slot m \<in> set SLOT_NAMES \<and> m_kind m = m_slot m \<and>
       previous_fire db cron now 14 (schedule_timezone cfg) = Inr (Some (m_planned m)) \<and>
       secs grace \<le> now - m_planned m \<and> now - m_planned m \<le> secs 86400 \<and>
       (case js (m_kind m) of None \<Rightarrow> True | Some newest \<Rightarrow> newest < m_planned m) \<and>
       zone_of db (schedule_timezone cfg) = Inr off \<and>
       m_as_of m = isoformat (local_date (local_time off (m_planned m))))"
    (is "_ \<longleftrightarrow> ?R")
proof -
  note mem = missed_slots_mem [OF assms, of m]
  have "missed_slot db cfg now grace js (m_slot m, m_slot m) = Inr (Some m)" if ?R
    using that by (cases m)
      (auto simp: missed_slot_def missed_at_def split: option.splits)
  with mem have "?R \<Longrightarrow> m \<in> set ms" by blast
  moreover have ?R if "m \<in> set ms"
  proof -
    from that mem obtain k where k: "k \<in> set SLOT_NAMES" "missed_slot db cfg now grace js (k, k) = Inr (Some m)"
      by blast
    from missed_slot_Some [OF k(2)] k(1) show ?R by auto
  qed
  ultimately show ?thesis by blast
qed

lemma sample_due:
  "due (\<lambda>_. None) ''30 6 * * 1-6'' None (secs 23400)" "due (\<lambda>_. None) ''30 6 * * 1-6'' None (secs 109800)"
proof -
  have p: "parse_cron ''30 6 * * 1-6'' = Inr (Some [30], Some [6], Some [1, 2, 3, 4, 5, 6])" by code_simp
  show "due (\<lambda>_. None) ''30 6 * * 1-6'' None (secs 23400)" "due (\<lambda>_. None) ''30 6 * * 1-6'' None (secs 109800)"
    unfolding due_def p
    by (simp_all add: zone_of_def matches_def local_time_def minute_def secs_def usec_def local_minute_def
        local_hour_def local_date_def EPOCH_ORDINAL_def cron_dow_def weekday_def)
qed

lemma sample_missed:
  assumes "secs 23400 = p \<or> secs 109800 = p" "case js ''flex-trades'' of None \<Rightarrow> True | Some t \<Rightarrow> t < p"
  shows "missed_slots (\<lambda>_. None) sample_schedule (p + secs 40) 30 js =
    Inr [\<lparr>m_slot = ''flex-trades'', m_kind = ''flex-trades'', m_planned = p, m_as_of = isoformat (local_date p)\<rparr>]"
proof -
  have tz: "schedule_timezone sample_schedule = None"
    by (simp add: schedule_timezone_def sample_schedule_def dget_def text_or_empty_def strip_def)
  have sc: "slot_cron sample_schedule ''flex-trades'' = Inr ''30 6 * * 1-6''"
    "slot_cron sample_schedule ''flex-transactions'' = Inr []"
    by (simp_all add: slot_cron_def sample_schedule_def dget_def dict_of_def text_or_empty_def)
  have d: "due (\<lambda>_. None) ''30 6 * * 1-6'' None p" using sample_due assms(1) by auto
  have s: "secs 40 \<le> minute" "0 < secs 40" "secs 40 \<le> secs (86400 * 14)" "secs 30 \<le> secs 40" "secs 40 \<le> secs 86400"
    by (simp_all add: secs_def usec_def minute_def)
  have pf: "previous_fire (\<lambda>_. None) ''30 6 * * 1-6'' (p + secs 40) 14 None = Inr (Some p)"
    by (rule previous_fire_eqI [OF d]) (use s in linarith)+
  have "missed_at (\<lambda>_. None) sample_schedule (p + secs 40) 30 js ''flex-trades'' ''flex-trades'' p =
    Inr (Some \<lparr>m_slot = ''flex-trades'', m_kind = ''flex-trades'', m_planned = p, m_as_of = isoformat (local_date p)\<rparr>)"
    using assms(2) s by (auto simp: missed_at_def tz zone_of_def local_time_def split: option.splits)
  then show ?thesis
    by (simp add: missed_slots_def SLOT_KIND_def missed_slot_def sc tz pf)
qed

theorem missed_slots_exact_witness:
  "\<exists>ms. missed_slots (\<lambda>_. None) sample_schedule (secs 23400 + secs 40) 30 (\<lambda>_. None) = Inr ms \<and>
     (\<exists>m \<in> set ms. m_planned m = secs 23400 \<and> m_kind m = m_slot m)"
  using sample_missed [of "secs 23400" "\<lambda>_. None"]
    missed_slots_exact [of "\<lambda>_. None" sample_schedule "secs 23400 + secs 40" 30 "\<lambda>_. None" _
      "\<lparr>m_slot = ''flex-trades'', m_kind = ''flex-trades'', m_planned = secs 23400,
        m_as_of = isoformat (local_date (secs 23400))\<rparr>"]
  by (auto simp del: One_nat_def)

text \<open>C9: A slot is caught up once. When the worker's catch-up enqueued a slot, then as long as no job has
  been deleted since, the slot is not reported missed again for any fire planned before the catch-up,
  even if the job failed in the meantime.\<close>

theorem catchup_enqueues_once:
  assumes "catchup_missed_slots sha db cfg now grace q = (Inr ds, q1)" and "(m, i) \<in> set ds"
    and "set (map (\<lambda>j. (jkind j, jcreated j)) (rows q1)) \<subseteq> set (map (\<lambda>j. (jkind j, jcreated j)) (rows q2))"
    and "missed_slots db cfg now' grace' (newest_job_per_kind q2) = Inr ms'"
    and "m' \<in> set ms'" and "m_slot m' = m_slot m"
  shows "m_planned m < now \<and> now < m_planned m'"
proof -
  from assms(1) obtain ms where ms: "missed_slots db cfg now grace (newest_job_per_kind q) = Inr ms"
    and e: "enqueue_missed sha now cfg ms q = (Inr ds, q1)"
    by (auto simp: catchup_missed_slots_def split: sum.splits)
  from enqueue_missed_rows [OF e] assms(2) obtain j where m: "m \<in> set ms"
    and j: "j \<in> set (rows q1)" "jkind j = lower (strip (m_slot m))" "jcreated j = now" by blast
  from missed_slots_mem [OF ms] m obtain k where k: "k \<in> set SLOT_NAMES" "missed_slot db cfg now grace (newest_job_per_kind q) (k, k) = Inr (Some m)" by blast
  from missed_slot_Some(3) [OF k(2)] have "m_planned m < now"
    using previous_fire_Some(3) by blast
  moreover from missed_slots_mem [OF assms(4)] assms(5) obtain k'
    where k': "k' \<in> set SLOT_NAMES" "missed_slot db cfg now' grace' (newest_job_per_kind q2) (k', k') = Inr (Some m')"
    by blast
  moreover have kk: "jkind j = k'"
    using k k' missed_slot_Some(1) [OF k(2)] missed_slot_Some(1) [OF k'(2)] assms(6) j(2) slot_name_lower by auto
  from j assms(3) kk obtain j2 where "j2 \<in> set (rows q2)" "jkind j2 = k'" "jcreated j2 = now" by auto
  from newest_job_ge [OF this(1)] this missed_slot_Some(6) [OF k'(2)] have "now < m_planned m'" by auto
  ultimately show ?thesis by blast
qed

theorem catchup_enqueues_once_witness:
  "\<exists>ds q1 m i ms' m'. catchup_missed_slots id (\<lambda>_. None) sample_schedule (secs 23400 + secs 40) 30 empty_queue = (Inr ds, q1) \<and>
     (m, i) \<in> set ds \<and> missed_slots (\<lambda>_. None) sample_schedule (secs 109800 + secs 40) 30 (newest_job_per_kind q1) = Inr ms' \<and>
     m' \<in> set ms' \<and> secs 23400 + secs 40 < m_planned m'"
proof -
  let ?m = "\<lambda>p. \<lparr>m_slot = ''flex-trades'', m_kind = ''flex-trades'', m_planned = p, m_as_of = isoformat (local_date p)\<rparr>"
  let ?now = "secs 23400 + secs 40"
  have ms: "missed_slots (\<lambda>_. None) sample_schedule ?now 30 (newest_job_per_kind empty_queue) = Inr [?m (secs 23400)]"
    by (rule sample_missed) (simp_all add: newest_job_per_kind_def empty_queue_def)
  obtain q1 ph b where c: "catchup_missed_slots id (\<lambda>_. None) sample_schedule ?now 30 empty_queue = (Inr [(?m (secs 23400), 1)], q1)"
    and q1: "rows q1 = [new_job 1 ''flex-trades'' b ph 5 8 ?now]"
    using ms sample_enqueue [of ?now "isoformat (local_date (secs 23400))"]
    by (auto simp: catchup_missed_slots_def)
  have ms': "missed_slots (\<lambda>_. None) sample_schedule (secs 109800 + secs 40) 30 (newest_job_per_kind q1) = Inr [?m (secs 109800)]"
    by (rule sample_missed) (simp_all add: newest_job_per_kind_def q1 new_job_def secs_def usec_def)
  show ?thesis
    using c ms' catchup_enqueues_once [OF c _ subset_refl ms', of "?m (secs 23400)" 1 "?m (secs 109800)"] by auto
qed

text \<open>C19: The command line is fail-closed: without a single Flex token, or with no database connection,
  nothing is enqueued and the exit is not a success.\<close>

theorem main_fails_closed:
  assumes "tokens = ([], []) \<or> \<not> list_ex connects [1..<6]"
  shows "fst (main sha now connects tokens slot cfg st) \<noteq> Inr 0 \<and>
    snd (snd (main sha now connects tokens slot cfg st)) = snd st"
  using assms by (cases st) (auto simp: main_def split: sum.splits)

theorem main_fails_closed_witness:
  "fst (main id 0 (\<lambda>_. True) ([], []) ''flex-trades'' sample_schedule
      ((False, \<lparr>cat_tables = [], cat_columns = [], cat_indexes = []\<rparr>), empty_queue)) \<noteq> Inr 0"
  using main_fails_closed [of "([], [])"] by blast

end
