(* ===== verification/Worker_Loop.thy ===== *)
theory Worker_Loop
  imports Slot_Scheduler
begin

text \<open>
  \<^verbatim>\<open>worker/handlers.py\<close> and \<^verbatim>\<open>worker/loop.py\<close>: running one job, recording its outcome, reconnecting to
  Postgres, and the loop that claims, finishes, retries, reclaims and catches up. The orchestration
  a handler calls is a parameter that returns its result dictionary or an exception; a statement that
  fails for another reason than a lost connection ends the process, as an uncaught exception does.
\<close>

subsection \<open>Handlers\<close>

text \<open>\<open>for e in v\<close>.\<close>

definition py_iter :: "pyval \<Rightarrow> py_error + pyval list" where
  "py_iter v = (case v of
      PList xs \<Rightarrow> Inr xs
    | PStr s \<Rightarrow> Inr (map (\<lambda>c. PStr [c]) s)
    | PDict d \<Rightarrow> Inr (map (\<lambda>(k, _). PStr k) d)
    | _ \<Rightarrow> Inl (TypeError ''object is not iterable''))"

definition nonblank_texts :: "pyval list \<Rightarrow> string list" where
  "nonblank_texts vs = filter (\<lambda>s. strip s \<noteq> []) (map py_str vs)"

definition require_ok :: "dict \<Rightarrow> string \<Rightarrow> py_error + dict" where
  "require_ok data label =
     (if dget data ''ok'' = PBool False then
        Inl (RuntimeError (if truthy (dget data ''error'') then py_str (dget data ''error'') else label @ '' failed''))
      else
        bind_err (py_iter (py_or (dget data ''errors'') (PList []))) (\<lambda>es.
        let errors = nonblank_texts es in
        if errors \<noteq> [] then Inl (RuntimeError (label @ '' partial: '' @ join ''; '' errors))
        else
          bind_err (py_int (py_or (py_or (dget data ''count'') (dget data ''inserted'')) (PInt 0))) (\<lambda>inserted.
          Inr [(''inserted'', PInt inserted), (''ok'', PBool True), (''result'', PDict data)])))"

definition HANDLERS :: "string list" where
  "HANDLERS = [''flex-trades'', ''flex-transactions'']"

text \<open>What the handlers call: the orchestration of a kind on a payload, the connection the outcome is
  written on (\<open>None\<close>: it opens), the count of rows added since the run started, and what writing the freshness row
  raises (\<open>None\<close>: it is written).\<close>

record ingest =
  orchestrate :: "string \<Rightarrow> dict \<Rightarrow> py_error + dict"
  outcome_conn :: "py_error option"
  count_new_rows :: "string \<Rightarrow> int option"
  outcome_write :: "py_error option"

text \<open>How that count comes about: the database clock read before the run (\<open>None\<close> when the read failed), and the rows of the kind's table whose
  \<open>created_at\<close> is not before it. \<open>stamps\<close> gives the column of a table, or the error of the query.\<close>

definition NEW_ROWS_SOURCE :: "(string \<times> string \<times> string) list" where
  "NEW_ROWS_SOURCE = [(''flex-trades'', ''raw_broker.executions_raw_flex'', ''created_at''),
     (''flex-transactions'', ''raw_broker.transactions'', ''created_at'')]"

definition db_now :: "py_error + instant option \<Rightarrow> instant option" where
  "db_now r = (case r of Inl _ \<Rightarrow> None | Inr t \<Rightarrow> t)"

definition count_new_rows_since :: "(string \<Rightarrow> string \<Rightarrow> py_error + instant list) \<Rightarrow> string \<Rightarrow> instant option \<Rightarrow> int option" where
  "count_new_rows_since stamps kind since = (case (map_of NEW_ROWS_SOURCE kind, since) of
      (Some (table, col), Some s) \<Rightarrow>
        (case stamps table col of Inl _ \<Rightarrow> None | Inr ts \<Rightarrow> Some (int (length (filter (\<lambda>t. s \<le> t) ts))))
    | _ \<Rightarrow> None)"

definition dispatch ::
  "ingest \<Rightarrow> instant \<Rightarrow> string \<Rightarrow> dict \<Rightarrow> int \<Rightarrow> freshness_table \<Rightarrow> (py_error + dict) \<times> freshness_table" where
  "dispatch env now kind payload jobid fresh =
     (let kind_s = strip kind in
      if kind_s \<notin> set HANDLERS then (Inl (ValueError (''unknown job kind: '' @ repr_str kind)), fresh)
      else (case outcome_conn env of
          Some e \<Rightarrow> (Inl e, fresh)
        | None \<Rightarrow>
            (case bind_err (orchestrate env kind_s payload) (\<lambda>res. require_ok res kind_s) of
               Inl e \<Rightarrow> (Inl e, fresh)
             | Inr out \<Rightarrow>
                 let new_rows = count_new_rows env kind_s;
                     out' = dset out ''new_rows'' (case new_rows of None \<Rightarrow> PNone | Some n \<Rightarrow> PInt n);
                     processed = (case py_int (py_or (dget out ''inserted'') (PInt 0)) of Inr n \<Rightarrow> n | Inl _ \<Rightarrow> 0)
                 in (case outcome_write env of
                       Some e \<Rightarrow> (Inl e, fresh)
                     | None \<Rightarrow> (Inr out', record_freshness now kind_s True processed new_rows None (Some jobid) fresh)))))"

definition record_ingest_outcome ::
  "py_error option \<Rightarrow> instant \<Rightarrow> string \<Rightarrow> bool \<Rightarrow> string option \<Rightarrow> int \<Rightarrow> freshness_table \<Rightarrow> py_error + freshness_table" where
  "record_ingest_outcome conn now kind ok error jobid fresh =
     (case conn of Some e \<Rightarrow> Inl e
      | None \<Rightarrow> Inr (record_freshness now (strip kind) ok 0 None error (Some jobid) fresh))"

subsection \<open>The reconnecting database handle\<close>

definition RECONNECT_DELAYS :: "int list" where
  "RECONNECT_DELAYS = [5, 10, 20, 40, 60]"

text \<open>One try of \<open>WorkerDb.call\<close>: whether a connection can be opened, and what the call does on it
  (\<open>None\<close>: an \<open>OperationalError\<close> or \<open>InterfaceError\<close>).\<close>

record 'a attempt =
  can_connect :: bool
  outcome_of :: "'a option"

record handle =
  h_open :: bool
  h_reconnects :: int
  h_slept :: int

fun call_loop :: "nat \<Rightarrow> (int \<times> 'a attempt) list \<Rightarrow> handle \<Rightarrow> 'a option \<times> handle" where
  "call_loop i [] h = (None, h)"
| "call_loop i ((delay, a) # rest) h =
     (let h1 = h\<lparr>h_slept := h_slept h + delay\<rparr> in
      if \<not> h_open h1 \<and> \<not> can_connect a then call_loop (Suc i) rest (h1\<lparr>h_open := False\<rparr>)
      else
        let h2 = (if h_open h1 then h1
                  else h1\<lparr>h_open := True, h_reconnects := h_reconnects h1 + (if i = 0 then 0 else 1)\<rparr>)
        in (case outcome_of a of
              Some v \<Rightarrow> (Some v, h2)
            | None \<Rightarrow> call_loop (Suc i) rest (h2\<lparr>h_open := False\<rparr>)))"

text \<open>\<open>attempts n\<close> is what the n-th of the six tries meets.\<close>

definition call :: "(nat \<Rightarrow> 'a attempt) \<Rightarrow> handle \<Rightarrow> (py_error + 'a) \<times> handle" where
  "call attempts h =
     (case call_loop 0 (zip (0 # RECONNECT_DELAYS) (map attempts [0..<6])) h of
        (Some v, h') \<Rightarrow> (Inr v, h')
      | (None, h') \<Rightarrow> (Inl (RuntimeError ''postgres unavailable after 5 reconnects''), h'))"

subsection \<open>The loop\<close>

record settings =
  s_policy :: RetryPolicy
  s_stale :: int
  s_requeue :: int
  s_reclaim_every :: int
  s_grace :: int
  s_catchup :: bool
  s_schedule :: dict
  s_pod :: string
  s_version :: string
  s_started :: instant

definition DEFAULT_STALE_RUNNING_SEC :: int where
  "DEFAULT_STALE_RUNNING_SEC = 7200"

definition DEFAULT_RECLAIM_REQUEUE_SEC :: int where
  "DEFAULT_RECLAIM_REQUEUE_SEC = 600"

definition stale_after_sec :: "dict \<Rightarrow> string option \<Rightarrow> int" where
  "stale_after_sec worker_cfg env =
     (let raw = py_or (dget worker_cfg ''stale_running_sec'') (case env of None \<Rightarrow> PNone | Some s \<Rightarrow> PStr s) in
      if raw = PNone \<or> strip (py_str raw) = [] then DEFAULT_STALE_RUNNING_SEC
      else (case py_int raw of Inr n \<Rightarrow> max 60 n | Inl _ \<Rightarrow> DEFAULT_STALE_RUNNING_SEC))"

record environment =
  env_stale :: "string option"
  env_catchup_disabled :: "string option"
  env_hostname :: "string option"

text \<open>The configuration part of \<open>run_forever\<close>: worker settings override the schedule's retry delays.\<close>

definition load_settings ::
  "environment \<Rightarrow> dict \<Rightarrow> dict \<Rightarrow> string \<Rightarrow> instant \<Rightarrow> py_error + settings" where
  "load_settings env worker_cfg scheduler_cfg version now =
     bind_err (py_int (py_or (dget worker_cfg ''reclaim_requeue_sec'') (PInt DEFAULT_RECLAIM_REQUEUE_SEC))) (\<lambda>requeue.
     bind_err (dict_of (dget scheduler_cfg ''retry'')) (\<lambda>sched_retry.
     bind_err (dict_of (dget worker_cfg ''retry'')) (\<lambda>worker_retry.
     bind_err (py_int (py_or (dget worker_cfg ''reclaim_every_n_idle'') (PInt 12))) (\<lambda>every.
     Inr \<lparr>s_policy = from_config (dmerge sched_retry worker_retry),
          s_stale = stale_after_sec worker_cfg (env_stale env),
          s_requeue = requeue,
          s_reclaim_every = max 1 every,
          s_grace = catchup_grace_sec scheduler_cfg,
          s_catchup = (strip (the_text (env_catchup_disabled env)) \<notin> {''1'', ''true'', ''yes''}),
          s_schedule = scheduler_cfg,
          s_pod = (if the_text (env_hostname env) = [] then ''flex-query-worker'' else the_text (env_hostname env)),
          s_version = version, s_started = now\<rparr>))))"

definition initial_counters :: worker_counters where
  "initial_counters = \<lparr>jobs_done = 0, jobs_failed = 0, jobs_retried = 0, catchups = 0, last_kind = None,
     last_claim_at = [], w_last_error = [], w_last_error_category = [], stale_reclaimed = 0, db_reconnects = 0\<rparr>"

text \<open>The tables the loop works on, with its own counters, idle ticks and the job in hand.\<close>

record world =
  w_queue :: queue
  w_fresh :: freshness_table
  w_beats :: "heartbeat list"
  w_counters :: worker_counters
  w_idle :: int
  w_job :: "claimed option"

definition heartbeat_now :: "settings \<Rightarrow> instant \<Rightarrow> world \<Rightarrow> world" where
  "heartbeat_now s now w =
     w\<lparr>w_beats := record_heartbeat now (w_counters w) (s_pod s) (s_version s) (s_started s) (w_beats w)\<rparr>"

definition startup :: "settings \<Rightarrow> instant \<Rightarrow> world \<Rightarrow> world" where
  "startup s now w =
     (let (ids, q) = reclaim_stale_running (s_stale s) (s_requeue s) now (w_queue w) in
      heartbeat_now s now
        (w\<lparr>w_queue := q, w_counters := initial_counters\<lparr>stale_reclaimed := int (length ids)\<rparr>, w_idle := 0, w_job := None\<rparr>))"

text \<open>The idle branch; a failing catch-up is logged and leaves what it had enqueued.\<close>

definition idle_tick :: "(string \<Rightarrow> string) \<Rightarrow> tzdb \<Rightarrow> settings \<Rightarrow> instant \<Rightarrow> world \<Rightarrow> world" where
  "idle_tick sha db s now w =
     (let n = w_idle w + 1 in
      if n < s_reclaim_every s then w\<lparr>w_idle := n\<rparr>
      else
        let (ids, q1) = reclaim_stale_running (s_stale s) (s_requeue s) now (w_queue w);
            c1 = (w_counters w)\<lparr>stale_reclaimed := stale_reclaimed (w_counters w) + int (length ids)\<rparr>;
            (c2, q2) = (if s_catchup s then
                (case catchup_missed_slots sha db (s_schedule s) now (s_grace s) q1 of
                   (Inl e, q2) \<Rightarrow> (c1, q2)
                 | (Inr caught, q2) \<Rightarrow> (c1\<lparr>catchups := catchups c1 + int (length caught)\<rparr>, q2))
              else (c1, q1))
        in heartbeat_now s now (w\<lparr>w_idle := 0, w_queue := q2, w_counters := c2\<rparr>))"

definition take_job :: "instant \<Rightarrow> claimed \<Rightarrow> queue \<Rightarrow> world \<Rightarrow> world" where
  "take_job now c q w =
     w\<lparr>w_queue := q, w_idle := 0, w_job := Some c,
       w_counters := (w_counters w)\<lparr>last_claim_at := iso_z_of now, last_kind := Some (ckind c)\<rparr>\<rparr>"

definition poll :: "(string \<Rightarrow> string) \<Rightarrow> tzdb \<Rightarrow> settings \<Rightarrow> int list \<Rightarrow> instant \<Rightarrow> world \<Rightarrow> py_error + world" where
  "poll sha db s locked now w =
     bind_err (claim_next locked now (w_queue w)) (\<lambda>(oc, q).
       case oc of None \<Rightarrow> Inr (idle_tick sha db s now w) | Some c \<Rightarrow> Inr (take_job now c q w))"

text \<open>After the handler: \<open>now\<close> is the clock of the job's own statement, \<open>later\<close> that of the statements
  that follow. \<open>fresh_conn\<close> is the connection the failed outcome is recorded on.\<close>

definition finish_failed ::
  "settings \<Rightarrow> instant \<Rightarrow> instant \<Rightarrow> py_error option \<Rightarrow> claimed \<Rightarrow> string \<Rightarrow> world \<Rightarrow> py_error + world" where
  "finish_failed s now later fresh_conn c msg w =
     (let plan = plan_retry (classify_flex_error msg) (cattempts c) (cmax c) (s_policy s);
          cat = category_value (plan_category plan);
          k = (w_counters w)\<lparr>w_last_error := take 500 msg, w_last_error_category := cat\<rparr>
      in bind_err
           (if plan_retries plan then
              bind_err (mark_retry (cid c) msg cat (delay_sec plan) now (w_queue w)) (\<lambda>q1.
              Inr (if cooldown_all_sec plan \<noteq> 0
                   then snd (defer_pending (cooldown_all_sec plan) (Some (cid c)) later q1) else q1,
                   k\<lparr>jobs_retried := jobs_retried k + 1\<rparr>))
            else Inr (mark_failed (cid c) msg (Some cat) now (w_queue w), k\<lparr>jobs_failed := jobs_failed k + 1\<rparr>))
           (\<lambda>(q, k').
            let fresh = (case record_ingest_outcome fresh_conn later (ckind c) False (Some (cat @ '': '' @ msg)) (cid c) (w_fresh w)
                           of Inl _ \<Rightarrow> w_fresh w | Inr f \<Rightarrow> f)
            in Inr (heartbeat_now s later (w\<lparr>w_queue := q, w_counters := k', w_fresh := fresh, w_job := None\<rparr>))))"

definition finish_done :: "settings \<Rightarrow> instant \<Rightarrow> instant \<Rightarrow> claimed \<Rightarrow> dict \<Rightarrow> world \<Rightarrow> world" where
  "finish_done s now later c result w =
     heartbeat_now s later
       (w\<lparr>w_queue := mark_done (cid c) result now (w_queue w), w_job := None,
          w_counters := (w_counters w)\<lparr>jobs_done := jobs_done (w_counters w) + 1, w_last_error := [],
             w_last_error_category := []\<rparr>\<rparr>)"

definition run_job :: "ingest \<Rightarrow> settings \<Rightarrow> instant \<Rightarrow> instant \<Rightarrow> py_error option \<Rightarrow> claimed \<Rightarrow> world \<Rightarrow> py_error + world" where
  "run_job env s now later fresh_conn c w =
     (case dispatch env now (ckind c) (cpayload c) (cid c) (w_fresh w) of
        (Inl e, fresh) \<Rightarrow> finish_failed s now later fresh_conn c (exn_text e) (w\<lparr>w_fresh := fresh\<rparr>)
      | (Inr result, fresh) \<Rightarrow> Inr (finish_done s now later c result (w\<lparr>w_fresh := fresh\<rparr>)))"

subsection \<open>Reconnecting\<close>

text \<open>Try \<open>n\<close> gets through: on the connection still open for the first one, on a new one otherwise.\<close>

definition usable :: "(nat \<Rightarrow> 'a attempt) \<Rightarrow> handle \<Rightarrow> nat \<Rightarrow> bool" where
  "usable attempts h n \<longleftrightarrow> (n = 0 \<and> h_open h \<or> can_connect (attempts n)) \<and> outcome_of (attempts n) \<noteq> None"

fun first_usable :: "bool \<Rightarrow> (int \<times> 'a attempt) list \<Rightarrow> 'a option \<times> int" where
  "first_usable is_open [] = (None, 0)"
| "first_usable is_open ((d, a) # rest) =
     (if (is_open \<or> can_connect a) \<and> outcome_of a \<noteq> None then (outcome_of a, d)
      else case first_usable False rest of (r, t) \<Rightarrow> (r, d + t))"

lemma call_loop_first:
  "fst (call_loop i xs h) = fst (first_usable (h_open h) xs) \<and>
   h_slept (snd (call_loop i xs h)) = h_slept h + snd (first_usable (h_open h) xs)"
proof (induction xs arbitrary: i h)
  case (Cons x xs)
  then show ?case
    by (cases x) (auto simp: Let_def split: option.splits prod.splits)
qed simp

lemma tries_list: "zip (0 # RECONNECT_DELAYS) (map a [0..<6]) =
    [(0, a 0), (5, a 1), (10, a 2), (20, a 3), (40, a 4), (60, a 5)]"
  by (simp add: RECONNECT_DELAYS_def upt_rec eval_nat_numeral)

lemma less_6_cases: "n < (6::nat) \<longleftrightarrow> n = 0 \<or> n = 1 \<or> n = 2 \<or> n = 3 \<or> n = 4 \<or> n = 5"
  by auto

text \<open>C15: A database call survives an outage. It returns what the first of its six tries that gets through
  returns - each try after a failed one on a fresh connection - and gives up only when all six fail;
  it never waits longer than 135 seconds in total.\<close>

theorem call_returns_first_usable:
  "(\<forall>n < 6. usable attempts h n \<longrightarrow> (\<forall>m < n. \<not> usable attempts h m) \<longrightarrow>
      fst (call attempts h) = Inr (the (outcome_of (attempts n)))) \<and>
   ((\<forall>n < 6. \<not> usable attempts h n) \<longleftrightarrow> (\<exists>e. fst (call attempts h) = Inl e)) \<and>
   h_slept (snd (call attempts h)) \<le> h_slept h + 135"
proof -
  let ?xs = "[(0, attempts 0), (5, attempts 1), (10, attempts 2), (20, attempts 3), (40, attempts 4), (60, attempts 5)]"
  obtain r h' where c: "call_loop 0 ?xs h = (r, h')" by (cases "call_loop 0 ?xs h")
  have f: "r = fst (first_usable (h_open h) ?xs)" "h_slept h' = h_slept h + snd (first_usable (h_open h) ?xs)"
    using call_loop_first [of 0 ?xs h] c by auto
  have call: "fst (call attempts h) = (case r of Some v \<Rightarrow> Inr v | None \<Rightarrow> Inl (RuntimeError ''postgres unavailable after 5 reconnects''))"
    "snd (call attempts h) = h'"
    unfolding call_def tries_list c by (auto split: option.splits)
  let ?u = "usable attempts h"
  have u: "((h_open h \<or> can_connect (attempts 0)) \<and> outcome_of (attempts 0) \<noteq> None) = ?u 0"
    "n \<noteq> 0 \<Longrightarrow> ((False \<or> can_connect (attempts n)) \<and> outcome_of (attempts n) \<noteq> None) = ?u n" for n
    by (simp_all add: usable_def)
  have r: "r = (if ?u 0 then outcome_of (attempts 0) else if ?u 1 then outcome_of (attempts 1)
      else if ?u 2 then outcome_of (attempts 2) else if ?u 3 then outcome_of (attempts 3)
      else if ?u 4 then outcome_of (attempts 4) else if ?u 5 then outcome_of (attempts 5) else None)"
    and t: "snd (first_usable (h_open h) ?xs) \<le> 135"
    unfolding f(1) first_usable.simps u(1) u(2) [OF zero_neq_one [symmetric]] u(2) [OF zero_neq_numeral [symmetric]]
    by (cases "?u 0"; cases "?u 1"; cases "?u 2"; cases "?u 3"; cases "?u 4"; cases "?u 5"; simp del: One_nat_def)+
  have some: "outcome_of (attempts n) \<noteq> None" if "?u n" for n
    using that by (auto simp: usable_def)
  have "fst (call attempts h) = Inr (the (outcome_of (attempts n)))" if "n < 6" "?u n" "\<forall>m < n. \<not> ?u m" for n
  proof -
    have no: "0 < n \<Longrightarrow> \<not> ?u 0" "1 < n \<Longrightarrow> \<not> ?u 1" "2 < n \<Longrightarrow> \<not> ?u 2" "3 < n \<Longrightarrow> \<not> ?u 3" "4 < n \<Longrightarrow> \<not> ?u 4"
      using that(3) by blast+
    from that(1,2) no have "r = outcome_of (attempts n)"
      unfolding r less_6_cases by (elim disjE) (simp_all del: One_nat_def)
    moreover obtain v where "outcome_of (attempts n) = Some v" using some [OF \<open>?u n\<close>] by blast
    ultimately show ?thesis by (simp add: call)
  qed
  moreover have "(\<forall>n < 6. \<not> ?u n) \<longleftrightarrow> r = None"
  proof -
    have "(\<forall>n < 6. \<not> ?u n) \<longleftrightarrow> \<not> ?u 0 \<and> \<not> ?u 1 \<and> \<not> ?u 2 \<and> \<not> ?u 3 \<and> \<not> ?u 4 \<and> \<not> ?u 5"
      unfolding less_6_cases by blast
    also have "\<dots> \<longleftrightarrow> r = None"
      unfolding r using some [of 0] some [of 1] some [of 2] some [of 3] some [of 4] some [of 5]
      by (cases "?u 0"; cases "?u 1"; cases "?u 2"; cases "?u 3"; cases "?u 4"; cases "?u 5"; simp del: One_nat_def)
    finally show ?thesis .
  qed
  then have "(\<forall>n < 6. \<not> ?u n) \<longleftrightarrow> (\<exists>e. fst (call attempts h) = Inl e)"
    by (auto simp: call split: option.splits)
  ultimately show ?thesis
    using t by (simp add: call f(2))
qed

theorem call_returns_first_usable_witness:
  "fst (call (\<lambda>n. if n < 2 then \<lparr>can_connect = False, outcome_of = None\<rparr> else \<lparr>can_connect = True, outcome_of = Some (7::int)\<rparr>)
      \<lparr>h_open = True, h_reconnects = 0, h_slept = 0\<rparr>) = Inr 7"
  using call_returns_first_usable [of "\<lambda>n. if n < 2 then \<lparr>can_connect = False, outcome_of = None\<rparr>
      else \<lparr>can_connect = True, outcome_of = Some (7::int)\<rparr>" "\<lparr>h_open = True, h_reconnects = 0, h_slept = 0\<rparr>"]
  by (auto simp: usable_def dest: spec [of _ 2])

subsection \<open>New rows\<close>

text \<open>Rows that were there before the run are not counted, rows it added are, in whatever order the table gives them.\<close>

lemma count_new_rows_exact:
  assumes "map_of NEW_ROWS_SOURCE kind = Some (table, col)" "stamps table col = Inr ts" "mset ts = mset (old @ added)"
    "\<forall>t\<in>set old. t < since" "\<forall>t\<in>set added. since \<le> t"
  shows "count_new_rows_since stamps kind (db_now (Inr (Some since))) = Some (int (length added))"
proof -
  have "length (filter (\<lambda>t. since \<le> t) ts) = length (filter (\<lambda>t. since \<le> t) (old @ added))"
    using assms(3) by (metis mset_filter size_mset)
  also have "\<dots> = length added" using assms(4,5) by (simp add: filter_id_conv not_le)
  finally show ?thesis using assms(1,2) by (simp add: count_new_rows_since_def db_now_def)
qed

end
