(* ===== verification/Local_Clock.thy ===== *)
theory Local_Clock
  imports Cron_Plan
begin

text \<open>
  \<open>fmt_local\<close> of \<^verbatim>\<open>ops/diagnose.py\<close>: an instant as the weekday, hour and minute of the schedule's zone. A zone
  is what \<open>ZoneInfo\<close> gives for a name: the offset and the abbreviation at every instant.
\<close>

record zone =
  z_off :: "instant \<Rightarrow> int"
  z_name :: "instant \<Rightarrow> string"

definition utc_zone :: zone where
  "utc_zone = \<lparr>z_off = (\<lambda>_. 0), z_name = (\<lambda>_. ''UTC'')\<rparr>"

type_synonym zones = "string \<Rightarrow> zone option"

definition resolve_zone :: "zones \<Rightarrow> string option \<Rightarrow> py_error + zone" where
  "resolve_zone zs tz = (case tz of
      None \<Rightarrow> Inr utc_zone
    | Some name \<Rightarrow> if name = [] then Inr utc_zone
        else (case zs name of Some z \<Rightarrow> Inr z | None \<Rightarrow> Inl (KeyError name)))"

definition day_names :: "string list" where
  "day_names = [''Mon'', ''Tue'', ''Wed'', ''Thu'', ''Fri'', ''Sat'', ''Sun'']"

definition fmt_local :: "zone \<Rightarrow> string option \<Rightarrow> instant option \<Rightarrow> string" where
  "fmt_local z tz dt = (case dt of
      None \<Rightarrow> em_dash
    | Some t \<Rightarrow>
        let l = local_time (z_off z) t;
            label = (if z_name z t \<noteq> [] then z_name z t else if the_text tz \<noteq> [] then the_text tz else ''UTC'')
        in day_names ! nat (weekday (local_date l)) @ '' '' @ pad 2 (nat (local_hour l)) @ '':'' @
           pad 2 (nat (local_minute l)) @ '' '' @ label)"

end
