(* ===== verification/Ingest_Api.thy ===== *)
theory Ingest_Api
  imports Worker_Loop Local_Clock
begin

text \<open>
  The HTTP side that writes the queue: \<^verbatim>\<open>api/ingest.py\<close> (enqueue, listing, run-now), \<^verbatim>\<open>api/manual_ops.py\<close>
  (synchronous fetch and upload with their audit rows) and the write-token checks of \<^verbatim>\<open>api/deps.py\<close>. A
  refused request is an \<open>HTTPException\<close> value and leaves the state as it was.
\<close>

subsection \<open>Who may write\<close>

definition get_write_token :: "dict \<Rightarrow> string option \<Rightarrow> string" where
  "get_write_token cfg env =
     strip (let c = dget cfg ''write_token'' in if truthy c then py_str c else the_text env)"

definition write_token_from_headers :: "string option \<Rightarrow> string option \<Rightarrow> string" where
  "write_token_from_headers x_token authorization =
     (let got = strip (the_text x_token); auth = the_text authorization in
      if got = [] \<and> auth \<noteq> [] \<and> prefix ''bearer '' (lower auth) then strip (drop 7 auth) else got)"

definition from_gateway :: "string option \<Rightarrow> bool" where
  "from_gateway gw = (strip (the_text gw) = ''1'')"

definition require_write_token ::
  "string \<Rightarrow> string option \<Rightarrow> string option \<Rightarrow> string option \<Rightarrow> py_error + unit" where
  "require_write_token expected x_token authorization gateway =
     (if expected = [] then Inr ()
      else if write_token_from_headers x_token authorization = expected then Inr ()
      else if from_gateway gateway then Inr ()
      else Inl (HTTPException 401 ''invalid write token''))"

definition require_config_write_identity ::
  "string \<Rightarrow> string option \<Rightarrow> string option \<Rightarrow> string option \<Rightarrow> py_error + unit" where
  "require_config_write_identity expected x_token authorization gateway =
     (if expected \<noteq> [] \<and> write_token_from_headers x_token authorization = expected then Inr ()
      else if from_gateway gateway then Inr ()
      else Inl (HTTPException 401 ''invalid write token''))"

text \<open>\<open>db_conn\<close> around a handler: no connection (the text of the driver's error), no call.\<close>

definition db_conn :: "string option \<Rightarrow> (py_error + 'a) \<Rightarrow> py_error + 'a" where
  "db_conn unavailable handled = (case unavailable of
      Some msg \<Rightarrow> Inl (HTTPException 503 (''database unavailable: '' @ msg))
    | None \<Rightarrow> handled)"

subsection \<open>Enqueue, list, run now\<close>

definition KINDS :: "string list" where
  "KINDS = map snd SLOT_KIND"

definition enqueue_job ::
  "(string \<Rightarrow> string) \<Rightarrow> instant \<Rightarrow> dict \<Rightarrow> dict \<Rightarrow> queue \<Rightarrow> py_error + slot_result \<times> queue" where
  "enqueue_job sha now cfg body q =
     (let kind = strip (text_or_empty (py_or (dget body ''kind'') (dget body ''slot''))) in
      if kind \<notin> set KINDS \<and> kind \<notin> set SLOT_NAMES then Inl (HTTPException 400 (''unknown kind: '' @ repr_str kind))
      else
        let slot = (if kind \<in> set SLOT_NAMES then kind
                    else the (map_of (map (\<lambda>(s, k). (k, s)) SLOT_KIND) kind))
        in bind_err (dict_of (dget body ''payload'')) (\<lambda>payload. enqueue_slot sha now slot cfg payload q))"

definition status_text :: "jstatus \<Rightarrow> string" where
  "status_text st = (case st of Pending \<Rightarrow> ''pending'' | Running \<Rightarrow> ''running'' | Done \<Rightarrow> ''done'' | Failed \<Rightarrow> ''failed'')"

definition list_jobs :: "string option \<Rightarrow> string option \<Rightarrow> nat \<Rightarrow> queue \<Rightarrow> job list" where
  "list_jobs status kind limit q =
     take limit (sort_key (\<lambda>j. - jid j)
       (filter (\<lambda>j. (the_text status = [] \<or> status_text (jstat j) = the_text status) \<and>
                    (the_text kind = [] \<or> jkind j = the_text kind)) (rows q)))"

record summary =
  n_pending :: nat
  n_running :: nat
  n_done :: nat
  n_failed :: nat

definition count_status :: "jstatus \<Rightarrow> queue \<Rightarrow> nat" where
  "count_status st q = length (filter (\<lambda>j. jstat j = st) (rows q))"

definition queue_summary :: "queue \<Rightarrow> summary" where
  "queue_summary q = \<lparr>n_pending = count_status Pending q, n_running = count_status Running q,
     n_done = count_status Done q, n_failed = count_status Failed q\<rparr>"

definition run_now_row :: "instant \<Rightarrow> job \<Rightarrow> job" where
  "run_now_row now j = j\<lparr>jnot_before := None, jupdated := now\<rparr>"

record run_now_reply =
  rn_job :: int
  rn_kind :: string
  rn_was_not_before :: "string option"

definition run_job_now ::
  "zones \<Rightarrow> dict \<Rightarrow> instant \<Rightarrow> int \<Rightarrow> bool \<Rightarrow> queue \<Rightarrow> py_error + run_now_reply \<times> queue" where
  "run_job_now zs cfg now job_id force q =
     (case look q job_id of
        None \<Rightarrow> Inl (HTTPException 404 (''job '' @ show_int job_id @ '' not found''))
      | Some j \<Rightarrow>
          if jstat j \<noteq> Pending then
            Inl (HTTPException 409 (''job '' @ show_int job_id @ '' is '' @ status_text (jstat j) @
              '', only a pending job can run now''))
          else if jcategory j = Some ''throttled'' \<and> \<not> force \<and>
              (case jnot_before j of None \<Rightarrow> False | Some nb \<Rightarrow> nb > now) then
            bind_err (resolve_zone zs (schedule_timezone cfg)) (\<lambda>z.
            Inl (HTTPException 409 (''IB throttled this token; a request before '' @
              fmt_local z (schedule_timezone cfg) (jnot_before j) @ '' fails again (force=true overrides)'')))
          else
            Inr (\<lparr>rn_job = job_id, rn_kind = jkind j, rn_was_not_before = map_option iso_z_of (jnot_before j)\<rparr>,
                 update_where (\<lambda>r. jid r = job_id \<and> jstat r = Pending) (run_now_row now) q))"

subsection \<open>Manual runs\<close>

definition KIND_TO_JOB :: "(string \<times> string) list" where
  "KIND_TO_JOB = [(''trades'', ''flex-trades''), (''transactions'', ''flex-transactions'')]"

text \<open>Which of the audit's writes go through: the row at the start, its outcome, the freshness row. A failure of any of them is logged and
  the run goes on; each write is committed by itself.\<close>

record audit_db =
  db_start :: bool
  db_settle :: bool
  db_fresh :: bool

definition audit_start :: "bool \<Rightarrow> instant \<Rightarrow> string \<Rightarrow> dict \<Rightarrow> queue \<Rightarrow> int option \<times> queue" where
  "audit_start db_ok now job_kind payload q =
     (if \<not> db_ok then (None, q)
      else (case insert_manual_job now job_kind payload q of Inl _ \<Rightarrow> (None, q) | Inr (i, q') \<Rightarrow> (Some i, q')))"

definition AUDIT_KEYS :: "string list" where
  "AUDIT_KEYS = [''count'', ''message'', ''range_from'', ''range_to'', ''data_from'', ''data_to'', ''per_query'', ''errors'']"

record verdict =
  v_ok :: bool
  v_processed :: int
  v_error :: "string option"

definition audit_verdict :: "dict \<Rightarrow> py_error + verdict" where
  "audit_verdict result =
     bind_err (py_iter (py_or (dget result ''errors'') (PList []))) (\<lambda>es.
     let errors = nonblank_texts es;
         ok = (truthy (dget result ''ok'') \<and> errors = [])
     in bind_err (py_int (py_or (py_or (dget result ''count'') (dget result ''inserted'')) (PInt 0))) (\<lambda>processed.
        Inr \<lparr>v_ok = ok, v_processed = processed,
             v_error = (if ok then None
               else Some (if truthy (dget result ''error'') then py_str (dget result ''error'')
                          else if join ''; '' errors \<noteq> [] then join ''; '' errors else ''manual run failed''))\<rparr>))"

definition audit_finish ::
  "audit_db \<Rightarrow> instant \<Rightarrow> string \<Rightarrow> int option \<Rightarrow> dict \<Rightarrow> queue \<times> freshness_table \<Rightarrow> py_error + queue \<times> freshness_table" where
  "audit_finish db now job_kind job_id result st =
     bind_err (audit_verdict result) (\<lambda>v.
     case st of (q, fresh) \<Rightarrow>
       if job_id \<noteq> None \<and> \<not> db_settle db then Inr (q, fresh)
       else
         let q' = (case job_id of
               None \<Rightarrow> q
             | Some i \<Rightarrow>
                 if v_ok v then
                   mark_done i [(''inserted'', PInt (v_processed v)), (''ok'', PBool True),
                     (''result'', PDict (map (\<lambda>k. (k, dget result k)) (filter (dhas result) AUDIT_KEYS)))] now q
                 else mark_failed i (the_text (v_error v))
                        (Some (category_value (classify_flex_error (the_text (v_error v))))) now q)
         in Inr (q', if db_fresh db then record_freshness now job_kind (v_ok v) (v_processed v) None (v_error v) job_id fresh
                     else fresh))"

text \<open>The request before the fetch: which kind, the configuration and the payload the orchestration is given, and the audit row.
  \<open>core\<close> is what \<open>core_config(load_config())\<close> gives or raises.\<close>

definition trigger_start ::
  "audit_db \<Rightarrow> instant \<Rightarrow> py_error + dict \<Rightarrow> dict \<Rightarrow> queue \<Rightarrow> py_error + (string \<times> dict \<times> dict \<times> int option) \<times> queue" where
  "trigger_start db now core body q =
     (let kind = strip (if dhas body ''kind'' then py_str (dget body ''kind'') else ''trades'');
          payload = setdefault (filter (\<lambda>(k, _). k \<noteq> ''kind'') body) ''fallback'' (PBool False)
      in (case map_of KIND_TO_JOB kind of
            None \<Rightarrow> Inl (HTTPException 400 (''unsupported kind: '' @ repr_str kind @ '' (use 'trades' or 'transactions')''))
          | Some job_kind \<Rightarrow>
              bind_err core (\<lambda>core_cfg.
              case audit_start (db_start db) now job_kind (dmerge [(''source'', PStr ''trigger'')] payload) q of
                 (i, q') \<Rightarrow> Inr ((job_kind, core_cfg, payload, i), q'))))"

text \<open>The end of both endpoints on what the orchestration returned. An exception of the orchestration, or of reading its answer, leaves
  the request with the audit row as it is.\<close>

definition manual_reply ::
  "audit_db \<Rightarrow> instant \<Rightarrow> string \<Rightarrow> int option \<Rightarrow> py_error + dict \<Rightarrow> queue \<times> freshness_table
     \<Rightarrow> (py_error + dict) \<times> queue \<times> freshness_table" where
  "manual_reply db later job_kind i outcome st =
     (case outcome of
        Inl e \<Rightarrow> (Inl e, st)
      | Inr result \<Rightarrow>
          (case audit_finish db later job_kind i result st of
             Inl e \<Rightarrow> (Inl e, st)
           | Inr st' \<Rightarrow> (Inr (dset result ''job_id'' (case i of None \<Rightarrow> PNone | Some n \<Rightarrow> PInt n)), st')))"

text \<open>The orchestrations are \<open>orch\<close>, of the job's kind, the core configuration and the payload, and \<open>orch_xml\<close>.\<close>

definition trigger_flex_fetch ::
  "audit_db \<Rightarrow> instant \<Rightarrow> instant \<Rightarrow> py_error + dict \<Rightarrow> (string \<Rightarrow> dict \<Rightarrow> dict \<Rightarrow> py_error + dict) \<Rightarrow> dict
     \<Rightarrow> queue \<times> freshness_table \<Rightarrow> (py_error + dict) \<times> queue \<times> freshness_table" where
  "trigger_flex_fetch db now later core orch body st =
     (case st of (q, fresh) \<Rightarrow>
        (case trigger_start db now core body q of
           Inl e \<Rightarrow> (Inl e, st)
         | Inr ((job_kind, core_cfg, payload, i), q') \<Rightarrow>
             manual_reply db later job_kind i (orch job_kind core_cfg payload) (q', fresh)))"

definition upload_flex_xml ::
  "audit_db \<Rightarrow> instant \<Rightarrow> instant \<Rightarrow> py_error + dict \<Rightarrow> (dict \<Rightarrow> string \<Rightarrow> py_error + dict) \<Rightarrow> dict
     \<Rightarrow> queue \<times> freshness_table \<Rightarrow> (py_error + dict) \<times> queue \<times> freshness_table" where
  "upload_flex_xml db now later core orch_xml body st =
     (case st of (q, fresh) \<Rightarrow>
        let xml_str = strip (text_or_empty (dget body ''xml'')) in
        if xml_str = [] then (Inl (HTTPException 400 ''Missing 'xml' field in request body''), st)
        else (case core of
            Inl e \<Rightarrow> (Inl e, st)
          | Inr core_cfg \<Rightarrow>
              let (i, q') = audit_start (db_start db) now ''flex-trades''
                   [(''source'', PStr ''upload-xml''), (''bytes'', PInt (int (length xml_str)))] q
              in manual_reply db later ''flex-trades'' i (orch_xml core_cfg xml_str) (q', fresh)))"

subsection \<open>Properties\<close>

lemma audit_start_off [simp]: "audit_start False now kind payload q = (None, q)"
  by (simp add: audit_start_def)

lemma audit_start_new:
  assumes "wf_queue q" "audit_start True now kind payload q = (io, q1)" "strip kind = kind" "kind \<noteq> []"
  obtains i j where "io = Some i" "look q i = None" "look q1 = (look q)(i \<mapsto> j)" "jkind j = kind" "jhash j = None" "jstat j = Running"
proof -
  from assms(2-4) obtain i where i: "io = Some i" "insert_manual_job now kind payload q = Inr (i, q1)"
    by (auto simp: audit_start_def insert_manual_job_eq)
  have "look q i = None"
    using look_insert_manual_job [OF assms(1) i(2)] look_unused next_id_unused [OF assms(1)] by simp
  with that i look_insert_manual_job [OF assms(1) i(2)] assms(3) show thesis by (fastforce simp: new_job_def)
qed

lemma job_kinds: "map_of KIND_TO_JOB kind = Some k \<Longrightarrow> strip k = k \<and> k \<noteq> []" "strip ''flex-trades'' = ''flex-trades''"
proof -
  have "list_all (\<lambda>(_, k). strip k = k \<and> k \<noteq> []) KIND_TO_JOB" by code_simp
  then show "map_of KIND_TO_JOB kind = Some k \<Longrightarrow> strip k = k \<and> k \<noteq> []"
    by (auto simp: list_all_iff dest: map_of_SomeD)
  show "strip ''flex-trades'' = ''flex-trades''" by code_simp
qed

text \<open>Either endpoint refuses the request, or it ends in \<open>manual_reply\<close> on the state \<open>audit_start\<close> left.\<close>

lemma manual_cases:
  assumes "trigger_flex_fetch db now later core orch body (q, fresh) = (res, q', fresh') \<or>
      upload_flex_xml db now later core orch_xml body (q, fresh) = (res, q', fresh')"
  obtains (refused) e where "res = Inl e" "q' = q" "fresh' = fresh"
  | (run) kind payload i q1 outcome where "audit_start (db_start db) now kind payload q = (i, q1)" "strip kind = kind" "kind \<noteq> []"
      "manual_reply db later kind i outcome (q1, fresh) = (res, q', fresh')"
  using assms(1)
proof
  assume "trigger_flex_fetch db now later core orch body (q, fresh) = (res, q', fresh')"
  then show thesis using that job_kinds(1)
    by (auto simp: trigger_flex_fetch_def trigger_start_def Let_def bind_err_def split: option.splits sum.splits prod.splits)
next
  assume "upload_flex_xml db now later core orch_xml body (q, fresh) = (res, q', fresh')"
  then show thesis using that job_kinds(2)
    by (auto simp: upload_flex_xml_def Let_def split: if_splits sum.splits prod.splits)
qed

lemma audit_verdict_ok:
  assumes "audit_verdict result = Inr v" "dget result ''errors'' = PList es \<or> dget result ''errors'' = PNone \<and> es = []"
  shows "v_ok v \<longleftrightarrow> truthy (dget result ''ok'') \<and> (\<forall>x \<in> set es. strip (py_str x) = [])"
proof -
  have "py_iter (py_or (dget result ''errors'') (PList [])) = Inr es"
    using assms(2) by (auto simp: py_or_def py_iter_def)
  with assms(1) show ?thesis
    by (auto simp: audit_verdict_def Let_def bind_err_eq_Inr nonblank_texts_def filter_empty_conv)
qed

lemma audit_finish_row:
  assumes "audit_finish db later kind (Some i) result (q, fresh) = Inr (q', fresh')" "look q i = Some j"
  obtains (kept) "\<not> db_settle db" "q' = q" "fresh' = fresh"
  | (recorded) v j' where "db_settle db" "audit_verdict result = Inr v" "look q' = (look q)(i \<mapsto> j')" "settled j'" "jstat j' = Done \<longleftrightarrow> v_ok v"
      "jkind j' = jkind j" "jhash j' = jhash j"
      "fresh' = (if db_fresh db then record_freshness later kind (v_ok v) (v_processed v) None (v_error v) (Some i) fresh else fresh)"
proof -
  from assms(1) obtain v where v: "audit_verdict result = Inr v" by (auto simp: audit_finish_def bind_err_eq_Inr)
  have d: "look (mark_done i r later q) = (look q)(i \<mapsto> done_row r later j)"
    "look (mark_failed i e c later q) = (look q)(i \<mapsto> failed_row e c later j)" for r e c
    using assms(2) by (auto simp: look_mark_done look_mark_failed)
  show thesis
  proof (cases "db_settle db")
    case False
    with assms(1) v kept show ?thesis by (auto simp: audit_finish_def)
  next
    case True
    show ?thesis
    proof (cases "v_ok v")
      case ok: True
      with True assms(1) v obtain r where "q' = mark_done i r later q" by (auto simp: audit_finish_def Let_def)
      with True ok assms(1) v d recorded [of v "done_row r later j"] show ?thesis
        by (auto simp: audit_finish_def Let_def settled_def) (auto simp: done_row_def)
    next
      case bad: False
      with True assms(1) v obtain e c where "q' = mark_failed i e c later q" by (auto simp: audit_finish_def Let_def)
      with True bad assms(1) v d recorded [of v "failed_row e c later j"] show ?thesis
        by (auto simp: audit_finish_def Let_def settled_def) (auto simp: failed_row_def)
    qed
  qed
qed

text \<open>C14: A manual run leaves the same trail as a queued one. When a triggered fetch or an upload answers and every write of the audit goes
  through, there is exactly one new row, the answer names it, it is done when the answer is ok without a per-account
  error and failed otherwise, and the kind's freshness row names that job with its outcome. Writes that fail take nothing else with
  them: without the first one no row changes and the answer names no job; when the outcome cannot be written the row stays running and
  the freshness table as it was. When the run raises, its row - if there is one - stays running, and nothing else has changed.\<close>

theorem manual_run_recorded:
  assumes "wf_queue q"
    and "trigger_flex_fetch db now later core orch body (q, fresh) = (res, q', fresh') \<or>
      upload_flex_xml db now later core orch_xml body (q, fresh) = (res, q', fresh')"
  shows "case res of
      Inl e \<Rightarrow> fresh' = fresh \<and> (q' = q \<or> (\<exists>i j. look q i = None \<and> look q' = (look q)(i \<mapsto> j) \<and> jstat j = Running \<and> jhash j = None))
    | Inr reply \<Rightarrow>
        if \<not> db_start db then q' = q \<and> dget reply ''job_id'' = PNone
        else \<exists>i j. look q i = None \<and> look q' = (look q)(i \<mapsto> j) \<and> jhash j = None \<and> dget reply ''job_id'' = PInt i \<and>
          (if \<not> db_settle db then jstat j = Running \<and> fresh' = fresh
           else settled j \<and>
             (\<forall>es. dget reply ''errors'' = PList es \<or> dget reply ''errors'' = PNone \<and> es = [] \<longrightarrow>
               (jstat j = Done \<longleftrightarrow> truthy (dget reply ''ok'') \<and> (\<forall>x \<in> set es. strip (py_str x) = []))) \<and>
             (if db_fresh db then \<exists>f. find_dim fresh' (jkind j) = Some f \<and> last_job_id f = Some i \<and> last_ok f = Some (jstat j = Done)
              else fresh' = fresh))"
  using assms(2)
proof (cases rule: manual_cases)
  case (refused e)
  then show ?thesis by simp
next
  case (run kind payload io q1 outcome)
  show ?thesis
  proof (cases "db_start db")
    case False
    with run(1) have "io = None" "q1 = q" by simp_all
    with run(4) False show ?thesis
      by (auto simp: manual_reply_def audit_finish_def bind_err_def split: sum.splits)
  next
    case True
    with run(1) have "audit_start True now kind payload q = (io, q1)" by simp
    then obtain i j where i: "io = Some i" "look q i = None" "look q1 = (look q)(i \<mapsto> j)" "jkind j = kind" "jhash j = None" "jstat j = Running"
      using audit_start_new [OF assms(1) _ run(2,3)] by metis
    show ?thesis
    proof (cases res)
      case (Inl e)
      with run(4) have "q' = q1" "fresh' = fresh" by (auto simp: manual_reply_def split: sum.splits)
      with Inl i show ?thesis by auto
    next
      case (Inr reply)
      with run(4) i(1) obtain result where f: "audit_finish db later kind (Some i) result (q1, fresh) = Inr (q', fresh')"
        and r: "reply = dset result ''job_id'' (PInt i)" by (auto simp: manual_reply_def split: sum.splits)
      have g: "dget reply ''job_id'' = PInt i" "dget reply ''errors'' = dget result ''errors''" "dget reply ''ok'' = dget result ''ok''"
        by (simp_all add: r)
      have l: "look q1 i = Some j" using i(3) by simp
      from f l show ?thesis
      proof (cases rule: audit_finish_row)
        case kept
        with True i g show ?thesis
          unfolding Inr sum.case by (simp only: not_True_eq_False if_False) (intro exI [of _ i] exI [of _ j], simp)
      next
        case (recorded v j')
        have "\<exists>f. find_dim fresh' kind = Some f \<and> last_job_id f = Some i \<and> last_ok f = Some (v_ok v)" if "db_fresh db"
          using recorded(8) that by (auto simp: find_dim_record Let_def)
        with recorded True i g audit_verdict_ok [OF recorded(2)] show ?thesis
          unfolding Inr sum.case by (simp only: not_True_eq_False if_False) (intro exI [of _ i] exI [of _ j'], simp)
      qed
    qed
  qed
qed

theorem manual_run_recorded_witness:
  "\<exists>reply q' fresh' i j. trigger_flex_fetch \<lparr>db_start = True, db_settle = True, db_fresh = True\<rparr> 0 5 (Inr [])
       (\<lambda>_ _ _. Inr [(''ok'', PBool True), (''count'', PInt 2)]) [] (empty_queue, []) =
      (Inr reply, q', fresh') \<and> look q' i = Some j \<and> jstat j = Done"
proof -
  let ?f = "trigger_flex_fetch \<lparr>db_start = True, db_settle = True, db_fresh = True\<rparr> 0 5 (Inr [])
    (\<lambda>_ _ _. Inr [(''ok'', PBool True), (''count'', PInt 2)]) [] (empty_queue, [])"
  have n: "strip ''trades'' = ''trades''" by code_simp
  obtain reply q' fresh' where r: "?f = (Inr reply, q', fresh')" "dget reply ''ok'' = PBool True" "dget reply ''errors'' = PNone"
    by (auto simp: trigger_flex_fetch_def trigger_start_def n job_kinds(2) KIND_TO_JOB_def audit_start_def insert_manual_job_eq
        manual_reply_def audit_finish_def audit_verdict_def py_iter_def py_or_def nonblank_texts_def py_int_def Let_def)
  have "wf_queue empty_queue" by (simp add: wf_queue_def empty_queue_def unique_active_def)
  from manual_run_recorded [OF this disjI1 [OF r(1)]] r show ?thesis by fastforce
qed

text \<open>C18: A write is let in exactly when no token is configured, when the request carries the token - in its own header up to
  surrounding blanks, or, if that header is missing or blank, as a bearer in any spelling of the scheme - or when it comes through the gateway,
  whose header is 1. Everything else is refused with 401. The check for configuration writes differs in one case: with no token
  configured only the gateway is let in.\<close>

theorem write_token_required:
  "require_write_token token x authorization gateway =
     (if token = [] \<or>
         (\<exists>s. x = Some s \<and> strip s = token) \<or>
         (x = None \<or> (\<exists>s. x = Some s \<and> strip s = [])) \<and>
           (\<exists>scheme rest. authorization = Some (scheme @ rest) \<and> lower scheme = ''bearer '' \<and> strip rest = token) \<or>
         (\<exists>g. gateway = Some g \<and> strip g = ''1'')
      then Inr () else Inl (HTTPException 401 ''invalid write token'')) \<and>
   require_config_write_identity token x authorization gateway =
     (if token \<noteq> [] \<and> require_write_token token x authorization gateway = Inr () \<or> (\<exists>g. gateway = Some g \<and> strip g = ''1'')
      then Inr () else Inl (HTTPException 401 ''invalid write token''))"
proof -
  have bearer: "auth \<noteq> [] \<and> prefix ''bearer '' (lower auth) \<and> strip (drop 7 auth) = token \<longleftrightarrow>
      (\<exists>scheme rest. auth = scheme @ rest \<and> lower scheme = ''bearer '' \<and> strip rest = token)" for auth
  proof
    assume a: "auth \<noteq> [] \<and> prefix ''bearer '' (lower auth) \<and> strip (drop 7 auth) = token"
    then have "lower (take 7 auth) = ''bearer ''"
      by (auto simp: prefix_def lower_def take_map [symmetric])
    with a show "\<exists>scheme rest. auth = scheme @ rest \<and> lower scheme = ''bearer '' \<and> strip rest = token"
      by (intro exI [of _ "take 7 auth"] exI [of _ "drop 7 auth"]) simp
  next
    assume "\<exists>scheme rest. auth = scheme @ rest \<and> lower scheme = ''bearer '' \<and> strip rest = token"
    then obtain scheme rest where a: "auth = scheme @ rest" "lower scheme = ''bearer ''" "strip rest = token" by blast
    have "length scheme = 7" using arg_cong [OF a(2), of length] by (simp add: lower_def)
    with a show "auth \<noteq> [] \<and> prefix ''bearer '' (lower auth) \<and> strip (drop 7 auth) = token"
      by (auto simp: lower_def prefix_def)
  qed
  have named: "write_token_from_headers x authorization = token \<longleftrightarrow> (\<exists>s. x = Some s \<and> strip s = token) \<or>
      (x = None \<or> (\<exists>s. x = Some s \<and> strip s = [])) \<and>
        (\<exists>scheme rest. authorization = Some (scheme @ rest) \<and> lower scheme = ''bearer '' \<and> strip rest = token)" if "token \<noteq> []"
    using that bearer [of "the_text authorization"]
    by (cases x; cases authorization) (auto simp: write_token_from_headers_def Let_def)
  have gw: "from_gateway gateway \<longleftrightarrow> (\<exists>g. gateway = Some g \<and> strip g = ''1'')"
    by (cases gateway) (auto simp: from_gateway_def)
  show ?thesis
    unfolding gw [symmetric]
    by (cases "token = []") (auto simp: require_write_token_def require_config_write_identity_def named)
qed

theorem write_token_required_witness:
  "require_write_token ''s3cret'' None (Some ''Bearer s3cret'') None = Inr () \<and>
   require_write_token ''s3cret'' (Some ''nope'') (Some ''Bearer s3cret'') (Some ''0'') = Inl (HTTPException 401 ''invalid write token'')"
proof -
  have n: "lower ''Bearer '' = ''bearer ''" "strip ''s3cret'' = ''s3cret''" "strip ''nope'' = ''nope''" "strip ''0'' = ''0''"
    by code_simp+
  have "''Bearer s3cret'' = ''Bearer '' @ ''s3cret''" by simp
  with n have "\<exists>scheme rest. Some ''Bearer s3cret'' = Some (scheme @ rest) \<and> lower scheme = ''bearer '' \<and> strip rest = ''s3cret''"
    by blast
  then have "require_write_token ''s3cret'' None (Some ''Bearer s3cret'') None = Inr ()"
    by (subst write_token_required [THEN conjunct1]) (simp only: if_True simp_thms option.simps)
  moreover have "require_write_token ''s3cret'' (Some ''nope'') (Some ''Bearer s3cret'') (Some ''0'') = Inl (HTTPException 401 ''invalid write token'')"
    by (subst write_token_required [THEN conjunct1]) (simp add: n)
  ultimately show ?thesis ..
qed

end
