(* ===== verification/System_Run.thy ===== *)
theory System_Run
  imports Ingest_Api
begin

text \<open>
  The whole system: one worker (the deployment runs one replica, replaced and never doubled), the API's
  writers and the command line, interleaved in any order on one queue. \<open>life\<close> is the specification of
  a job's life - waiting, claimed, sent back, settled - and the refinement lemmas show that every
  operation of the model is a sequence of its transitions on every row. The invariant of the step
  relation, and what follows from it for attempts, settled jobs and lost jobs, is proved over it.
\<close>

subsection \<open>The life of a job\<close>

definition budget :: "job \<Rightarrow> int" where
  "budget j = max 1 (effective_max (jmax j))"

definition same_job :: "job \<Rightarrow> job \<Rightarrow> bool" where
  "same_job j j' \<longleftrightarrow> jid j' = jid j \<and> jkind j' = jkind j \<and> jpayload j' = jpayload j \<and> jhash j' = jhash j \<and>
     jpriority j' = jpriority j \<and> jmax j' = jmax j \<and> jcreated j' = jcreated j"

inductive life :: "job \<Rightarrow> job \<Rightarrow> bool" where
  wait: "same_job j j' \<Longrightarrow> jstat j = Pending \<Longrightarrow> jstat j' = Pending \<Longrightarrow> jattempts j' = jattempts j \<Longrightarrow> life j j'"
| claim: "same_job j j' \<Longrightarrow> jstat j = Pending \<Longrightarrow> jstat j' = Running \<Longrightarrow> jattempts j' = jattempts j + 1 \<Longrightarrow> life j j'"
| retry: "same_job j j' \<Longrightarrow> jstat j = Running \<Longrightarrow> jstat j' = Pending \<Longrightarrow> jattempts j' = jattempts j \<Longrightarrow>
    jattempts j < budget j \<Longrightarrow> jhash j \<noteq> None \<Longrightarrow> life j j'"
| settle: "same_job j j' \<Longrightarrow> jstat j = Running \<Longrightarrow> settled j' \<Longrightarrow> jattempts j' = jattempts j \<Longrightarrow> life j j'"
| audit: "same_job j j' \<Longrightarrow> jhash j = None \<Longrightarrow> settled j \<Longrightarrow> settled j' \<Longrightarrow> jattempts j' = jattempts j \<Longrightarrow> life j j'"

inductive_cases lifeE: "life j j'"

text \<open>A row as it is inserted: a pending job with an identity, or the running row of a manual call.\<close>

definition born :: "job \<Rightarrow> bool" where
  "born j \<longleftrightarrow> smallint (jmax j) \<and>
     (jstat j = Pending \<and> jattempts j = 0 \<and> jhash j \<noteq> None \<or>
      jstat j = Running \<and> jattempts j = 1 \<and> jmax j = 1 \<and> jhash j = None)"

definition row_ok :: "job \<Rightarrow> bool" where
  "row_ok j \<longleftrightarrow> 0 \<le> jattempts j \<and> jattempts j \<le> budget j \<and> smallint (jmax j) \<and>
     (jstat j = Pending \<longrightarrow> jattempts j < budget j \<and> jhash j \<noteq> None) \<and>
     (jhash j = None \<longrightarrow> jattempts j = 1 \<and> jmax j = 1)"

definition evolves :: "queue \<Rightarrow> queue \<Rightarrow> bool" where
  "evolves q q' \<longleftrightarrow>
     (\<forall>i j. look q i = Some j \<longrightarrow> (\<exists>j'. look q' i = Some j' \<and> life\<^sup>*\<^sup>* j j')) \<and>
     (\<forall>i j'. look q i = None \<longrightarrow> look q' i = Some j' \<longrightarrow> (\<exists>b. born b \<and> life\<^sup>*\<^sup>* b j'))"

lemma same_job_refl [simp]: "same_job j j"
  by (simp add: same_job_def)

lemma same_job_trans: "same_job a b \<Longrightarrow> same_job b c \<Longrightarrow> same_job a c"
  by (simp add: same_job_def)


lemma life_same: "life j j' \<Longrightarrow> same_job j j'"
  by (elim lifeE)

lemma lives_same: "life\<^sup>*\<^sup>* j j' \<Longrightarrow> same_job j j'"
  by (induction rule: rtranclp_induct) (auto intro: same_job_trans life_same)

lemma row_ok_life: "life j j' \<Longrightarrow> row_ok j \<Longrightarrow> row_ok j'"
  by (elim lifeE) (auto simp: row_ok_def same_job_def budget_def settled_def)

lemma row_ok_lives: "life\<^sup>*\<^sup>* j j' \<Longrightarrow> row_ok j \<Longrightarrow> row_ok j'"
  by (induction rule: rtranclp_induct) (auto intro: row_ok_life)

lemma row_ok_born: "born j \<Longrightarrow> row_ok j"
  by (auto simp: born_def row_ok_def budget_def effective_max_def)

lemma evolves_refl [simp]: "evolves q q"
  by (auto simp: evolves_def)

lemma evolves_trans: "evolves a b \<Longrightarrow> evolves b c \<Longrightarrow> evolves a c"
proof -
  assume ab: "evolves a b" and bc: "evolves b c"
  have "\<exists>j'. look c i = Some j' \<and> life\<^sup>*\<^sup>* j j'" if "look a i = Some j" for i j
    using that ab bc unfolding evolves_def by (meson rtranclp_trans)
  moreover have "\<exists>x. born x \<and> life\<^sup>*\<^sup>* x j'" if "look a i = None" "look c i = Some j'" for i j'
  proof (cases "look b i")
    case None
    with that(2) bc show ?thesis unfolding evolves_def by blast
  next
    case (Some k)
    with that(1) ab obtain x where "born x" "life\<^sup>*\<^sup>* x k" unfolding evolves_def by blast
    moreover from Some bc that(2) have "life\<^sup>*\<^sup>* k j'" unfolding evolves_def by fastforce
    ultimately show ?thesis by (meson rtranclp_trans)
  qed
  ultimately show ?thesis unfolding evolves_def by blast
qed

lemma evolves_row_ok: "evolves q q' \<Longrightarrow> jq.all_rows row_ok q \<Longrightarrow> jq.all_rows row_ok q'"
  unfolding evolves_def jq.all_rows_def
  by (metis (no_types, lifting) not_Some_eq option.inject row_ok_born row_ok_lives)

lemma evolves_same_look: "look q' = look q \<Longrightarrow> evolves q q'"
  by (auto simp: evolves_def)

text \<open>An update of single rows, and an insert, as evolutions.\<close>

lemma evolves_update:
  assumes "\<And>i. look q' i = map_option (g i) (look q i)"
    and "\<And>i j. look q i = Some j \<Longrightarrow> life\<^sup>*\<^sup>* j (g i j)"
  shows "evolves q q'"
  using assms by (auto simp: evolves_def)

lemma evolves_one:
  "look q i = Some j \<Longrightarrow> look q' = (look q)(i \<mapsto> j') \<Longrightarrow> life j j' \<Longrightarrow> evolves q q'"
  by (auto simp: evolves_def)

lemma evolves_insert:
  "look q' = (look q)(i \<mapsto> j) \<Longrightarrow> look q i = None \<Longrightarrow> born j \<Longrightarrow> evolves q q'"
  by (auto simp: evolves_def split: if_splits)

subsection \<open>Every operation refines the life of a job\<close>

lemma row_update_same [simp]:
  "same_job j (claim_row now j)" "same_job j (reclaim_row now sec d j)" "same_job j (done_row r now j)"
  "same_job j (retry_row e c d now j)" "same_job j (failed_row e oc now j)" "same_job j (defer_row d now j)"
  "same_job j (run_now_row now j)"
  by (simp_all add: same_job_def claim_row_def reclaim_row_def done_row_def retry_row_def failed_row_def
      defer_row_def run_now_row_def Let_def)

lemma evolves_claim:
  assumes "wf_queue q" "claim_next locked now q = Inr (oc, q')"
  shows "evolves q q'"
proof (cases oc)
  case None
  with assms(2) have "q' = q" by (auto simp: claim_next_def split: option.splits if_splits)
  then show ?thesis by simp
next
  case (Some c)
  obtain j where j: "look q (cid c) = Some j" "runnable now j" "look q' = (look q)(cid c \<mapsto> claim_row now j)"
    using look_claim [OF assms(1) assms(2) [unfolded Some]] by blast
  then have "life j (claim_row now j)"
    by (intro life.claim) (simp_all add: runnable_def, simp_all add: claim_row_def)
  with j show ?thesis by (blast intro: evolves_one)
qed

lemma evolves_reclaim:
  assumes "jq.all_rows row_ok q"
  shows "evolves q (snd (reclaim_stale_running st rq now q))"
proof (rule evolves_update [OF look_reclaim])
  fix i j
  assume "look q i = Some j"
  then have ok: "row_ok j" using assms jq.all_rowsD by blast
  let ?r = "reclaim_row now (max 60 st) (max 0 rq) j"
  have "life j ?r" if run: "jstat j = Running"
  proof (cases "jattempts j < jmax j")
    case True
    then have "jattempts j < budget j" "jhash j \<noteq> None"
      using ok by (auto simp: row_ok_def budget_def effective_max_def)
    with True run show ?thesis by (intro life.retry) (simp_all add: reclaim_row_def same_job_def Let_def)
  next
    case False
    with run show ?thesis by (intro life.settle) (simp_all add: reclaim_row_def same_job_def settled_def Let_def)
  qed
  then show "life\<^sup>*\<^sup>* j (if stale_running now (max 60 st) j then ?r else j)"
    by (auto simp: stale_running_def)
qed

lemma evolves_defer: "evolves q (snd (defer_pending d ex now q))"
  by (rule evolves_update [OF look_defer])
    (auto intro!: r_into_rtranclp life.wait simp: defer_row_def same_job_def)

lemma life_settle:
  assumes "jstat j = Running \<or> jhash j = None \<and> settled j"
    and "same_job j j'" "settled j'" "jattempts j' = jattempts j"
  shows "life j j'"
  using assms life.settle life.audit by blast

lemma evolves_done:
  assumes "look q i = Some j" "jstat j = Running \<or> jhash j = None \<and> settled j"
  shows "evolves q (mark_done i res now q)"
proof (rule evolves_one [OF assms(1)])
  show "look (mark_done i res now q) = (look q)(i \<mapsto> done_row res now j)"
    using assms(1) by (auto simp: look_mark_done)
  show "life j (done_row res now j)"
    by (rule life_settle [OF assms(2)]) (simp_all, simp_all add: done_row_def settled_def)
qed

lemma evolves_failed:
  assumes "look q i = Some j" "jstat j = Running \<or> jhash j = None \<and> settled j"
  shows "evolves q (mark_failed i e c now q)"
proof (rule evolves_one [OF assms(1)])
  show "look (mark_failed i e c now q) = (look q)(i \<mapsto> failed_row e c now j)"
    using assms(1) by (auto simp: look_mark_failed)
  show "life j (failed_row e c now j)"
    by (rule life_settle [OF assms(2)]) (simp_all, simp_all add: failed_row_def settled_def)
qed

lemma evolves_retry:
  assumes "look q i = Some j" "jstat j = Running" "jattempts j < budget j" "jhash j \<noteq> None"
    and "mark_retry i e c d now q = Inr q'"
  shows "evolves q q'"
proof (rule evolves_one [OF assms(1)])
  show "look q' = (look q)(i \<mapsto> retry_row e c d now j)"
    using assms(1) by (auto simp: look_mark_retry [OF assms(5)])
  show "life j (retry_row e c d now j)"
    using assms(2-4) by (intro life.retry) (simp_all, simp_all add: retry_row_def)
qed

lemma run_job_now_Inr:
  "run_job_now zs cfg now i force q = Inr (r, q') \<Longrightarrow>
     q' = update_where (\<lambda>r. jid r = i \<and> jstat r = Pending) (run_now_row now) q"
  by (auto simp: run_job_now_def bind_err_def split: option.splits if_splits sum.splits)

lemma keeps_identity_run_now: "keeps_identity (run_now_row now)"
  by (simp add: keeps_identity_def run_now_row_def del: keeps_identityD)

lemma look_run_now:
  assumes "run_job_now zs cfg now i force q = Inr (r, q')"
  shows "look q' k = map_option (\<lambda>j. if k = i \<and> jstat j = Pending then run_now_row now j else j) (look q k)"
  unfolding run_job_now_Inr [OF assms] using jq.look_key [of q k]
  by (subst jq.look_update) (auto simp: run_now_row_def intro: option.map_cong)

lemma wf_run_now:
  assumes "wf_queue q" "run_job_now zs cfg now i force q = Inr (r, q')"
  shows "wf_queue q'"
  unfolding run_job_now_Inr [OF assms(2)]
  by (rule wf_update_where [OF assms(1) keeps_identity_run_now]) (simp add: active_def run_now_row_def)

lemma evolves_run_now:
  assumes "run_job_now zs cfg now i force q = Inr (r, q')"
  shows "evolves q q'"
  by (rule evolves_update [where g = "\<lambda>k j. if k = i \<and> jstat j = Pending then run_now_row now j else j"])
    (auto simp: look_run_now [OF assms] run_now_row_def same_job_def intro!: r_into_rtranclp life.wait)

lemma next_id_free: "wf_queue q \<Longrightarrow> look q (next_id q) = None"
  by (simp add: look_unused next_id_unused)

lemma evolves_enqueue:
  assumes "wf_queue q" "enqueue_slot sha now slot cfg p q = Inr (r, q')"
  shows "evolves q q'"
proof (cases "sr_job_id r")
  case None
  with look_enqueue_slot [OF assms] show ?thesis by (simp add: evolves_same_look)
next
  case (Some i)
  from look_enqueue_slot [OF assms] Some obtain prio where i: "i = next_id q" "smallint (sr_max_attempts r)"
    and l: "look q' = (look q)(i \<mapsto> new_job i (sr_kind r) (sr_payload r)
           (Some (payload_hash sha (identity (with_as_of now p)))) prio (sr_max_attempts r) now)" by auto
  show ?thesis
    by (rule evolves_insert [OF l]) (use i next_id_free [OF assms(1)] in \<open>simp_all add: born_def new_job_def\<close>)
qed

lemma evolves_manual:
  assumes "wf_queue q" "insert_manual_job now k b q = Inr (i, q')"
  shows "evolves q q'"
  using look_insert_manual_job [OF assms] next_id_free [OF assms(1)]
  by (intro evolves_insert [of _ _ i]) (auto simp: born_def new_job_def smallint_def)

lemma evolves_missed: "wf_queue q \<Longrightarrow> evolves q (snd (enqueue_missed sha now cfg ms q))"
proof (induction ms arbitrary: q)
  case (Cons m ms)
  show ?case
  proof (cases "enqueue_slot sha now (m_slot m) cfg [(''as_of'', PStr (m_as_of m)), (''catchup'', PBool True)] q")
    case (Inr rq)
    then obtain r q1 where e: "enqueue_slot sha now (m_slot m) cfg
        [(''as_of'', PStr (m_as_of m)), (''catchup'', PBool True)] q = Inr (r, q1)" by (cases rq) auto
    have "evolves q q1" "evolves q1 (snd (enqueue_missed sha now cfg ms q1))"
      using evolves_enqueue [OF Cons.prems e] Cons.IH wf_enqueue_slot [OF Cons.prems e] by auto
    then show ?thesis
      using evolves_trans by (auto simp: e split: prod.splits sum.splits)
  qed simp
qed simp

lemma evolves_catchup: "wf_queue q \<Longrightarrow> evolves q (snd (catchup_missed_slots sha db cfg now grace q))"
  by (auto simp: catchup_missed_slots_def evolves_missed split: sum.splits)

subsection \<open>The interleaved system\<close>

text \<open>What the outside world is: the hash, the zone data, the settings the worker loaded.\<close>

record platform =
  p_sha :: "string \<Rightarrow> string"
  p_tzdb :: tzdb
  p_zones :: zones
  p_settings :: settings

text \<open>A state is the worker's world with the ids of the manual calls in flight. The worker is either
  polling or running the job in hand; it may die and restart at any point, forgetting that job. A manual call may lose any
  of its writes (\<open>started\<close>, \<open>db\<close>), raise after its row was written, or run without a row.\<close>

inductive step :: "platform \<Rightarrow> world \<times> int list \<Rightarrow> world \<times> int list \<Rightarrow> bool" for P where
  poll: "w_job w = None \<Longrightarrow> poll (p_sha P) (p_tzdb P) (p_settings P) locked now w = Inr w' \<Longrightarrow>
    step P (w, ms) (w', ms)"
| run: "w_job w = Some c \<Longrightarrow> now \<le> later \<Longrightarrow> run_job env (p_settings P) now later fresh_conn c w = Inr w' \<Longrightarrow>
    step P (w, ms) (w', ms)"
| restart: "step P (w, ms) (startup (p_settings P) now w, ms)"
| enqueue: "enqueue_job (p_sha P) now cfg body (w_queue w) = Inr (r, q) \<Longrightarrow> step P (w, ms) (w\<lparr>w_queue := q\<rparr>, ms)"
| cli: "main (p_sha P) now connects tokens slot cfg (sch, w_queue w) = (r, (sch', q)) \<Longrightarrow>
    step P (w, ms) (w\<lparr>w_queue := q\<rparr>, ms)"
| run_now: "run_job_now (p_zones P) cfg now i force (w_queue w) = Inr (r, q) \<Longrightarrow> step P (w, ms) (w\<lparr>w_queue := q\<rparr>, ms)"
| manual_start: "audit_start started now kind payload (w_queue w) = (Some i, q) \<Longrightarrow>
    step P (w, ms) (w\<lparr>w_queue := q\<rparr>, i # ms)"
| manual_finish: "i \<in> set ms \<Longrightarrow>
    audit_finish db now kind (Some i) result (w_queue w, w_fresh w) = Inr (q, fresh) \<Longrightarrow>
    step P (w, ms) (w\<lparr>w_queue := q, w_fresh := fresh\<rparr>, remove1 i ms)"
| manual_raised: "i \<in> set ms \<Longrightarrow> step P (w, ms) (w, remove1 i ms)"
| manual_unrecorded: "audit_finish db now kind None result (w_queue w, w_fresh w) = Inr (q, fresh) \<Longrightarrow>
    step P (w, ms) (w\<lparr>w_queue := q, w_fresh := fresh\<rparr>, ms)"

inductive_cases stepE: "step P st st'"

definition holds :: "queue \<Rightarrow> claimed \<Rightarrow> bool" where
  "holds q c \<longleftrightarrow> (\<exists>j. look q (cid c) = Some j \<and> jstat j = Running \<and> jhash j \<noteq> None \<and>
     jattempts j = cattempts c \<and> effective_max (jmax j) = cmax c)"

definition manual_ids :: "queue \<Rightarrow> int list \<Rightarrow> bool" where
  "manual_ids q ms \<longleftrightarrow> (\<forall>i \<in> set ms. \<exists>j. look q i = Some j \<and> jhash j = None)"

definition good :: "world \<times> int list \<Rightarrow> bool" where
  "good st \<longleftrightarrow> (case st of (w, ms) \<Rightarrow>
     wf_queue (w_queue w) \<and> jq.all_rows row_ok (w_queue w) \<and>
     (\<forall>c. w_job w = Some c \<longrightarrow> holds (w_queue w) c) \<and> manual_ids (w_queue w) ms)"

lemma manual_ids_evolves: "evolves q q' \<Longrightarrow> manual_ids q ms \<Longrightarrow> manual_ids q' ms"
  unfolding manual_ids_def evolves_def same_job_def
  by (metis lives_same same_job_def)

lemma manual_row:
  assumes "jq.all_rows row_ok q" "look q i = Some j" "jhash j = None"
  shows "jstat j = Running \<or> jhash j = None \<and> settled j"
  using jq.all_rowsD [OF assms(1,2)] assms(3) by (cases "jstat j") (auto simp: row_ok_def settled_def)

lemma holds_same: "holds q c \<Longrightarrow> (\<And>j. look q (cid c) = Some j \<Longrightarrow> jstat j = Running \<Longrightarrow> jhash j \<noteq> None \<Longrightarrow>
    look q' (cid c) = Some j) \<Longrightarrow> holds q' c"
  unfolding holds_def by metis

subsection \<open>The worker's moves\<close>

lemma heartbeat_now_simps [simp]:
  "w_queue (heartbeat_now s now w) = w_queue w" "w_job (heartbeat_now s now w) = w_job w"
  "w_fresh (heartbeat_now s now w) = w_fresh w" "w_counters (heartbeat_now s now w) = w_counters w"
  by (simp_all add: heartbeat_now_def)

lemma startup_simps [simp]:
  "w_queue (startup s now w) = snd (reclaim_stale_running (s_stale s) (s_requeue s) now (w_queue w))"
  "w_job (startup s now w) = None"
  by (simp_all add: startup_def split: prod.splits)

lemma idle_tick_queue:
  "w_queue (idle_tick sha db s now w) =
     (if w_idle w + 1 < s_reclaim_every s then w_queue w
      else let q1 = snd (reclaim_stale_running (s_stale s) (s_requeue s) now (w_queue w))
           in if s_catchup s then snd (catchup_missed_slots sha db (s_schedule s) now (s_grace s) q1) else q1)"
  "w_job (idle_tick sha db s now w) = w_job w"
  by (auto simp: idle_tick_def Let_def split: prod.splits sum.splits)

lemma idle_tick_evolves:
  assumes "wf_queue (w_queue w)" "jq.all_rows row_ok (w_queue w)"
  shows "evolves (w_queue w) (w_queue (idle_tick sha db s now w))" "wf_queue (w_queue (idle_tick sha db s now w))"
proof -
  let ?q1 = "snd (reclaim_stale_running (s_stale s) (s_requeue s) now (w_queue w))"
  have 1: "evolves (w_queue w) ?q1" "wf_queue ?q1"
    using assms by (simp_all add: evolves_reclaim wf_reclaim)
  have 2: "evolves ?q1 (snd (catchup_missed_slots sha db (s_schedule s) now (s_grace s) ?q1))"
    "wf_queue (snd (catchup_missed_slots sha db (s_schedule s) now (s_grace s) ?q1))"
    using 1(2) by (simp_all add: evolves_catchup wf_catchup)
  from 1 2 assms evolves_trans [OF 1(1) 2(1)]
  show "evolves (w_queue w) (w_queue (idle_tick sha db s now w))" "wf_queue (w_queue (idle_tick sha db s now w))"
    by (simp_all add: idle_tick_queue Let_def)
qed

lemma finish_failed_Inr:
  assumes "finish_failed s now later fc c msg w = Inr w'"
  defines "plan \<equiv> plan_retry (classify_flex_error msg) (cattempts c) (cmax c) (s_policy s)"
  shows "w_job w' = None"
    and "plan_retries plan \<Longrightarrow>
      \<exists>q1. mark_retry (cid c) msg (category_value (plan_category plan)) (delay_sec plan) now (w_queue w) = Inr q1 \<and>
        w_queue w' = (if cooldown_all_sec plan \<noteq> 0
          then snd (defer_pending (cooldown_all_sec plan) (Some (cid c)) later q1) else q1)"
    and "\<not> plan_retries plan \<Longrightarrow>
      w_queue w' = mark_failed (cid c) msg (Some (category_value (plan_category plan))) now (w_queue w)"
  using assms by (auto simp: finish_failed_def Let_def bind_err_eq_Inr split: if_splits prod.splits)

lemma finish_failed_pending:
  assumes "finish_failed s now later fc c msg w = Inr w'" "look (w_queue w) (cid c) = Some j0"
    and "plan_retries (plan_retry (classify_flex_error msg) (cattempts c) (cmax c) (s_policy s))"
  shows "\<exists>j. look (w_queue w') (cid c) = Some j \<and> jstat j = Pending"
proof -
  from finish_failed_Inr(2) [OF assms(1,3)] obtain e k d q1 d' where
    m: "mark_retry (cid c) e k d now (w_queue w) = Inr q1"
    and w': "w_queue w' = (if d' \<noteq> 0 then snd (defer_pending d' (Some (cid c)) later q1) else q1)" by blast
  from look_mark_retry [OF m, of "cid c"] assms(2) have "look q1 (cid c) = Some (retry_row e k d now j0)" by simp
  moreover from this have "jid (retry_row e k d now j0) = cid c" by (rule jq.look_key)
  ultimately show ?thesis unfolding w' by (auto simp: look_defer) (auto simp: retry_row_def)
qed

lemma run_job_cases:
  assumes "run_job env s now later fc c w = Inr w'"
  obtains (finished) res where "w_queue w' = mark_done (cid c) res now (w_queue w)" "w_job w' = None"
  | (failed) e fresh where "fst (dispatch env now (ckind c) (cpayload c) (cid c) (w_fresh w)) = Inl e"
      "finish_failed s now later fc c (exn_text e) (w\<lparr>w_fresh := fresh\<rparr>) = Inr w'"
  using assms by (auto simp: run_job_def finish_done_def split: prod.splits sum.splits)

lemma finish_failed_evolves:
  assumes "wf_queue (w_queue w)" "holds (w_queue w) c" "finish_failed s now later fc c msg w = Inr w'"
  shows "evolves (w_queue w) (w_queue w')" "wf_queue (w_queue w')"
proof -
  let ?plan = "plan_retry (classify_flex_error msg) (cattempts c) (cmax c) (s_policy s)"
  from assms(2) obtain j where j: "look (w_queue w) (cid c) = Some j" "jstat j = Running" "jhash j \<noteq> None"
    "jattempts j = cattempts c" "effective_max (jmax j) = cmax c" by (auto simp: holds_def)
  have "evolves (w_queue w) (w_queue w') \<and> wf_queue (w_queue w')"
  proof (cases "plan_retries ?plan")
    case True
    then have b: "jattempts j < budget j" using j(4,5) by (auto simp: plan_retry_status budget_def)
    from finish_failed_Inr(2) [OF assms(3) True] obtain q1 where
      m: "mark_retry (cid c) msg (category_value (plan_category ?plan)) (delay_sec ?plan) now (w_queue w) = Inr q1"
      and w': "w_queue w' = (if cooldown_all_sec ?plan \<noteq> 0
          then snd (defer_pending (cooldown_all_sec ?plan) (Some (cid c)) later q1) else q1)" by blast
    have "evolves (w_queue w) q1" "wf_queue q1"
      using evolves_retry [OF j(1,2) b j(3) m] wf_mark_retry [OF assms(1) m] by auto
    then show ?thesis
      unfolding w' using evolves_trans [OF _ evolves_defer] wf_defer by auto
  next
    case False
    with finish_failed_Inr(3) [OF assms(3)] j(1,2) assms(1) show ?thesis
      by (auto intro: evolves_failed wf_mark_failed)
  qed
  then show "evolves (w_queue w) (w_queue w')" "wf_queue (w_queue w')" by auto
qed

lemma run_job_evolves:
  assumes "wf_queue (w_queue w)" "holds (w_queue w) c" "run_job env s now later fc c w = Inr w'"
  shows "evolves (w_queue w) (w_queue w')" "wf_queue (w_queue w')" "w_job w' = None"
proof -
  from assms(2) obtain j where j: "look (w_queue w) (cid c) = Some j" "jstat j = Running" by (auto simp: holds_def)
  from assms(3) have "evolves (w_queue w) (w_queue w') \<and> wf_queue (w_queue w') \<and> w_job w' = None"
  proof (cases rule: run_job_cases)
    case (finished res)
    with j assms(1) show ?thesis by (auto intro: evolves_done wf_mark_done)
  next
    case (failed e fresh)
    with finish_failed_evolves [of "w\<lparr>w_fresh := fresh\<rparr>"] finish_failed_Inr(1) [OF failed(2)] assms(1,2)
    show ?thesis by auto
  qed
  then show "evolves (w_queue w) (w_queue w')" "wf_queue (w_queue w')" "w_job w' = None" by auto
qed

subsection \<open>The invariant\<close>

lemma poll_cases:
  assumes "poll sha db s locked now w = Inr w'"
  obtains (idle) "w' = idle_tick sha db s now w"
  | (taken) c q where "claim_next locked now (w_queue w) = Inr (Some c, q)" "w_queue w' = q" "w_job w' = Some c"
  using assms by (auto simp: poll_def bind_err_eq_Inr take_job_def split: option.splits)

lemma claim_holds:
  assumes "wf_queue q" "jq.all_rows row_ok q" "claim_next locked now q = Inr (Some c, q')"
  shows "holds q' c"
proof -
  from look_claim [OF assms(1,3)] obtain j where j: "look q (cid c) = Some j" "runnable now j"
    "c = (row_to_job j)\<lparr>cattempts := jattempts j + 1\<rparr>" "look q' = (look q)(cid c \<mapsto> claim_row now j)" by blast
  from jq.all_rowsD [OF assms(2) j(1)] j show ?thesis
    by (auto simp: holds_def row_ok_def runnable_def row_to_job_def) (simp_all add: claim_row_def)
qed

lemma enqueue_job_slot:
  assumes "enqueue_job sha now cfg body q = Inr (r, q')"
  obtains slot payload where "enqueue_slot sha now slot cfg payload q = Inr (r, q')"
  using assms by (auto simp: enqueue_job_def Let_def bind_err_eq_Inr split: if_splits)

lemma main_queue:
  assumes "main sha now connects tokens slot cfg (sch, q) = (r, (sch', q'))"
  shows "q' = q \<or> (\<exists>res. enqueue_slot sha now slot cfg [] q = Inr (res, q'))"
  using assms by (auto simp: main_def split: if_splits sum.splits prod.splits)

lemma holds_enqueue:
  assumes "wf_queue q" "enqueue_slot sha now slot cfg p q = Inr (r, q')" "holds q c"
  shows "holds q' c"
proof (rule holds_same [OF assms(3)])
  fix j
  assume "look q (cid c) = Some j"
  with look_enqueue_slot [OF assms(1,2)] next_id_free [OF assms(1)] show "look q' (cid c) = Some j"
    by (auto split: option.splits)
qed

lemma good_queue_step:
  assumes "good (w, ms)" "evolves (w_queue w) q" "wf_queue q" "\<And>c. w_job w = Some c \<Longrightarrow> holds q c"
  shows "good (w\<lparr>w_queue := q\<rparr>, ms)"
  using assms evolves_row_ok manual_ids_evolves by (auto simp: good_def)

lemma good_world_step:
  assumes "good (w, ms)" "evolves (w_queue w) (w_queue w')" "wf_queue (w_queue w')"
    "\<And>c. w_job w' = Some c \<Longrightarrow> holds (w_queue w') c"
  shows "good (w', ms)"
  using assms evolves_row_ok manual_ids_evolves by (auto simp: good_def)

lemma good_enqueue:
  assumes "good (w, ms)" "enqueue_slot sha now slot cfg p (w_queue w) = Inr (r, q)"
  shows "good (w\<lparr>w_queue := q\<rparr>, ms) \<and> evolves (w_queue w) q"
proof -
  from assms(1) have "wf_queue (w_queue w)" "\<And>c. w_job w = Some c \<Longrightarrow> holds (w_queue w) c"
    by (auto simp: good_def)
  with assms show ?thesis
    using good_queue_step evolves_enqueue wf_enqueue_slot holds_enqueue by metis
qed

lemma goodD:
  assumes "good (w, ms)"
  shows "wf_queue (w_queue w)" "jq.all_rows row_ok (w_queue w)" "w_job w = Some c \<Longrightarrow> holds (w_queue w) c"
    "manual_ids (w_queue w) ms"
  using assms by (auto simp: good_def)

lemma good_poll:
  assumes "good (w, ms)" "w_job w = None" "poll sha db s locked now w = Inr w'"
  shows "good (w', ms)" "evolves (w_queue w) (w_queue w')"
proof -
  note g = goodD [OF assms(1)]
  from assms(3) have "good (w', ms) \<and> evolves (w_queue w) (w_queue w')"
  proof (cases rule: poll_cases)
    case idle
    with idle_tick_evolves [OF g(1,2)] assms(2) show ?thesis
      by (auto intro!: good_world_step [OF assms(1)] simp: idle_tick_queue(2))
  next
    case (taken c q)
    with evolves_claim [OF g(1)] wf_claim [OF g(1)] claim_holds [OF g(1,2)] show ?thesis
      by (auto intro!: good_world_step [OF assms(1)])
  qed
  then show "good (w', ms)" "evolves (w_queue w) (w_queue w')" by auto
qed

lemma audit_start_Some:
  "audit_start b now kind payload q = (Some i, q') \<Longrightarrow> insert_manual_job now kind payload q = Inr (i, q')"
  by (auto simp: audit_start_def split: if_splits sum.splits prod.splits)

lemma good_manual_start:
  assumes "good (w, ms)" "audit_start b now kind payload (w_queue w) = (Some i, q)"
  shows "good (w\<lparr>w_queue := q\<rparr>, i # ms)" "evolves (w_queue w) q"
proof -
  note g = goodD [OF assms(1)]
  note ins = audit_start_Some [OF assms(2)]
  show ev: "evolves (w_queue w) q" using evolves_manual [OF g(1) ins] .
  note l = look_insert_manual_job [OF g(1) ins]
  have "holds q c" if "w_job w = Some c" for c
    using g(3) [OF that] by (rule holds_same) (use l next_id_free [OF g(1)] in auto)
  then have "good (w\<lparr>w_queue := q\<rparr>, ms)"
    using good_queue_step [OF assms(1) ev] wf_insert_manual_job [OF g(1) ins] by blast
  then show "good (w\<lparr>w_queue := q\<rparr>, i # ms)"
    using l by (auto simp: good_def manual_ids_def new_job_def)
qed

lemma audit_finish_queue:
  assumes "audit_finish db now kind (Some i) result (q, fresh) = Inr (q', fresh')"
  shows "q' = q \<or> (\<exists>res. q' = mark_done i res now q) \<or> (\<exists>e c. q' = mark_failed i e c now q)"
  using assms by (auto simp: audit_finish_def bind_err_eq_Inr Let_def split: if_splits)

lemma good_manual_finish:
  assumes "good (w, ms)" "i \<in> set ms" "audit_finish db now kind (Some i) result (w_queue w, fr) = Inr (q, fresh)"
  shows "good (w\<lparr>w_queue := q, w_fresh := f\<rparr>, remove1 i ms)" "evolves (w_queue w) q"
proof -
  note g = goodD [OF assms(1)]
  from g(4) assms(2) obtain j where j: "look (w_queue w) i = Some j" "jhash j = None" by (auto simp: manual_ids_def)
  note m = manual_row [OF g(2) j]
  have q: "evolves (w_queue w) q \<and> wf_queue q \<and> (\<forall>k. k \<noteq> i \<longrightarrow> look q k = look (w_queue w) k)"
    using audit_finish_queue [OF assms(3)] evolves_done [OF j(1) m] evolves_failed [OF j(1) m] g(1)
    by (auto simp: wf_mark_done wf_mark_failed look_mark_done look_mark_failed)
  then show "evolves (w_queue w) q" by blast
  have "holds q c" if "w_job w = Some c" for c
    using g(3) [OF that] by (rule holds_same) (use q j in \<open>metis option.inject\<close>)
  then have "good (w\<lparr>w_queue := q\<rparr>, ms)"
    using good_queue_step [OF assms(1)] q by blast
  then show "good (w\<lparr>w_queue := q, w_fresh := f\<rparr>, remove1 i ms)"
    by (auto simp: good_def manual_ids_def dest: notin_set_remove1)
qed

lemma good_step:
  assumes "step P (w, ms) (w', ms')" "good (w, ms)"
  shows "good (w', ms') \<and> evolves (w_queue w) (w_queue w')"
proof -
  note g = goodD [OF assms(2)]
  from assms(1) show ?thesis
  proof (cases rule: step.cases)
    case (poll locked now)
    with good_poll [OF assms(2)] show ?thesis by auto
  next
    case (run c now later env fc)
    from run_job_evolves [OF g(1) g(3) [OF run(2)] run(4)] run(1) show ?thesis
      by (auto intro!: good_world_step [OF assms(2)])
  next
    case (restart now)
    with evolves_reclaim [OF g(2)] wf_reclaim [OF g(1)] show ?thesis
      by (auto intro!: good_world_step [OF assms(2)])
  next
    case (enqueue now cfg body r q)
    obtain slot payload where e: "enqueue_slot (p_sha P) now slot cfg payload (w_queue w) = Inr (r, q)"
      using enqueue(3) by (rule enqueue_job_slot)
    with enqueue(1,2) good_enqueue [OF assms(2) e] show ?thesis by auto
  next
    case (cli now connects tokens slot cfg sch r sch' q)
    from main_queue [OF cli(3)] show ?thesis
    proof
      assume "q = w_queue w"
      with cli assms(2) show ?thesis by simp
    next
      assume "\<exists>res. enqueue_slot (p_sha P) now slot cfg [] (w_queue w) = Inr (res, q)"
      then obtain res where e: "enqueue_slot (p_sha P) now slot cfg [] (w_queue w) = Inr (res, q)" by blast
      with cli(1,2) good_enqueue [OF assms(2) e] show ?thesis by auto
    qed
  next
    case (run_now cfg now i force r q)
    have "holds q c" if "w_job w = Some c" for c
      using g(3) [OF that] by (rule holds_same) (auto simp: look_run_now [OF run_now(3)])
    with run_now evolves_run_now [OF run_now(3)] wf_run_now [OF g(1) run_now(3)] show ?thesis
      using good_queue_step [OF assms(2)] by auto
  next
    case (manual_start started now kind payload i q)
    with good_manual_start [OF assms(2)] show ?thesis by auto
  next
    case (manual_finish i db now kind result q fresh)
    with good_manual_finish [OF assms(2)] show ?thesis by auto
  next
    case (manual_raised i)
    with assms(2) show ?thesis by (auto simp: good_def manual_ids_def dest: notin_set_remove1)
  next
    case (manual_unrecorded db now kind result q fresh)
    then have "q = w_queue w" by (auto simp: audit_finish_def bind_err_eq_Inr Let_def split: if_splits)
    with manual_unrecorded assms(2) show ?thesis by (auto simp: good_def)
  qed
qed

subsection \<open>Properties\<close>

definition fresh_world :: world where
  "fresh_world = \<lparr>w_queue = empty_queue, w_fresh = [], w_beats = [], w_counters = initial_counters, w_idle = 0,
     w_job = None\<rparr>"

definition reachable :: "platform \<Rightarrow> world \<times> int list \<Rightarrow> bool" where
  "reachable P st \<longleftrightarrow> (step P)\<^sup>*\<^sup>* (fresh_world, []) st"

lemma good_fresh: "good (fresh_world, [])"
  by (simp add: good_def fresh_world_def empty_queue_def wf_queue_def unique_active_def jq.all_rows_def look_def
      manual_ids_def)

lemma good_steps: "(step P)\<^sup>*\<^sup>* st st' \<Longrightarrow> good st \<Longrightarrow> good st' \<and> evolves (w_queue (fst st)) (w_queue (fst st'))"
proof (induction rule: rtranclp_induct)
  case (step y z)
  then show ?case
    using good_step [of P "fst y" "snd y" "fst z" "snd z"] evolves_trans by auto
qed simp

lemma good_reachable: "reachable P st \<Longrightarrow> good st"
  using good_steps [of P "(fresh_world, [])" st] good_fresh by (auto simp: reachable_def)

text \<open>A short run: one enqueue, one poll that claims the job, one run that ends well.\<close>

definition sample_settings :: settings where
  "sample_settings = \<lparr>s_policy = default_policy, s_stale = 7200, s_requeue = 600, s_reclaim_every = 12, s_grace = 2700,
     s_catchup = True, s_schedule = sample_schedule, s_pod = ''pod'', s_version = ''0.11.0'', s_started = 0\<rparr>"

definition sample_platform :: platform where
  "sample_platform = \<lparr>p_sha = id, p_tzdb = (\<lambda>_. None), p_zones = (\<lambda>_. None), p_settings = sample_settings\<rparr>"

definition sample_row :: job where
  "sample_row = new_job 1 ''flex-trades'' [(''as_of'', PStr ''2026-09-04''), (''fallback'', PBool False)]
     (Some (payload_hash id [(''as_of'', PStr ''2026-09-04'')])) 0 8 0"

definition sample_job :: claimed where
  "sample_job = \<lparr>cid = 1, ckind = ''flex-trades'', cpayload = [(''as_of'', PStr ''2026-09-04''), (''fallback'', PBool False)],
     cattempts = 1, cmax = 8\<rparr>"

definition sample_queued :: world where
  "sample_queued = fresh_world\<lparr>w_queue := \<lparr>rows = [sample_row], next_id = 2\<rparr>\<rparr>"

definition sample_held :: world where
  "sample_held = take_job 10 sample_job \<lparr>rows = [claim_row 10 sample_row], next_id = 2\<rparr> sample_queued"

definition sample_ingest :: ingest where
  "sample_ingest = \<lparr>orchestrate = (\<lambda>_ _. Inr [(''ok'', PBool True), (''count'', PInt 3)]), outcome_conn = None,
     count_new_rows = (\<lambda>_. Some 2), outcome_write = None\<rparr>"

definition sample_finished :: world where
  "sample_finished = projr (run_job sample_ingest sample_settings 20 21 None sample_job sample_held)"

lemma sample_enqueue_step: "step sample_platform (fresh_world, []) (sample_queued, [])"
proof -
  have n: "strip ''flex-trades'' = ''flex-trades''" "lower ''flex-trades'' = ''flex-trades''" by code_simp+
  have "enqueue_job id 0 [] [(''kind'', PStr ''flex-trades''), (''payload'', PDict [(''as_of'', PStr ''2026-09-04'')])]
      empty_queue = Inr (\<lparr>sr_slot = ''flex-trades'', sr_kind = ''flex-trades'', sr_enqueued = 1, sr_deduped = 0,
        sr_job_id = Some 1, sr_payload = jpayload sample_row, sr_max_attempts = 8\<rparr>, \<lparr>rows = [sample_row], next_id = 2\<rparr>)"
    by (simp add: enqueue_job_def enqueue_slot_def KINDS_def SLOT_NAMES_def SLOT_KIND_def Let_def dict_of_def n
        py_or_def py_int_def text_or_empty_def with_as_of_def setdefault_def identity_def EXECUTION_KEYS_def
        DEFAULT_SLOT_MAX_ATTEMPTS_def insert_job_def smallint_def empty_queue_def sample_row_def new_job_def)
  then obtain r where "enqueue_job (p_sha sample_platform) 0 [] [(''kind'', PStr ''flex-trades''),
      (''payload'', PDict [(''as_of'', PStr ''2026-09-04'')])] (w_queue fresh_world) = Inr (r, \<lparr>rows = [sample_row], next_id = 2\<rparr>)"
    by (simp add: sample_platform_def fresh_world_def)
  from step.enqueue [OF this] show ?thesis by (simp add: sample_queued_def)
qed

lemma sample_poll_step: "step sample_platform (sample_queued, []) (sample_held, [])"
proof -
  have "claim_next [] 10 \<lparr>rows = [sample_row], next_id = 2\<rparr> = Inr (Some sample_job, \<lparr>rows = [claim_row 10 sample_row], next_id = 2\<rparr>)"
    by (simp add: claim_next_def runnable_def sample_row_def new_job_def smallint_def sample_job_def row_to_job_def
        effective_max_def update_where_def)
  then have "poll (p_sha sample_platform) (p_tzdb sample_platform) (p_settings sample_platform) [] 10 sample_queued = Inr sample_held"
    by (simp add: poll_def sample_queued_def sample_held_def)
  moreover have "w_job sample_queued = None" by (simp add: sample_queued_def fresh_world_def)
  ultimately show ?thesis by (blast intro: step.poll)
qed

lemma sample_finished_eq:
  "run_job sample_ingest sample_settings 20 21 None sample_job sample_held = Inr sample_finished"
  "\<exists>res. w_queue sample_finished = \<lparr>rows = [done_row res 20 (claim_row 10 sample_row)], next_id = 2\<rparr>"
proof -
  have n: "strip ''flex-trades'' = ''flex-trades''" by code_simp
  have d: "\<exists>res f. dispatch sample_ingest 20 ''flex-trades'' p 1 fr = (Inr res, f)" for p fr
    by (simp add: dispatch_def sample_ingest_def HANDLERS_def n require_ok_def py_iter_def py_or_def nonblank_texts_def
        py_int_def Let_def)
  obtain res f where "dispatch sample_ingest 20 (ckind sample_job) (cpayload sample_job) (cid sample_job) (w_fresh sample_held) =
      (Inr res, f)" using d [of "cpayload sample_job" "w_fresh sample_held"] by (auto simp: sample_job_def)
  then have r: "run_job sample_ingest sample_settings 20 21 None sample_job sample_held =
      Inr (finish_done sample_settings 20 21 sample_job res (sample_held\<lparr>w_fresh := f\<rparr>))"
    by (simp add: run_job_def)
  then show "run_job sample_ingest sample_settings 20 21 None sample_job sample_held = Inr sample_finished"
    by (simp add: sample_finished_def)
  have e: "sample_finished = finish_done sample_settings 20 21 sample_job res (sample_held\<lparr>w_fresh := f\<rparr>)"
    by (simp add: sample_finished_def r)
  have "w_queue sample_finished = \<lparr>rows = [done_row res 20 (claim_row 10 sample_row)], next_id = 2\<rparr>"
    unfolding e
    by (simp add: finish_done_def sample_held_def take_job_def mark_done_def update_where_def
        sample_job_def) (simp add: claim_row_def sample_row_def new_job_def)
  then show "\<exists>res. w_queue sample_finished = \<lparr>rows = [done_row res 20 (claim_row 10 sample_row)], next_id = 2\<rparr>" by blast
qed

lemma sample_run_step: "step sample_platform (sample_held, []) (sample_finished, [])"
proof -
  have "w_job sample_held = Some sample_job" "(20::int) \<le> 21" by (simp_all add: sample_held_def take_job_def)
  then show ?thesis
    by (rule step.run [where env = sample_ingest and fresh_conn = None])
      (simp add: sample_platform_def sample_finished_eq(1))
qed

lemma sample_reachable:
  "reachable sample_platform (sample_queued, [])" "reachable sample_platform (sample_held, [])"
  "reachable sample_platform (sample_finished, [])"
  using sample_enqueue_step sample_poll_step sample_run_step
  by (auto simp: reachable_def intro: rtranclp.rtrancl_into_rtrancl)

lemma sample_look:
  "look (w_queue sample_queued) 1 = Some sample_row"
  "look (w_queue sample_held) 1 = Some (claim_row 10 sample_row)"
  "w_job sample_held = Some sample_job"
  by (simp_all add: look_def sample_queued_def sample_held_def take_job_def, simp_all add: sample_row_def new_job_def claim_row_def)

text \<open>C1: In every reachable state of the interleaved system the queue is well formed, no job has been
  attempted more often than its budget allows, a pending job always has an attempt left and is never
  a manual row, and the job the worker has in hand is a running row at exactly the attempt it was told.\<close>

theorem attempts_within_budget:
  assumes "reachable P (w, ms)"
  shows "wf_queue (w_queue w) \<and>
    (\<forall>i j. look (w_queue w) i = Some j \<longrightarrow> 0 \<le> jattempts j \<and> jattempts j \<le> budget j \<and>
       (jstat j = Pending \<longrightarrow> jattempts j < budget j \<and> jhash j \<noteq> None)) \<and>
    (\<forall>c. w_job w = Some c \<longrightarrow> (\<exists>j. look (w_queue w) (cid c) = Some j \<and> jstat j = Running \<and> jattempts j = cattempts c))"
  using goodD [OF good_reachable [OF assms]] by (auto simp: jq.all_rows_def row_ok_def holds_def)

theorem attempts_within_budget_witness:
  "\<exists>j. look (w_queue sample_held) 1 = Some j \<and> jstat j = Running \<and> jattempts j = 1 \<and> wf_queue (w_queue sample_held)"
  using attempts_within_budget [OF sample_reachable(2)] sample_look by (auto simp: sample_job_def)

lemma fixed_row: "life\<^sup>*\<^sup>* j j' \<Longrightarrow> settled j \<Longrightarrow> jhash j \<noteq> None \<Longrightarrow> j' = j"
  by (induction rule: rtranclp_induct) (auto elim: lifeE simp: settled_def)

text \<open>C7: Done and failed are final: whatever happens afterwards - restarts, reclaims, enqueues, run-now
  requests, other jobs - the row of a settled queued job is never touched again.\<close>

theorem settled_jobs_final:
  assumes "reachable P (w, ms)" and "(step P)\<^sup>*\<^sup>* (w, ms) (w', ms')"
    and "look (w_queue w) i = Some j" and "settled j" and "jhash j \<noteq> None"
  shows "look (w_queue w') i = Some j"
proof -
  have "evolves (w_queue w) (w_queue w')"
    using good_steps [OF assms(2) good_reachable [OF assms(1)]] by simp
  with assms(3) obtain j' where "look (w_queue w') i = Some j'" "life\<^sup>*\<^sup>* j j'" unfolding evolves_def by blast
  with fixed_row [OF _ assms(4,5)] show ?thesis by blast
qed

theorem settled_jobs_final_witness:
  "\<exists>j. look (w_queue sample_finished) 1 = Some j \<and> jstat j = Done \<and>
     look (w_queue (startup sample_settings 99 sample_finished)) 1 = Some j"
proof -
  obtain res where q: "w_queue sample_finished = \<lparr>rows = [done_row res 20 (claim_row 10 sample_row)], next_id = 2\<rparr>"
    using sample_finished_eq(2) by blast
  have l: "look (w_queue sample_finished) 1 = Some (done_row res 20 (claim_row 10 sample_row))"
    by (simp add: look_def q) (simp add: sample_row_def new_job_def claim_row_def done_row_def)
  have "step sample_platform (sample_finished, []) (startup sample_settings 99 sample_finished, [])"
    using step.restart [of sample_platform sample_finished "[]" 99] by (simp add: sample_platform_def)
  then have "(step sample_platform)\<^sup>*\<^sup>* (sample_finished, []) (startup sample_settings 99 sample_finished, [])" by blast
  moreover have "settled (done_row res 20 (claim_row 10 sample_row))" "jhash (done_row res 20 (claim_row 10 sample_row)) \<noteq> None"
    "jstat (done_row res 20 (claim_row 10 sample_row)) = Done"
    by (simp_all add: settled_def done_row_def claim_row_def sample_row_def new_job_def)
  ultimately show ?thesis
    using settled_jobs_final [OF sample_reachable(3) _ l] l by blast
qed

text \<open>C2: The model refines the life of a job. From any reachable state, every step of any participant takes
  each existing row along transitions of \<^verbatim>\<open>life\<close> - so no job is ever lost or changes its kind, payload,
  identity, priority or budget - and every new row starts as \<^verbatim>\<open>born\<close> says.\<close>

theorem steps_refine_life:
  assumes "reachable P (w, ms)" and "step P (w, ms) (w', ms')"
  shows "(\<forall>i j. look (w_queue w) i = Some j \<longrightarrow> (\<exists>j'. look (w_queue w') i = Some j' \<and> life\<^sup>*\<^sup>* j j' \<and> same_job j j')) \<and>
    (\<forall>i j'. look (w_queue w) i = None \<longrightarrow> look (w_queue w') i = Some j' \<longrightarrow> (\<exists>b. born b \<and> life\<^sup>*\<^sup>* b j'))"
  using good_step [OF assms(2) good_reachable [OF assms(1)]] lives_same unfolding evolves_def by blast

theorem steps_refine_life_witness:
  "\<exists>j'. look (w_queue sample_held) 1 = Some j' \<and> life\<^sup>*\<^sup>* sample_row j' \<and> same_job sample_row j'"
  using steps_refine_life [OF sample_reachable(1) sample_poll_step] sample_look(1) by blast

subsection \<open>Progress\<close>










lemma claim_no_overflow:
  assumes "wf_queue q" "jq.all_rows row_ok q"
  shows "\<exists>r. claim_next locked now q = Inr r"
proof (cases "pick_first (filter (\<lambda>j. runnable now j \<and> jid j \<notin> set locked) (rows q))")
  case None
  then show ?thesis by (simp add: claim_next_def)
next
  case (Some j)
  with pick_first_Some [OF Some] have "j \<in> set (rows q)" "runnable now j" by auto
  moreover from this assms have "row_ok j"
    by (metis jq.all_rowsD look_of_row wf_queue_def)
  ultimately have "smallint (jattempts j + 1)"
    by (auto simp: row_ok_def runnable_def smallint_def budget_def effective_max_def split: if_splits)
  with Some show ?thesis by (simp add: claim_next_def)
qed

lemma worker_live:
  assumes "reachable P (w, ms)"
  shows "(\<exists>w'. poll (p_sha P) (p_tzdb P) (p_settings P) locked now w = Inr w') \<and>
    (\<forall>c. w_job w = Some c \<longrightarrow> (\<exists>w'. run_job env (p_settings P) now later fresh_conn c w = Inr w'))"
proof -
  note g = goodD [OF good_reachable [OF assms]]
  obtain oc q where "claim_next locked now (w_queue w) = Inr (oc, q)"
    using claim_no_overflow [OF g(1,2)] by (metis surj_pair)
  then have "\<exists>w'. poll (p_sha P) (p_tzdb P) (p_settings P) locked now w = Inr w'"
    by (cases oc) (auto simp: poll_def)
  moreover have "\<exists>w'. run_job env (p_settings P) now later fresh_conn c w = Inr w'" if "w_job w = Some c" for c
  proof -
    from g(3) [OF that] obtain j where j: "look (w_queue w) (cid c) = Some j" "active j"
      by (auto simp: holds_def active_def)
    have "\<exists>q. mark_retry (cid c) m k d now (w_queue w) = Inr q" for m k d
      using mark_retry_active [OF g(1) j] by metis
    then have "\<exists>w'. finish_failed (p_settings P) now later fresh_conn c msg (w\<lparr>w_fresh := f\<rparr>) = Inr w'" for msg f
      by (fastforce simp: finish_failed_def Let_def bind_err_eq_Inr)
    then show ?thesis by (auto simp: run_job_def split: prod.splits sum.splits)
  qed
  ultimately show ?thesis by blast
qed

text \<open>C5: No statement of the worker ever fails on the data: in every reachable state a poll goes through
  (the attempt counter cannot overflow its column) and so does the end of the job in hand, whatever the
  handler did (putting it back cannot collide with another active row of the same identity).\<close>

theorem worker_never_stuck:
  assumes "reachable P (w, ms)"
  shows "(\<exists>w'. poll (p_sha P) (p_tzdb P) (p_settings P) locked now w = Inr w') \<and>
    (\<forall>c. w_job w = Some c \<longrightarrow> (\<exists>w'. run_job env (p_settings P) now later fresh_conn c w = Inr w'))"
  by (rule worker_live [OF assms])

theorem worker_never_stuck_witness:
  "\<exists>w' w''. poll id (\<lambda>_. None) sample_settings [] 10 sample_queued = Inr w' \<and>
     run_job sample_ingest sample_settings 20 21 None sample_job sample_held = Inr w''"
  using worker_never_stuck [OF sample_reachable(1)] worker_never_stuck [OF sample_reachable(2)] sample_look(3)
  by (auto simp: sample_platform_def)

end
