(* ===== verification/Py_Float.thy ===== *)
theory Py_Float
  imports Py_Text
begin

text \<open>
  Python's \<open>float\<close>: the binary64 numbers, \<open>float(s)\<close> on text with its rounding to the nearest (ties to the
  even significand), the comparisons with zero that the code makes, and \<open>str(x)\<close>, the shortest
  decimal text that reads back as \<open>x\<close>. A finite number is its sign, its significand below \<open>2 ^ 53\<close> and
  its exponent.
\<close>

datatype pyfloat = PFin bool int int | PInf bool | PNan

fun bit_len :: "int \<Rightarrow> int" where
  "bit_len n = (if n \<le> 0 then 0 else 1 + bit_len (n div 2))"

declare bit_len.simps [simp del]

definition half_even :: "int \<Rightarrow> int \<Rightarrow> int" where
  "half_even n d =
     (let f = n div d; r = n mod d in
      if 2 * r < d then f else if d < 2 * r then f + 1 else if even f then f else f + 1)"

text \<open>The fraction \<open>p / q * 2 powi - e\<close> and \<open>p / q * 10 powi k\<close> as numerator and denominator.\<close>

definition scale :: "int \<Rightarrow> int \<Rightarrow> int \<Rightarrow> int \<Rightarrow> int \<times> int" where
  "scale b p q e = (if 0 \<le> e then (p, q * b ^ nat e) else (p * b ^ nat (- e), q))"

definition round64 :: "bool \<Rightarrow> int \<Rightarrow> int \<Rightarrow> pyfloat" where
  "round64 neg p q =
     (if p = 0 then PFin neg 0 0
      else
        let e0 = bit_len p - bit_len q - 53;
            (n0, d0) = scale 2 p q e0;
            e1 = (if 2 ^ 53 \<le> n0 div d0 then e0 + 1 else e0);
            e = max e1 (- 1074);
            (n, d) = scale 2 p q e;
            m = half_even n d;
            (m', e') = (if m = 2 ^ 53 then (2 ^ 52, e + 1) else (m, e))
        in if m' = 0 then PFin neg 0 0 else if 971 < e' then PInf neg else PFin neg m' e')"

definition float_of_int :: "int \<Rightarrow> pyfloat" where
  "float_of_int n = round64 (n < 0) \<bar>n\<bar> 1"

text \<open>\<open>x == 0\<close> and \<open>x >= 0\<close>.\<close>

fun float_is_zero :: "pyfloat \<Rightarrow> bool" where
  "float_is_zero (PFin neg m e) = (m = 0)"
| "float_is_zero _ = False"

fun float_nonneg :: "pyfloat \<Rightarrow> bool" where
  "float_nonneg (PFin neg m e) = (m = 0 \<or> \<not> neg)"
| "float_nonneg (PInf neg) = (\<not> neg)"
| "float_nonneg PNan = False"

text \<open>The microseconds \<open>datetime.fromtimestamp\<close> makes of a float: the fraction times a million, rounded as a float
  and then to the nearest integer; \<open>None\<close> for an infinity or not-a-number.\<close>

fun float_micros :: "pyfloat \<Rightarrow> int option" where
  "float_micros (PFin neg m e) =
     (case scale 2 m 1 (- e) of (n, d) \<Rightarrow>
        let us = (case round64 False ((n mod d) * 1000000) d of
                    PFin _ m' e' \<Rightarrow> (case scale 2 m' 1 (- e') of (a, b) \<Rightarrow> half_even a b) | _ \<Rightarrow> 0)
        in Some ((if neg then - 1 else 1) * ((n div d) * 1000000 + us)))"
| "float_micros _ = None"

text \<open>\<open>float(s)\<close>; \<open>None\<close> is the \<open>ValueError\<close>.\<close>

definition digits_opt :: "string \<Rightarrow> string option" where
  "digits_opt s = (if s = [] then Some [] else digit_group False s)"

definition cut_at :: "(char \<Rightarrow> bool) \<Rightarrow> string \<Rightarrow> string \<times> string option" where
  "cut_at P s = (takeWhile (\<lambda>c. \<not> P c) s,
     (case dropWhile (\<lambda>c. \<not> P c) s of [] \<Rightarrow> None | c # cs \<Rightarrow> Some cs))"

fun signed :: "string \<Rightarrow> bool \<times> string" where
  "signed [] = (False, [])"
| "signed (c # cs) = (if c = CHR ''-'' then (True, cs) else if c = CHR ''+'' then (False, cs) else (False, c # cs))"

definition exponent_of :: "string option \<Rightarrow> int option" where
  "exponent_of s = (case s of None \<Rightarrow> Some 0
     | Some t \<Rightarrow> (case signed t of (neg, ds) \<Rightarrow>
         map_option (\<lambda>ds. (if neg then - 1 else 1) * int (digits_val ds)) (digit_group False ds)))"

definition float_literal :: "string \<Rightarrow> pyfloat option" where
  "float_literal s =
     (case signed (strip s) of (neg, u) \<Rightarrow>
        if lower u = ''inf'' \<or> lower u = ''infinity'' then Some (PInf neg)
        else if lower u = ''nan'' then Some PNan
        else
          let (mant, ex) = cut_at (\<lambda>c. c = CHR ''e'' \<or> c = CHR ''E'') u;
              (ip, fp) = cut_at (\<lambda>c. c = CHR ''.'') mant;
              fp' = (case fp of None \<Rightarrow> [] | Some f \<Rightarrow> f)
          in if ip = [] \<and> fp' = [] then None
             else (case (digits_opt ip, digits_opt fp', exponent_of ex) of
                (Some a, Some b, Some x) \<Rightarrow>
                  (case scale 10 (int (digits_val (a @ b))) 1 (int (length b) - x) of (p, q) \<Rightarrow> Some (round64 neg p q))
              | _ \<Rightarrow> None))"

text \<open>\<open>float(s.replace(",", ""))\<close>.\<close>

definition float_no_commas :: "string \<Rightarrow> pyfloat option" where
  "float_no_commas s = float_literal (remove_char (CHR '','') s)"

text \<open>\<open>str(x)\<close>: with \<open>10 ^ (k - 1) \<le> x < 10 ^ k\<close>, the fewest digits \<open>n\<close> for which the number below or
  above \<open>x\<close> with \<open>n\<close> digits reads back as \<open>x\<close>, the nearer of the two.\<close>

definition decimal_point :: "int \<Rightarrow> int \<Rightarrow> int" where
  "decimal_point p q = hd (filter (\<lambda>k. case scale 10 p q k of (n, d) \<Rightarrow> n < d) [- 323..309])"

definition reads_back :: "pyfloat \<Rightarrow> int \<Rightarrow> int \<Rightarrow> bool" where
  "reads_back x c e = (case scale 10 c 1 (- e) of (n, d) \<Rightarrow> round64 False n d = x)"

definition shortest_try :: "int \<Rightarrow> int \<Rightarrow> pyfloat \<Rightarrow> int \<Rightarrow> int \<Rightarrow> int option" where
  "shortest_try p q x k n =
     (case scale 10 p q (k - n) of (u, d) \<Rightarrow>
        let lo = u div d; r = u mod d; up = lo + 1;
            lo_ok = reads_back x lo (k - n); up_ok = reads_back x up (k - n)
        in if lo_ok \<and> (\<not> up_ok \<or> 2 * r \<le> d) then Some lo else if up_ok then Some up else None)"

fun first_some :: "('a \<Rightarrow> 'b option) \<Rightarrow> 'a list \<Rightarrow> ('a \<times> 'b) option" where
  "first_some f [] = None"
| "first_some f (x # xs) = (case f x of Some y \<Rightarrow> Some (x, y) | None \<Rightarrow> first_some f xs)"

definition rstrip_zeros :: "string \<Rightarrow> string" where
  "rstrip_zeros s = rev (dropWhile (\<lambda>c. c = CHR ''0'') (rev s))"

definition layout_digits :: "string \<Rightarrow> int \<Rightarrow> string" where
  "layout_digits ds point =
     (if - 4 < point \<and> point \<le> 16 then
        if point \<le> 0 then ''0.'' @ replicate (nat (- point)) (CHR ''0'') @ ds
        else if nat point < length ds then take (nat point) ds @ ''.'' @ drop (nat point) ds
        else ds @ replicate (nat point - length ds) (CHR ''0'') @ ''.0''
      else
        take 1 ds @ (if drop 1 ds = [] then [] else ''.'' @ drop 1 ds) @ ''e'' @
        (if point \<le> 0 then ''-'' else ''+'') @
        (let x = nat \<bar>point - 1\<bar> in if x < 10 then pad 2 x else show_nat x))"

fun float_str :: "pyfloat \<Rightarrow> string" where
  "float_str PNan = ''nan''"
| "float_str (PInf neg) = (if neg then ''-inf'' else ''inf'')"
| "float_str (PFin neg m e) =
     (if neg then ''-'' else []) @
     (if m = 0 then ''0.0''
      else
        let (p, q) = scale 2 m 1 (- e); k = decimal_point p q in
        case first_some (shortest_try p q (PFin False m e) k) [1..17] of
          Some (n, c) \<Rightarrow>
            let ds = show_nat (nat c) in layout_digits (rstrip_zeros ds) (k + int (length ds) - n)
        | None \<Rightarrow> [])"

end
