(* ===== verification/Flex_Xml.thy ===== *)
theory Flex_Xml
  imports Py_Values Py_Float Calendar_Dates
begin

text \<open>
  What \<^verbatim>\<open>client/flex_client.py\<close> reads a report with: the element tree of \<open>xml.etree\<close> with \<open>find\<close>, \<open>get\<close> and
  \<open>iter\<close>, the helpers \<open>_text\<close> and \<open>_local_name\<close>, the general form of \<open>strptime\<close>, \<open>re.search(r"(\d{8})")\<close>, and the two
  ways a broker time stamp is read: \<open>parse_flex_datetime\<close> on the exchange's clock for trades, the bare day
  for cash rows. The XML parser itself and the zone database are parameters.
\<close>

datatype xml = Elem (xtag: string) (attrib: "(string \<times> string) list") (xtext: "string option") (xkids: "xml list")

text \<open>\<open>ET.fromstring\<close>; \<open>Inl\<close> is the text of the \<open>ParseError\<close>.\<close>

type_synonym xml_parser = "string \<Rightarrow> string + xml"

fun xiter :: "xml \<Rightarrow> xml list" where
  "xiter (Elem t a x ks) = Elem t a x ks # concat (map xiter ks)"

definition xfind :: "xml \<Rightarrow> string \<Rightarrow> xml option" where
  "xfind e tag = find (\<lambda>k. xtag k = tag) (xkids e)"

text \<open>\<open>elem.get(k) or ""\<close>.\<close>

definition xget :: "xml \<Rightarrow> string \<Rightarrow> string" where
  "xget e k = the_text (map_of (attrib e) k)"

definition text_of :: "xml \<Rightarrow> string \<Rightarrow> string \<Rightarrow> string" where
  "text_of e tag dflt = (case xfind e tag of
      Some child \<Rightarrow> if the_text (xtext child) \<noteq> [] then strip (the_text (xtext child)) else dflt
    | None \<Rightarrow> dflt)"

definition local_name :: "string \<Rightarrow> string" where
  "local_name tag = (if CHR ''}'' \<in> set tag then tl (dropWhile (\<lambda>c. c \<noteq> CHR ''}'') tag) else tag)"

text \<open>Python's \<open>a or b or ...\<close> on strings.\<close>

fun or_text :: "string list \<Rightarrow> string" where
  "or_text [] = []"
| "or_text [s] = s"
| "or_text (s # t # ts) = (if s = [] then or_text (t # ts) else s)"

subsection \<open>Time stamps\<close>

datatype directive = YYYY | MM | DD | HH | MI | SS | Lit char | Blank

record fields =
  f_year :: int
  f_month :: int
  f_day :: int
  f_hour :: int
  f_minute :: int
  f_second :: int

definition no_fields :: fields where
  "no_fields = \<lparr>f_year = 1900, f_month = 1, f_day = 1, f_hour = 0, f_minute = 0, f_second = 0\<rparr>"

definition any_digit :: "string \<Rightarrow> (nat \<times> string) list" where
  "any_digit s = one_digit is_digit s"

fun match_directive :: "directive \<Rightarrow> string \<Rightarrow> ((fields \<Rightarrow> fields) \<times> string) list" where
  "match_directive YYYY s =
     (if 4 \<le> length s \<and> list_all is_digit (take 4 s)
      then [(f_year_update (\<lambda>_. int (digits_val (take 4 s))), drop 4 s)] else [])"
| "match_directive MM s = map (\<lambda>(n, r). (f_month_update (\<lambda>_. int n), r)) (match_month s)"
| "match_directive DD s = map (\<lambda>(n, r). (f_day_update (\<lambda>_. int n), r)) (match_day s)"
| "match_directive HH s = map (\<lambda>(n, r). (f_hour_update (\<lambda>_. int n), r))
     (two_digits (\<lambda>c. c = CHR ''2'') (in_range (CHR ''0'') (CHR ''3'')) s @
      two_digits (in_range (CHR ''0'') (CHR ''1'')) is_digit s @ any_digit s)"
| "match_directive MI s = map (\<lambda>(n, r). (f_minute_update (\<lambda>_. int n), r))
     (two_digits (in_range (CHR ''0'') (CHR ''5'')) is_digit s @ any_digit s)"
| "match_directive SS s = map (\<lambda>(n, r). (f_second_update (\<lambda>_. int n), r))
     (two_digits (\<lambda>c. c = CHR ''6'') (in_range (CHR ''0'') (CHR ''1'')) s @
      two_digits (in_range (CHR ''0'') (CHR ''5'')) is_digit s @ any_digit s)"
| "match_directive (Lit c) s =
     (case s of [] \<Rightarrow> [] | d # r \<Rightarrow> if lower_char d = lower_char c then [(id, r)] else [])"
| "match_directive Blank s =
     map (\<lambda>n. (id, drop n s)) (rev [1..<Suc (length (takeWhile is_space s))])"

fun match_all :: "directive list \<Rightarrow> fields \<Rightarrow> string \<Rightarrow> (fields \<times> string) list" where
  "match_all [] f s = [(f, s)]"
| "match_all (d # ds) f s = concat (map (\<lambda>(u, r). match_all ds (u f) r) (match_directive d s))"

text \<open>A naive \<open>datetime\<close> is the microseconds from 1970-01-01 00:00 on its own clock.\<close>

definition naive :: "date \<Rightarrow> int \<Rightarrow> int \<Rightarrow> int \<Rightarrow> int" where
  "naive d h m s = secs ((d - EPOCH_ORDINAL) * 86400 + h * 3600 + m * 60 + s)"

text \<open>\<open>datetime.strptime(s, fmt)\<close>; \<open>None\<close> is the \<open>ValueError\<close>.\<close>

definition strptime :: "directive list \<Rightarrow> string \<Rightarrow> int option" where
  "strptime fmt s = (case match_all fmt no_fields s of
      (f, []) # _ \<Rightarrow>
        if 1 \<le> f_year f \<and> f_day f \<le> days_in_month (f_year f) (f_month f) \<and> f_second f \<le> 59
        then Some (naive (ymd2ord (f_year f) (f_month f) (f_day f)) (f_hour f) (f_minute f) (f_second f))
        else None
    | _ \<Rightarrow> None)"

definition fmt_ib :: "directive list" where
  "fmt_ib = [YYYY, MM, DD, Lit (CHR '';''), HH, MI, SS]"

definition fmt_ymd :: "directive list" where
  "fmt_ymd = [YYYY, MM, DD]"

definition fmt_iso_t :: "directive list" where
  "fmt_iso_t = [YYYY, Lit (CHR ''-''), MM, Lit (CHR ''-''), DD, Lit (CHR ''T''), HH, Lit (CHR '':''), MI, Lit (CHR '':''), SS]"

definition fmt_iso_blank :: "directive list" where
  "fmt_iso_blank = [YYYY, Lit (CHR ''-''), MM, Lit (CHR ''-''), DD, Blank, HH, Lit (CHR '':''), MI, Lit (CHR '':''), SS]"

definition fmt_iso_day :: "directive list" where
  "fmt_iso_day = [YYYY, Lit (CHR ''-''), MM, Lit (CHR ''-''), DD]"

definition FLEX_DATETIME_FORMATS :: "(directive list \<times> nat \<times> bool) list" where
  "FLEX_DATETIME_FORMATS =
     [(fmt_ib, 15, False), (fmt_iso_t, 19, False), (fmt_iso_blank, 19, False), (fmt_ymd, 8, True), (fmt_iso_day, 10, True)]"

text \<open>\<open>re.search(r"(\d{8})", s)\<close>.\<close>

fun search_digits8 :: "string \<Rightarrow> string option" where
  "search_digits8 [] = None"
| "search_digits8 (c # cs) =
     (if list_all is_digit (take 8 (c # cs)) \<and> 8 \<le> length (c # cs) then Some (take 8 (c # cs)) else search_digits8 cs)"

text \<open>\<open>_local_to_utc\<close>: \<open>wall\<close> is the offset of \<open>FLEX_LOCAL_TZ\<close> at a reading of its clock. A result outside the
  years 1 to 9999 raises.\<close>

definition in_years :: "int \<Rightarrow> bool" where
  "in_years t \<longleftrightarrow> valid_date (local_date t)"

definition local_to_utc :: "(int \<Rightarrow> int) \<Rightarrow> int \<Rightarrow> py_error + instant" where
  "local_to_utc wall d =
     (let u = d - wall d in if in_years u then Inr u else Inl (OverflowError ''date value out of range''))"

fun try_formats :: "(directive list \<times> nat \<times> bool) list \<Rightarrow> string \<Rightarrow> (int \<times> bool) option" where
  "try_formats [] s = None"
| "try_formats ((fmt, n, date_only) # rest) s =
     (if length s < n then try_formats rest s
      else (case strptime fmt (take n s) of
              None \<Rightarrow> try_formats rest s
            | Some parsed \<Rightarrow> Some (parsed, date_only)))"

definition parse_flex_datetime :: "(int \<Rightarrow> int) \<Rightarrow> string \<Rightarrow> py_error + instant option \<times> bool" where
  "parse_flex_datetime wall raw =
     (let s = strip raw in
      if s = [] then Inr (None, False)
      else (case try_formats FLEX_DATETIME_FORMATS s of
          Some (parsed, date_only) \<Rightarrow> bind_err (local_to_utc wall parsed) (\<lambda>t. Inr (Some t, date_only))
        | None \<Rightarrow>
            (case search_digits8 s of
               None \<Rightarrow> Inr (None, False)
             | Some ds \<Rightarrow>
                 (case strptime fmt_ymd ds of
                    None \<Rightarrow> Inr (None, False)
                  | Some parsed \<Rightarrow> bind_err (local_to_utc wall parsed) (\<lambda>t. Inr (Some t, True))))))"

text \<open>The stamp of a cash row: the formats in their own order with their slices, then any eight digits.\<close>

definition CASH_FORMATS :: "(directive list \<times> nat) list" where
  "CASH_FORMATS = [(fmt_ib, 8), (fmt_ymd, 8), (fmt_iso_t, 19), (fmt_iso_blank, 19), (fmt_iso_day, 10)]"

fun try_cash_formats :: "(directive list \<times> nat) list \<Rightarrow> string \<Rightarrow> int option" where
  "try_cash_formats [] s = None"
| "try_cash_formats ((fmt, n) # rest) s =
     (case strptime fmt (take n s) of None \<Rightarrow> try_cash_formats rest s | Some t \<Rightarrow> Some t)"

definition cash_ts :: "string \<Rightarrow> instant option" where
  "cash_ts date_time_str =
     (let s = strip date_time_str in
      case try_cash_formats CASH_FORMATS s of
        Some t \<Rightarrow> Some t
      | None \<Rightarrow> (case search_digits8 s of Some ds \<Rightarrow> strptime fmt_ymd ds | None \<Rightarrow> None))"

definition parse_yyyymmdd_to_date :: "string \<Rightarrow> date option" where
  "parse_yyyymmdd_to_date s =
     (if strip s = [] then None
      else (case strptime_ymd (take 8 (strip s)) of Inr d \<Rightarrow> Some d | Inl _ \<Rightarrow> None))"

subsection \<open>Printed stamps are read back\<close>

lemma match_all_step:
  assumes "\<exists>ms. match_directive d s = (u, r) # ms" and "\<exists>ms. match_all ds (u f) r = x # ms"
  shows "\<exists>ms. match_all (d # ds) f s = x # ms"
  using assms by auto

lemma match_YYYY:
  assumes "y < 10000"
  shows "\<exists>ms. match_directive YYYY (pad 4 y @ r) = (f_year_update (\<lambda>_. int y), r) # ms"
  using assms by (simp add: digits_val_pad)

lemma match_MM:
  assumes "1 \<le> m" "m \<le> 12"
  shows "\<exists>ms. match_directive MM (pad 2 m @ r) = (f_month_update (\<lambda>_. int m), r) # ms"
  using match_month_pad [OF assms, of r] by auto

lemma match_DD:
  assumes "1 \<le> d" "d \<le> 31"
  shows "\<exists>ms. match_directive DD (pad 2 d @ r) = (f_day_update (\<lambda>_. int d), r) # ms"
  using match_day_pad [OF assms, of r] by auto

lemma digit_char_small:
  "n < 10 \<Longrightarrow> in_range (CHR ''0'') (CHR ''3'') (digit_char n) \<longleftrightarrow> n \<le> 3"
  "n < 10 \<Longrightarrow> in_range (CHR ''0'') (CHR ''5'') (digit_char n) \<longleftrightarrow> n \<le> 5"
  by (auto simp: in_range_def of_char_digit_char)

lemma two_digit_split:
  assumes "(n :: nat) < 100"
  shows "n div 10 < 10" "n mod 10 < 10" "n div 10 * 10 + n mod 10 = n"
  using assms by auto

lemma match_HH:
  assumes "h < 24"
  shows "\<exists>ms. match_directive HH (pad 2 h @ r) = (f_hour_update (\<lambda>_. int h), r) # ms"
proof -
  have t: "h div 10 < 10" "h mod 10 < 10" "h div 10 * 10 + h mod 10 = h" using assms two_digit_split [of h] by auto
  then have "h div 10 = 2 \<and> h mod 10 \<le> 3 \<or> h div 10 \<le> 1" using assms by linarith
  then show ?thesis
    using assms t by (elim disjE) (simp_all add: pad_2 digit_char_range digit_char_small digit_char_eq)
qed

lemma match_MI:
  assumes "m < 60"
  shows "\<exists>ms. match_directive MI (pad 2 m @ r) = (f_minute_update (\<lambda>_. int m), r) # ms"
proof -
  have t: "m div 10 < 10" "m mod 10 < 10" "m div 10 * 10 + m mod 10 = m" using assms two_digit_split [of m] by auto
  then have "m div 10 \<le> 5" using assms by linarith
  with assms t show ?thesis by (simp add: pad_2 digit_char_small digit_char_eq)
qed

lemma match_SS:
  assumes "s < 60"
  shows "\<exists>ms. match_directive SS (pad 2 s @ r) = (f_second_update (\<lambda>_. int s), r) # ms"
proof -
  have t: "s div 10 < 10" "s mod 10 < 10" "s div 10 * 10 + s mod 10 = s" using assms two_digit_split [of s] by auto
  then have "s div 10 \<le> 5" using assms by linarith
  with assms t show ?thesis by (simp add: pad_2 digit_char_small digit_char_eq)
qed

lemma match_Lit: "\<exists>ms. match_directive (Lit c) (c # r) = (id, r) # ms"
  by simp

lemmas match_directives = match_YYYY match_MM match_DD match_HH match_MI match_SS match_Lit

text \<open>The broker's form of a day and a time of day.\<close>

definition ib_stamp :: "date \<Rightarrow> nat \<Rightarrow> nat \<Rightarrow> nat \<Rightarrow> string" where
  "ib_stamp n h m s = strftime_ymd n @ '';'' @ pad 2 h @ pad 2 m @ pad 2 s"

lemma printed_ymd:
  assumes "364878 \<le> n" "n \<le> MAXORDINAL"
  obtains y m d where "strftime_ymd n = pad 4 y @ pad 2 m @ pad 2 d" "y < 10000" "1 \<le> y"
    "1 \<le> m" "m \<le> 12" "1 \<le> d" "d \<le> 31" "int d \<le> days_in_month (int y) (int m)" "ymd2ord (int y) (int m) (int d) = n"
proof -
  obtain y m d where o: "ord2ymd n = (y, m, d)" by (cases "ord2ymd n")
  from assms have "1 \<le> n" by simp
  note c = ord2ymd_correct [OF this o]
  from year_bounds [OF assms o] have y: "1000 \<le> nat y" "nat y \<le> 9999" by auto
  have "show_nat (nat y) = pad 4 (nat y)"
    using show_nat_pad [of 3 "nat y"] y by (simp only: Suc_3) simp
  then have "strftime_ymd n = pad 4 (nat y) @ pad 2 (nat m) @ pad 2 (nat d)"
    by (simp add: strftime_ymd_def o)
  moreover have "nat d \<le> 31" using c days_in_month_pos(2) [of y m] by linarith
  ultimately show ?thesis using that c y by simp
qed

lemma strptime_ib_stamp:
  assumes "364878 \<le> n" "n \<le> MAXORDINAL" "h < 24" "m < 60" "s < 60"
  shows "strptime fmt_ib (ib_stamp n h m s) = Some (naive n (int h) (int m) (int s))"
proof -
  obtain y mo d where p: "strftime_ymd n = pad 4 y @ pad 2 mo @ pad 2 d" "y < 10000" "1 \<le> y"
    "1 \<le> mo" "mo \<le> 12" "1 \<le> d" "d \<le> 31" "int d \<le> days_in_month (int y) (int mo)" "ymd2ord (int y) (int mo) (int d) = n"
    using printed_ymd [OF assms(1,2)] by blast
  have st: "ib_stamp n h m s = pad 4 y @ pad 2 mo @ pad 2 d @ CHR '';'' # pad 2 h @ pad 2 m @ pad 2 s @ []"
    by (simp add: ib_stamp_def p)
  have "\<exists>ms. match_all fmt_ib no_fields (ib_stamp n h m s) =
     (\<lparr>f_year = int y, f_month = int mo, f_day = int d, f_hour = int h, f_minute = int m, f_second = int s\<rparr>, []) # ms"
    unfolding st fmt_ib_def no_fields_def
    by (rule match_all_step, rule match_directives, ((rule p assms)+)?)+ simp
  then show ?thesis using p assms by (auto simp: strptime_def)
qed

lemma strptime_printed_day:
  assumes "364878 \<le> n" "n \<le> MAXORDINAL"
  shows "strptime fmt_ymd (strftime_ymd n) = Some (naive n 0 0 0)"
proof -
  obtain y mo d where p: "strftime_ymd n = pad 4 y @ pad 2 mo @ pad 2 d" "y < 10000" "1 \<le> y"
    "1 \<le> mo" "mo \<le> 12" "1 \<le> d" "d \<le> 31" "int d \<le> days_in_month (int y) (int mo)" "ymd2ord (int y) (int mo) (int d) = n"
    using printed_ymd [OF assms] by blast
  have st: "strftime_ymd n = pad 4 y @ pad 2 mo @ pad 2 d @ []"
    by (simp add: p)
  have "\<exists>ms. match_all fmt_ymd no_fields (strftime_ymd n) =
     (\<lparr>f_year = int y, f_month = int mo, f_day = int d, f_hour = 0, f_minute = 0, f_second = 0\<rparr>, []) # ms"
    unfolding st fmt_ymd_def no_fields_def
    by (rule match_all_step, rule match_directives, (rule p assms)+)+ simp
  then show ?thesis using p by (auto simp: strptime_def)
qed

text \<open>A format with a literal does not match a text without it.\<close>

lemma two_digits_rest: "(v, r) \<in> set (two_digits P Q s) \<Longrightarrow> set r \<subseteq> set s"
  by (induction P Q s rule: two_digits.induct) (auto split: if_splits)

lemma one_digit_rest: "(v, r) \<in> set (one_digit P s) \<Longrightarrow> set r \<subseteq> set s"
  by (induction P s rule: one_digit.induct) (auto split: if_splits)

lemma match_directive_rest: "(u, r) \<in> set (match_directive d s) \<Longrightarrow> set r \<subseteq> set s"
  by (cases d) (auto simp: match_month_def match_day_def any_digit_def dest: two_digits_rest one_digit_rest in_set_dropD
      split: if_splits list.splits)

lemma match_all_literal:
  "Lit c \<in> set ds \<Longrightarrow> (\<forall>x \<in> set s. lower_char x \<noteq> lower_char c) \<Longrightarrow> match_all ds f s = []"
proof (induction ds arbitrary: f s)
  case (Cons d ds)
  show ?case
  proof (cases "d = Lit c")
    case True
    with Cons.prems(2) show ?thesis by (auto split: list.splits)
  next
    case False
    have "match_all ds (u f) r = []" if "(u, r) \<in> set (match_directive d s)" for u r
      using Cons.IH [of r "u f"] Cons.prems False match_directive_rest [OF that] by auto
    then show ?thesis by auto
  qed
qed simp

lemma strptime_literal:
  "Lit c \<in> set fmt \<Longrightarrow> (\<forall>x \<in> set s. lower_char x \<noteq> lower_char c) \<Longrightarrow> strptime fmt s = None"
  by (simp add: strptime_def match_all_literal)

lemma lower_char_digit: "is_digit c \<Longrightarrow> lower_char c = c"
  by (simp add: is_digit_def lower_char_def Let_def)

lemma strip_append:
  assumes "x \<noteq> []" "\<not> is_space (hd x)" "\<not> is_space (last x)"
  shows "\<exists>r'. strip (x @ r) = x @ r'"
proof -
  have l: "lstrip (x @ r) = x @ r" using assms by (intro lstrip_idem) simp
  have "dropWhile is_space (rev x) = rev x"
    using assms(1,3) by (cases x rule: rev_cases) simp_all
  then have "rstrip (x @ r) = x @ (if \<forall>c \<in> set r. is_space c then [] else rstrip r)"
    by (auto simp: rstrip_def dropWhile_append dropWhile_append1 dropWhile_append2)
  then show ?thesis by (auto simp: strip_def l)
qed

lemma digit_ends:
  assumes "list_all is_digit s" "s \<noteq> []"
  shows "\<not> is_space (hd s)" "\<not> is_space (last s)"
proof -
  from assms have "is_digit (hd s)" "is_digit (last s)" by (auto simp: list_all_iff)
  then show "\<not> is_space (hd s)" "\<not> is_space (last s)" by (auto dest: digit_not_special)
qed

lemma ib_stamp_shape:
  assumes "364878 \<le> n" "n \<le> MAXORDINAL"
  shows "length (ib_stamp n h m s) = 15" "take 8 (ib_stamp n h m s) = strftime_ymd n"
    "\<exists>r'. strip (ib_stamp n h m s @ r) = ib_stamp n h m s @ r'"
proof -
  note d = strptime_strftime [OF assms]
  show "length (ib_stamp n h m s) = 15" "take 8 (ib_stamp n h m s) = strftime_ymd n"
    using d by (simp_all add: ib_stamp_def)
  have ne: "strftime_ymd n \<noteq> []" "pad 2 s \<noteq> []" using d(2) length_pad [of 2 s] by force+
  have "hd (ib_stamp n h m s) = hd (strftime_ymd n)" "last (ib_stamp n h m s) = last (pad 2 s)"
    using ne by (simp_all add: ib_stamp_def)
  with digit_ends [OF d(3) ne(1)] digit_ends [OF list_all_digit_pad ne(2)]
  show "\<exists>r'. strip (ib_stamp n h m s @ r) = ib_stamp n h m s @ r'"
    using ne by (intro strip_append) (simp_all add: ib_stamp_def)
qed

text \<open>C26: A broker stamp is read on the exchange's clock. The day and time of day printed as yyyyMMdd;HHmmss, with
  anything after it, is read as exactly that reading of the local clock and stored as the instant it
  names; a bare day is local midnight, marked as a day only. Nothing is cut off and nothing is read as UTC.\<close>

theorem trade_time_read_locally:
  assumes "364878 \<le> n" "n \<le> MAXORDINAL" "h < 24" "m < 60" "s < 60"
    and "in_years (naive n (int h) (int m) (int s) - wall (naive n (int h) (int m) (int s)))"
    and "in_years (naive n 0 0 0 - wall (naive n 0 0 0))"
  shows "parse_flex_datetime wall (ib_stamp n h m s @ rest) =
      Inr (Some (naive n (int h) (int m) (int s) - wall (naive n (int h) (int m) (int s))), False) \<and>
    parse_flex_datetime wall (strftime_ymd n) = Inr (Some (naive n 0 0 0 - wall (naive n 0 0 0)), True)"
proof -
  note sh = ib_stamp_shape [OF assms(1,2), of h m s]
  obtain r' where r': "strip (ib_stamp n h m s @ rest) = ib_stamp n h m s @ r'" using sh(3) by blast
  have ne: "ib_stamp n h m s @ r' \<noteq> []" using sh(1) by force
  have "try_formats FLEX_DATETIME_FORMATS (ib_stamp n h m s @ r') = Some (naive n (int h) (int m) (int s), False)"
    using sh(1) strptime_ib_stamp [OF assms(1-5)] by (simp add: FLEX_DATETIME_FORMATS_def)
  with ne assms(6) have "parse_flex_datetime wall (ib_stamp n h m s @ rest) =
      Inr (Some (naive n (int h) (int m) (int s) - wall (naive n (int h) (int m) (int s))), False)"
    unfolding parse_flex_datetime_def r' by (simp add: local_to_utc_def Let_def)
  moreover
  note d = strptime_strftime [OF assms(1,2)]
  have ne: "strftime_ymd n \<noteq> []" using d(2) by force
  have "strip (strftime_ymd n) = strftime_ymd n" using digit_ends [OF d(3) ne] by (intro strip_id) simp
  moreover have "try_formats FLEX_DATETIME_FORMATS (strftime_ymd n) = Some (naive n 0 0 0, True)"
    using d(2) strptime_printed_day [OF assms(1,2)] by (simp add: FLEX_DATETIME_FORMATS_def)
  ultimately show ?thesis
    using ne assms(7) by (simp add: parse_flex_datetime_def local_to_utc_def Let_def)
qed

theorem trade_time_read_locally_witness:
  "parse_flex_datetime (\<lambda>_. - secs 14400) (ib_stamp 739863 9 30 0 @ '' EDT'') =
      Inr (Some (naive 739863 9 30 0 + secs 14400), False)"
  using trade_time_read_locally [of 739863 9 30 0 "\<lambda>_. - secs 14400" "'' EDT''"]
  by (simp add: MAXORDINAL_def in_years_def valid_date_def local_date_def naive_def secs_def usec_def EPOCH_ORDINAL_def)

text \<open>A cash row keeps the day only. Whatever time of day a broker stamp \<open>yyyyMMdd;HHmmss\<close> carries, the row is stamped with
  midnight UTC of its day, so a second fetch of the same row has the same stamp.\<close>

lemma cash_stamp_is_day:
  assumes "364878 \<le> n" "n \<le> MAXORDINAL"
  shows "cash_ts (ib_stamp n h m s @ rest) = Some (naive n 0 0 0)"
proof -
  note sh = ib_stamp_shape [OF assms, of h m s]
  note d = strptime_strftime [OF assms]
  obtain r' where r': "strip (ib_stamp n h m s @ rest) = ib_stamp n h m s @ r'" using sh(3) by blast
  have t8: "take 8 (ib_stamp n h m s @ r') = strftime_ymd n" using sh by simp
  have "\<forall>x \<in> set (strftime_ymd n). lower_char x \<noteq> lower_char (CHR '';'')"
    using d(3) by (auto simp: list_all_iff lower_char_digit) (auto simp: is_digit_def lower_char_def)
  then have "strptime fmt_ib (strftime_ymd n) = None"
    by (rule strptime_literal [rotated]) (simp add: fmt_ib_def)
  then have "try_cash_formats CASH_FORMATS (ib_stamp n h m s @ r') = Some (naive n 0 0 0)"
    by (simp only: CASH_FORMATS_def try_cash_formats.simps t8 strptime_printed_day [OF assms] option.case)
  then show ?thesis by (simp add: cash_ts_def r')
qed

end
