(* ===== verification/Fetch_Windows.thy ===== *)
theory Fetch_Windows
  imports Calendar_Dates
begin

text \<open>
  The days a run asks the broker for: \<open>transactions_window\<close> and \<open>split_window\<close> of
  \<^verbatim>\<open>orchestration/transactions.py\<close>, the automatic window of \<^verbatim>\<open>orchestration/trades.py\<close> and the date check
  of \<open>request_report\<close> in \<^verbatim>\<open>client/flex_client.py\<close>. The lemmas show that the chunks of a window are exactly its
  days, in order and without overlap, that each is short enough for one request, and that a printed
  window is read back as the same days.
\<close>

definition MAX_FLEX_DAYS :: int where
  "MAX_FLEX_DAYS = 366"

definition CHUNK_MAX_SPAN_DAYS :: nat where
  "CHUNK_MAX_SPAN_DAYS = nat (MAX_FLEX_DAYS - 2)"

text \<open>\<open>timedelta(days=n)\<close>, and a date less that many days.\<close>

definition timedelta_days :: "int \<Rightarrow> py_error + int" where
  "timedelta_days n = (if \<bar>n\<bar> \<le> 999999999 then Inr n else Inl (OverflowError (''days='' @ show_int n @ ''; must have magnitude <= 999999999'')))"

definition minus_days :: "date \<Rightarrow> int \<Rightarrow> py_error + date" where
  "minus_days d n = bind_err (timedelta_days n) (\<lambda>k. add_days d (- k))"

text \<open>\<open>datetime.strptime(s, "%Y%m%d")\<close> behind \<open>s.strip()[:8]\<close>.\<close>

definition parse_yyyymmdd :: "string \<Rightarrow> date option" where
  "parse_yyyymmdd s = (case strptime_ymd (take 8 (strip s)) of Inr d \<Rightarrow> Some d | Inl _ \<Rightarrow> None)"

definition flag_truthy :: "pyval \<Rightarrow> bool" where
  "flag_truthy v = (case v of
      PStr s \<Rightarrow> lower (strip s) \<notin> set [[], ''0'', ''false'', ''no'', ''off'']
    | _ \<Rightarrow> truthy v)"

subsection \<open>The window of a scheduled cash run\<close>

text \<open>\<open>last_dates\<close> is the per-account dictionary of last stored days.\<close>

definition transactions_window ::
  "(string \<times> date) list \<Rightarrow> int \<Rightarrow> int \<Rightarrow> date \<Rightarrow> py_error + date \<times> date \<times> string \<times> int" where
  "transactions_window last_dates default_days init_days today =
     bind_err (minus_days today 1) (\<lambda>yesterday.
     if last_dates = [] then
       bind_err (minus_days yesterday (max 1 init_days)) (\<lambda>start.
       Inr (start, yesterday, ''init'', yesterday - start))
     else
       let catch_up = Min (set (map snd last_dates)) in
       bind_err (minus_days yesterday (max 1 default_days)) (\<lambda>floor_day.
       let start = min catch_up floor_day in
       Inr (start, yesterday, ''incremental'', yesterday - start)))"

subsection \<open>Chunks\<close>

function chunks_from :: "nat \<Rightarrow> date \<Rightarrow> date \<Rightarrow> py_error + (date \<times> date) list" where
  "chunks_from span cur stop =
     (if stop < cur then Inr []
      else
        bind_err (add_days cur (int span)) (\<lambda>reach.
        let chunk_end = min stop reach in
        bind_err (add_days chunk_end 1) (\<lambda>cur'.
        bind_err (chunks_from span cur' stop) (\<lambda>rest. Inr ((cur, chunk_end) # rest)))))"
  by pat_completeness auto
termination
  by (relation "measure (\<lambda>(span, cur, stop). nat (stop + 1 - cur))") (auto simp: add_days_def split: if_splits)

declare chunks_from.simps [simp del]

definition split_window :: "date \<Rightarrow> date \<Rightarrow> nat \<Rightarrow> py_error + (date \<times> date) list" where
  "split_window start stop span = (if stop < start then Inr [(start, stop)] else chunks_from span start stop)"

subsection \<open>The automatic window of a trades run\<close>

text \<open>\<open>count\<close> and \<open>max_date\<close> of the stored executions; the window, its mode and its length.\<close>

definition trades_window ::
  "int \<Rightarrow> date option \<Rightarrow> int \<Rightarrow> int \<Rightarrow> date \<Rightarrow> py_error + date \<times> date \<times> string \<times> int" where
  "trades_window stored max_date default_days init_days today =
     bind_err (minus_days today 1) (\<lambda>yesterday.
     case (if stored = 0 then None else max_date) of
       None \<Rightarrow> bind_err (minus_days yesterday init_days) (\<lambda>start. Inr (start, yesterday, ''init'', init_days))
     | Some last_date \<Rightarrow>
         let total_days = max 0 (yesterday - last_date) + default_days in
         bind_err (minus_days yesterday total_days) (\<lambda>start. Inr (start, yesterday, ''incremental'', total_days)))"

subsection \<open>The dates of one request\<close>

text \<open>The part of \<open>request_report\<close> before the request: what it sends as \<open>fd\<close> and \<open>td\<close>.\<close>

definition report_dates :: "string option \<Rightarrow> string option \<Rightarrow> py_error + (string \<times> string) option" where
  "report_dates from_date to_date =
     (if the_text from_date \<noteq> [] \<and> the_text to_date \<noteq> [] then
        let fs = take 8 (strip (the_text from_date)); ts = take 8 (strip (the_text to_date)) in
        case (strptime_ymd fs, strptime_ymd ts) of
          (Inr fd, Inr td) \<Rightarrow>
            if MAX_FLEX_DAYS < td - fd then
              Inl (ValueError (''Date range cannot exceed 366 days (IB Flex limit). '' @
                ''Use from_date and to_date within 366 days, or omit both to use the query default period (e.g. Last 365 Calendar Days).''))
            else Inr (Some (fs, ts))
        | (Inl (ValueError e), _) \<Rightarrow> Inl (ValueError (''from_date and to_date must be yyyyMMdd format: '' @ e))
        | (_, Inl (ValueError e)) \<Rightarrow> Inl (ValueError (''from_date and to_date must be yyyyMMdd format: '' @ e))
        | (Inl e, _) \<Rightarrow> Inl e
        | (_, Inl e) \<Rightarrow> Inl e
      else if the_text from_date \<noteq> [] \<or> the_text to_date \<noteq> [] then
        Inl (ValueError ''When overriding dates, both from_date and to_date are required (yyyyMMdd).'')
      else Inr None)"

subsection \<open>Chunks cover a window exactly\<close>

lemma add_days_Inr: "valid_date (d + n) \<Longrightarrow> add_days d n = Inr (d + n)"
  by (simp add: add_days_def)

lemma chunks_from_exact:
  assumes "1 \<le> cur" "cur \<le> stop + 1" "stop + int span < MAXORDINAL"
  shows "\<exists>cs. chunks_from span cur stop = Inr cs \<and> concat (map (\<lambda>(a, b). [a..b]) cs) = [cur..stop] \<and>
     (\<forall>(a, b) \<in> set cs. cur \<le> a \<and> a \<le> b \<and> b \<le> stop \<and> b - a \<le> int span) \<and>
     int (length cs) * (int span + 1) < stop - cur + 1 + (int span + 1)"
  using assms
proof (induction span cur stop rule: chunks_from.induct)
  case (1 span cur stop)
  show ?case
  proof (cases "stop < cur")
    case True
    with 1 show ?thesis by (auto simp: chunks_from.simps [of span cur stop])
  next
    case False
    define e where "e = min stop (cur + int span)"
    have v: "valid_date (cur + int span)" "valid_date (e + 1)" and e: "cur \<le> e" "e \<le> stop" "e - cur \<le> int span"
      using False 1(2-4) by (auto simp: valid_date_def e_def)
    have step: "chunks_from span cur stop = bind_err (chunks_from span (e + 1) stop) (\<lambda>rest. Inr ((cur, e) # rest))"
      using False v e by (simp add: chunks_from.simps [of span cur stop] add_days_Inr Let_def flip: e_def)
    have "1 \<le> e + 1" using e 1(2) by simp
    from 1(1) [OF False add_days_Inr [OF v(1)] e_def, unfolded add_days_Inr [OF v(2)], OF refl this _ 1(4)] e
    obtain cs where cs: "chunks_from span (e + 1) stop = Inr cs" "concat (map (\<lambda>(a, b). [a..b]) cs) = [e + 1..stop]"
      "\<forall>(a, b) \<in> set cs. e + 1 \<le> a \<and> a \<le> b \<and> b \<le> stop \<and> b - a \<le> int span"
      "int (length cs) * (int span + 1) < stop - (e + 1) + 1 + (int span + 1)"
      by auto
    have "[cur..e] @ [e + 1..stop] = [cur..stop]"
      using e by (simp add: upto_split2 [of cur e stop])
    moreover have "int (length ((cur, e) # cs)) * (int span + 1) < stop - cur + 1 + (int span + 1)"
    proof (cases "e = stop")
      case True
      with cs(4) have "int (length cs) * (int span + 1) < 1 * (int span + 1)" by simp
      then have "int (length cs) < 1" by (simp only: mult_less_cancel_right)
      with True e show ?thesis by simp
    next
      case False
      then have "e = cur + int span" by (simp add: e_def split: if_splits)
      with cs(4) show ?thesis by (simp add: algebra_simps)
    qed
    ultimately show ?thesis
      using step cs e by (intro exI [of _ "(cur, e) # cs"]) fastforce
  qed
qed

lemma split_window_covers:
  assumes "1 \<le> start" "start \<le> stop" "stop + int span < MAXORDINAL"
  obtains cs where "split_window start stop span = Inr cs" "concat (map (\<lambda>(a, b). [a..b]) cs) = [start..stop]"
    "\<And>a b. (a, b) \<in> set cs \<Longrightarrow> start \<le> a \<and> a \<le> b \<and> b \<le> stop \<and> b - a \<le> int span"
    "int (length cs) * (int span + 1) < stop - start + 1 + (int span + 1)"
  using chunks_from_exact [of start stop span] assms that by (fastforce simp: split_window_def)

text \<open>C23: A window is split into chunks that are exactly its days: laid end to end the chunks list every day from
  the first to the last once and in order, each is a proper interval no longer than the span allows,
  and there are no more of them than needed.\<close>

theorem split_window_exact:
  assumes "1 \<le> start" "start \<le> stop" "stop + int span < MAXORDINAL"
  shows "\<exists>cs. split_window start stop span = Inr cs \<and> concat (map (\<lambda>(a, b). [a..b]) cs) = [start..stop] \<and>
     (\<forall>(a, b) \<in> set cs. a \<le> b \<and> b - a \<le> int span) \<and>
     (int (length cs) - 1) * (int span + 1) < stop - start + 1"
proof -
  obtain cs where cs: "split_window start stop span = Inr cs" "concat (map (\<lambda>(a, b). [a..b]) cs) = [start..stop]"
    "\<And>a b. (a, b) \<in> set cs \<Longrightarrow> start \<le> a \<and> a \<le> b \<and> b \<le> stop \<and> b - a \<le> int span"
    "int (length cs) * (int span + 1) < stop - start + 1 + (int span + 1)"
    using split_window_covers [OF assms] by blast
  from cs(4) have "(int (length cs) - 1) * (int span + 1) < stop - start + 1" by (simp add: algebra_simps)
  with cs(1-3) show ?thesis by blast
qed

theorem split_window_exact_witness:
  "\<exists>cs. split_window 739000 740000 CHUNK_MAX_SPAN_DAYS = Inr cs \<and> concat (map (\<lambda>(a, b). [a..b]) cs) = [739000..740000] \<and>
     (\<forall>(a, b) \<in> set cs. a \<le> b \<and> b - a \<le> int CHUNK_MAX_SPAN_DAYS) \<and>
     (int (length cs) - 1) * (int CHUNK_MAX_SPAN_DAYS + 1) < 740000 - 739000 + 1"
  by (rule split_window_exact) (simp_all add: CHUNK_MAX_SPAN_DAYS_def MAX_FLEX_DAYS_def MAXORDINAL_def)

subsection \<open>Printed windows\<close>

lemma strip_digits:
  assumes "list_all is_digit s"
  shows "strip s = s"
proof (rule strip_id)
  have "is_digit (hd s)" "is_digit (last s)" if "s \<noteq> []"
    using assms that by (auto simp: list_all_iff)
  then show "s = [] \<or> (\<not> is_space (hd s) \<and> \<not> is_space (last s))"
    by (auto dest: digit_not_special)
qed

lemma printed_date:
  assumes "364878 \<le> n" "n \<le> MAXORDINAL"
  shows "strip (strftime_ymd n) = strftime_ymd n" "take 8 (strftime_ymd n) = strftime_ymd n"
    "strptime_ymd (strftime_ymd n) = Inr n" "strftime_ymd n \<noteq> []" "parse_yyyymmdd (strftime_ymd n) = Some n"
  using strptime_strftime [OF assms] by (auto simp: strip_digits parse_yyyymmdd_def)

lemma report_dates_printed:
  assumes "364878 \<le> a" "a \<le> MAXORDINAL" "364878 \<le> b" "b \<le> MAXORDINAL"
  shows "report_dates (Some (strftime_ymd a)) (Some (strftime_ymd b)) =
    (if MAX_FLEX_DAYS < b - a then
       Inl (ValueError (''Date range cannot exceed 366 days (IB Flex limit). '' @
         ''Use from_date and to_date within 366 days, or omit both to use the query default period (e.g. Last 365 Calendar Days).''))
     else Inr (Some (strftime_ymd a, strftime_ymd b)))"
  using printed_date [OF assms(1,2)] printed_date [OF assms(3,4)] by (simp add: report_dates_def)

text \<open>Every chunk of a window is a request the client sends unchanged: the printed dates of the chunk pass the
  client's own check of format and length, and they read back as the chunk's days.\<close>

lemma chunk_dates_sent:
  assumes "364878 \<le> start" "start \<le> stop" "stop + int CHUNK_MAX_SPAN_DAYS < MAXORDINAL"
    and "split_window start stop CHUNK_MAX_SPAN_DAYS = Inr cs" "(a, b) \<in> set cs"
  shows "report_dates (Some (strftime_ymd a)) (Some (strftime_ymd b)) = Inr (Some (strftime_ymd a, strftime_ymd b)) \<and>
    parse_yyyymmdd (strftime_ymd a) = Some a \<and> parse_yyyymmdd (strftime_ymd b) = Some b"
proof -
  have "1 \<le> start" using assms(1) by simp
  from split_window_covers [OF this assms(2,3)] assms(4,5)
  have ab: "start \<le> a" "a \<le> b" "b \<le> stop" "b - a \<le> int CHUNK_MAX_SPAN_DAYS"
    by (metis Inr_inject)+
  have r: "364878 \<le> a" "a \<le> MAXORDINAL" "364878 \<le> b" "b \<le> MAXORDINAL"
    using ab assms(1-3) by linarith+
  have "\<not> MAX_FLEX_DAYS < b - a" using ab(4) by (simp add: CHUNK_MAX_SPAN_DAYS_def MAX_FLEX_DAYS_def)
  then show ?thesis
    using report_dates_printed [OF r] printed_date(5) [OF r(1,2)] printed_date(5) [OF r(3,4)] by simp
qed

subsection \<open>Which days a scheduled run asks for\<close>

lemma minus_days_Inr: "minus_days d n = Inr e \<Longrightarrow> e = d - n \<and> 1 \<le> e \<and> e \<le> MAXORDINAL"
  by (auto simp: minus_days_def timedelta_days_def add_days_def valid_date_def bind_err_eq_Inr split: if_splits)

lemma transactions_window_Inr:
  assumes "transactions_window last_dates default_days init_days today = Inr (start, stop, mode, n)"
  shows "stop = today - 1" "n = stop - start" "start < stop"
    "last_dates \<noteq> [] \<Longrightarrow> start = min (Min (snd ` set last_dates)) (stop - max 1 default_days)"
    "last_dates = [] \<Longrightarrow> start = stop - max 1 init_days"
  using assms
  by (auto simp: transactions_window_def bind_err_eq_Inr Let_def dest!: minus_days_Inr split: if_splits)

lemma mem_concat_intervals:
  "d \<in> set (concat (map (\<lambda>(a, b). [a..b]) cs)) \<longleftrightarrow> (\<exists>(a, b) \<in> set cs. a \<le> d \<and> d \<le> (b :: int))"
  by (auto 4 3)

text \<open>A scheduled cash run leaves no gap. Whatever days the accounts were last stored on, every day from any
  account's last stored day up to yesterday lies in a chunk that the run asks for - however long the
  outage was - and so do at least the configured default days.\<close>

lemma scheduled_cash_run_refills:
  assumes "transactions_window last_dates default_days init_days today = Inr (start, stop, mode, n)"
    and "today + int CHUNK_MAX_SPAN_DAYS \<le> MAXORDINAL" "1 \<le> start"
    and "(acct, stored_day) \<in> set last_dates" "stored_day \<le> d \<or> today - 1 - default_days \<le> d" "d < today"
  shows "\<exists>cs. split_window start stop CHUNK_MAX_SPAN_DAYS = Inr cs \<and> (\<exists>(a, b) \<in> set cs. a \<le> d \<and> d \<le> b)"
proof -
  note w = transactions_window_Inr [OF assms(1)]
  have "stored_day \<in> snd ` set last_dates" using assms(4) by force
  then have "Min (snd ` set last_dates) \<le> stored_day" by simp
  moreover have "start = min (Min (snd ` set last_dates)) (stop - max 1 default_days)"
    using w(4) assms(4) by fastforce
  ultimately have d: "start \<le> d" "d \<le> stop" using w(1) assms(5,6) by auto
  have "stop + int CHUNK_MAX_SPAN_DAYS < MAXORDINAL" using assms(2) w(1) by simp
  then obtain cs where cs: "split_window start stop CHUNK_MAX_SPAN_DAYS = Inr cs"
    "concat (map (\<lambda>(a, b). [a..b]) cs) = [start..stop]"
    using split_window_covers [OF assms(3) less_imp_le [OF w(3)]] by blast
  have "d \<in> set (concat (map (\<lambda>(a, b). [a..b]) cs))" using cs(2) d by simp
  then show ?thesis using cs(1) unfolding mem_concat_intervals by blast
qed

text \<open>The automatic window of a trades run is never split: once the last stored trade is so old that the window
  exceeds 366 days, the client refuses the printed window before any request is made.\<close>

lemma long_trades_window_refused:
  assumes "trades_window stored max_date default_days init_days today = Inr (start, stop, mode, n)"
    and "364878 \<le> start" "MAX_FLEX_DAYS < n"
  shows "\<exists>e. report_dates (Some (strftime_ymd start)) (Some (strftime_ymd stop)) = Inl (ValueError e)"
proof -
  have "stop \<le> MAXORDINAL \<and> n = stop - start"
    using assms(1) by (auto simp: trades_window_def bind_err_eq_Inr Let_def dest!: minus_days_Inr split: option.splits if_splits)
  then have r: "364878 \<le> start" "start \<le> MAXORDINAL" "364878 \<le> stop" "stop \<le> MAXORDINAL" and n: "n = stop - start"
    using assms(2,3) by (auto simp: MAX_FLEX_DAYS_def)
  show ?thesis using report_dates_printed [OF r] assms(3) n by simp
qed

end
