(* ===== verification/Flex_Client.thy ===== *)
theory Flex_Client
  imports Flex_Xml Fetch_Windows Retry_Policy
begin

text \<open>
  \<^verbatim>\<open>client/flex_client.py\<close>, the conversation with the broker's Flex web service: asking for a report, polling
  until it is generated, and telling a report from an answer that is not one yet. The service is a
  parameter: what it answers to a URL may depend on every request made before. The log of requests
  and the seconds slept are kept beside it, so that a property can count them.
\<close>

subsection \<open>HTTP\<close>

datatype reply = Body string | UrlError string | Dropped string

type_synonym service = "string list \<Rightarrow> string \<Rightarrow> reply"

record wire =
  sent :: "string list"
  slept :: int

text \<open>\<open>urlopen\<close> and reading the answer: a body, an \<open>HTTPError\<close> or \<open>URLError\<close>, or another \<open>OSError\<close> such as a read
  that timed out.\<close>

definition urlopen :: "service \<Rightarrow> string \<Rightarrow> wire \<Rightarrow> reply \<times> wire" where
  "urlopen srv url w = (srv (sent w) url, w\<lparr>sent := sent w @ [url]\<rparr>)"

definition upper_hex :: "nat \<Rightarrow> char" where
  "upper_hex n = (if n < 10 then char_of (48 + n) else char_of (55 + n))"

definition quote_char :: "char \<Rightarrow> string" where
  "quote_char c =
     (let n = (of_char c :: nat) in
      if 48 \<le> n \<and> n \<le> 57 \<or> 65 \<le> n \<and> n \<le> 90 \<or> 97 \<le> n \<and> n \<le> 122 \<or> c \<in> set ''_.-~'' then [c]
      else if c = CHR '' '' then ''+''
      else [CHR ''%'', upper_hex (n div 16), upper_hex (n mod 16)])"

definition quote_plus :: "string \<Rightarrow> string" where
  "quote_plus s = concat (map quote_char s)"

definition urlencode :: "(string \<times> string) list \<Rightarrow> string" where
  "urlencode ps = join ''&'' (map (\<lambda>(k, v). quote_plus k @ ''='' @ quote_plus v) ps)"

definition FLEX_SEND_REQUEST_URL :: string where
  "FLEX_SEND_REQUEST_URL = ''https://ndcdyn.interactivebrokers.com/AccountManagement/FlexWebService/SendRequest''"

definition FLEX_GET_STATEMENT_URL :: string where
  "FLEX_GET_STATEMENT_URL = ''https://ndcdyn.interactivebrokers.com/AccountManagement/FlexWebService/GetStatement''"

definition MAX_GET_STATEMENT_POLLS :: nat where
  "MAX_GET_STATEMENT_POLLS = 24"

definition POLL_INTERVAL_SEC :: int where
  "POLL_INTERVAL_SEC = 5"

subsection \<open>Asking for a report\<close>

definition report_params ::
  "string \<Rightarrow> string \<Rightarrow> string option \<Rightarrow> string option \<Rightarrow> int option \<Rightarrow> py_error + (string \<times> string) list" where
  "report_params token query_id from_date to_date period =
     (let base = [(''t'', token), (''q'', query_id), (''v'', ''3'')] in
      case period of
        Some p \<Rightarrow> Inr (base @ [(''p'', show_int p)])
      | None \<Rightarrow> bind_err (report_dates from_date to_date) (\<lambda>ds.
          Inr (base @ (case ds of None \<Rightarrow> [] | Some (fd, td) \<Rightarrow> [(''fd'', fd), (''td'', td)]))))"

definition send_request_url :: "(string \<times> string) list \<Rightarrow> string" where
  "send_request_url ps = FLEX_SEND_REQUEST_URL @ ''?'' @ urlencode ps"

text \<open>What \<open>request_report\<close> makes of the answer.\<close>

definition reference_code :: "xml \<Rightarrow> py_error + string" where
  "reference_code root =
     (if lower (strip (text_of root ''Status'' [])) = ''fail'' then
        Inl (ValueError (''Flex request failed: ['' @ text_of root ''ErrorCode'' [] @ ''] '' @
          text_of root ''ErrorMessage'' ''Unknown error''))
      else
        let ref = strip (text_of root ''ReferenceCode'' []) in
        if ref = [] then Inl (ValueError ''Flex SendRequest returned no ReferenceCode'') else Inr ref)"

definition request_report ::
  "xml_parser \<Rightarrow> service \<Rightarrow> string \<Rightarrow> string \<Rightarrow> string option \<Rightarrow> string option \<Rightarrow> int option \<Rightarrow> wire \<Rightarrow>
     (py_error + string) \<times> wire" where
  "request_report parser srv token query_id from_date to_date period w =
     (case report_params token query_id from_date to_date period of
        Inl e \<Rightarrow> (Inl e, w)
      | Inr ps \<Rightarrow>
          (case urlopen srv (send_request_url ps) w of
             (UrlError e, w') \<Rightarrow> (Inl (ValueError (''Flex SendRequest failed: '' @ e)), w')
           | (Dropped e, w') \<Rightarrow> (Inl (OSError e), w')
           | (Body body, w') \<Rightarrow>
               (case parser body of
                  Inl e \<Rightarrow> (Inl (ParseError e), w')
                | Inr root \<Rightarrow> (reference_code root, w'))))"

subsection \<open>Waiting for the report\<close>

definition statement_not_ready :: "xml_parser \<Rightarrow> string \<Rightarrow> string option" where
  "statement_not_ready parser body =
     (case parser body of
        Inl e \<Rightarrow> Some (''response is not XML ('' @ e @ '')'')
      | Inr root \<Rightarrow>
          let tag = local_name (xtag root) in
          if tag = ''FlexStatementResponse'' then
            let status = or_text [text_of root ''Status'' [], ''no Status''];
                code = text_of root ''ErrorCode'' [];
                msg = or_text [text_of root ''ErrorMessage'' [], ''Report not ready'']
            in Some (if code \<noteq> [] then status @ '' ['' @ code @ ''] '' @ msg else status @ '': '' @ msg)
          else if tag \<noteq> ''FlexQueryResponse'' then Some (''unexpected <'' @ tag @ ''> response'')
          else if \<not> list_ex (\<lambda>node. local_name (xtag node) = ''FlexStatement'') (xiter root)
          then Some ''FlexQueryResponse without a FlexStatement''
          else None)"

definition get_statement_url :: "string \<Rightarrow> string \<Rightarrow> string" where
  "get_statement_url token ref =
     FLEX_GET_STATEMENT_URL @ ''?'' @ urlencode [(''t'', token), (''q'', ref), (''v'', ''3'')]"

definition nap :: "wire \<Rightarrow> wire" where
  "nap w = w\<lparr>slept := slept w + POLL_INTERVAL_SEC\<rparr>"

fun poll_statement :: "xml_parser \<Rightarrow> service \<Rightarrow> string \<Rightarrow> nat \<Rightarrow> string option \<Rightarrow> wire \<Rightarrow> (py_error + string) \<times> wire" where
  "poll_statement parser srv url 0 last_err w =
     (Inl (ValueError (''Flex GetStatement did not return report after '' @ show_nat MAX_GET_STATEMENT_POLLS @
        '' attempts. Last: '' @ (case last_err of None \<Rightarrow> ''None'' | Some e \<Rightarrow> e))), w)"
| "poll_statement parser srv url (Suc n) last_err w =
     (case urlopen srv url w of
        (UrlError e, w') \<Rightarrow> poll_statement parser srv url n (Some e) (nap w')
      | (Dropped e, w') \<Rightarrow> (Inl (OSError e), w')
      | (Body body, w') \<Rightarrow>
          (case statement_not_ready parser body of
             None \<Rightarrow> (Inr body, w')
           | Some why \<Rightarrow> poll_statement parser srv url n (Some why) (nap w')))"

definition get_statement :: "xml_parser \<Rightarrow> service \<Rightarrow> string \<Rightarrow> string \<Rightarrow> wire \<Rightarrow> (py_error + string) \<times> wire" where
  "get_statement parser srv token ref w =
     poll_statement parser srv (get_statement_url token ref) MAX_GET_STATEMENT_POLLS None w"

subsection \<open>Polling\<close>

text \<open>What the service answers to the \<open>k\<close>-th poll of a URL, and why an answer is not a report; a dropped
  connection is neither.\<close>

definition answer :: "service \<Rightarrow> string \<Rightarrow> wire \<Rightarrow> nat \<Rightarrow> reply" where
  "answer srv url w k = srv (sent w @ replicate k url) url"

fun unready :: "xml_parser \<Rightarrow> reply \<Rightarrow> string option" where
  "unready parser (UrlError e) = Some e"
| "unready parser (Dropped e) = None"
| "unready parser (Body b) = statement_not_ready parser b"

definition polled :: "string \<Rightarrow> nat \<Rightarrow> nat \<Rightarrow> wire \<Rightarrow> wire" where
  "polled url k naps w = w\<lparr>sent := sent w @ replicate k url, slept := slept w + int naps * POLL_INTERVAL_SEC\<rparr>"

lemma answer_polled: "answer srv url (polled url (Suc 0) (Suc 0) w) k = answer srv url w (Suc k)"
  by (simp add: answer_def polled_def)

lemma polled_polled: "polled url a b (polled url c d w) = polled url (c + a) (d + b) w"
  by (simp add: polled_def distrib_right flip: replicate_add)

lemma poll_unready:
  "unready parser (answer srv url w 0) = Some why \<Longrightarrow>
     poll_statement parser srv url (Suc n) le w = poll_statement parser srv url n (Some why) (polled url (Suc 0) (Suc 0) w)"
  by (auto simp: urlopen_def answer_def polled_def nap_def split: reply.splits option.splits)

lemma poll_ready:
  "answer srv url w 0 = Body b \<Longrightarrow> statement_not_ready parser b = None \<Longrightarrow>
     poll_statement parser srv url (Suc n) le w = (Inr b, polled url (Suc 0) 0 w)"
  by (simp add: urlopen_def answer_def polled_def)

lemma poll_finds_report:
  "k < n \<Longrightarrow> (\<And>j. j < k \<Longrightarrow> unready parser (answer srv url w j) \<noteq> None) \<Longrightarrow> answer srv url w k = Body b \<Longrightarrow>
     statement_not_ready parser b = None \<Longrightarrow> poll_statement parser srv url n le w = (Inr b, polled url (Suc k) k w)"
proof (induction k arbitrary: n le w)
  case 0
  then show ?case by (cases n) (simp_all add: poll_ready del: poll_statement.simps)
next
  case (Suc k)
  from Suc.prems(2) [of 0] obtain why where "unready parser (answer srv url w 0) = Some why" by auto
  with Suc.prems(1) obtain n' where n': "n = Suc n'" "unready parser (answer srv url w 0) = Some why" by (cases n) auto
  have "poll_statement parser srv url n' (Some why) (polled url (Suc 0) (Suc 0) w) = (Inr b, polled url (Suc k) k (polled url (Suc 0) (Suc 0) w))"
    using Suc.prems n' by (intro Suc.IH) (auto simp: answer_polled)
  then show ?case using poll_unready [OF n'(2)] n'(1) by (simp add: polled_polled)
qed

lemma poll_exhausted:
  "(\<And>j. j < Suc n \<Longrightarrow> unready parser (answer srv url w j) \<noteq> None) \<Longrightarrow>
     poll_statement parser srv url (Suc n) le w =
       poll_statement parser srv url 0 (unready parser (answer srv url w n)) (polled url (Suc n) (Suc n) w)"
proof (induction n arbitrary: le w)
  case 0
  then obtain why where "unready parser (answer srv url w 0) = Some why" by force
  then show ?case using poll_unready by fastforce
next
  case (Suc n)
  then obtain why where why: "unready parser (answer srv url w 0) = Some why" by force
  have "poll_statement parser srv url (Suc n) (Some why) (polled url (Suc 0) (Suc 0) w) =
      poll_statement parser srv url 0 (unready parser (answer srv url (polled url (Suc 0) (Suc 0) w) n)) (polled url (Suc n) (Suc n) (polled url (Suc 0) (Suc 0) w))"
    using Suc.prems by (intro Suc.IH) (simp add: answer_polled)
  then show ?case
    unfolding poll_unready [OF why] polled_polled answer_polled by simp
qed

lemma poll_returns_reports: "poll_statement parser srv url n le w = (Inr b, w') \<Longrightarrow> statement_not_ready parser b = None"
  by (induction n arbitrary: le w) (auto simp: urlopen_def split: reply.splits option.splits)

text \<open>C24: Waiting for a report. The body handed to the parser is always a generated report, never a "not ready"
  answer; it is the first one the service gives within 24 polls, asked for with one request per poll
  and five seconds between two polls. When all 24 answers are something else, the fetch fails with
  the reason of the last one, after 24 requests.\<close>

theorem report_polled_until_ready:
  shows "(\<forall>b w'. get_statement parser srv token ref w = (Inr b, w') \<longrightarrow> statement_not_ready parser b = None) \<and>
    (\<forall>k b. k < 24 \<and> (\<forall>j < k. unready parser (answer srv (get_statement_url token ref) w j) \<noteq> None) \<and>
       answer srv (get_statement_url token ref) w k = Body b \<and> statement_not_ready parser b = None \<longrightarrow>
       get_statement parser srv token ref w = (Inr b, polled (get_statement_url token ref) (Suc k) k w)) \<and>
    (\<forall>why. (\<forall>j < 24. unready parser (answer srv (get_statement_url token ref) w j) \<noteq> None) \<and>
       unready parser (answer srv (get_statement_url token ref) w 23) = Some why \<longrightarrow>
       get_statement parser srv token ref w =
         (Inl (ValueError (''Flex GetStatement did not return report after 24 attempts. Last: '' @ why)),
          polled (get_statement_url token ref) 24 24 w))"
proof (intro conjI allI impI)
  fix b w' assume "get_statement parser srv token ref w = (Inr b, w')"
  then show "statement_not_ready parser b = None" unfolding get_statement_def by (rule poll_returns_reports)
next
  fix k b assume "k < 24 \<and> (\<forall>j < k. unready parser (answer srv (get_statement_url token ref) w j) \<noteq> None) \<and>
       answer srv (get_statement_url token ref) w k = Body b \<and> statement_not_ready parser b = None"
  then show "get_statement parser srv token ref w = (Inr b, polled (get_statement_url token ref) (Suc k) k w)"
    unfolding get_statement_def MAX_GET_STATEMENT_POLLS_def by (intro poll_finds_report) auto
next
  fix why assume a: "(\<forall>j < 24. unready parser (answer srv (get_statement_url token ref) w j) \<noteq> None) \<and>
       unready parser (answer srv (get_statement_url token ref) w 23) = Some why"
  have n: "MAX_GET_STATEMENT_POLLS = Suc 23" "show_nat MAX_GET_STATEMENT_POLLS = ''24''"
    by (simp add: MAX_GET_STATEMENT_POLLS_def) code_simp
  have "get_statement parser srv token ref w = poll_statement parser srv (get_statement_url token ref) 0 (Some why)
      (polled (get_statement_url token ref) (Suc 23) (Suc 23) w)"
    unfolding get_statement_def n(1) using a by (subst poll_exhausted) auto
  then show "get_statement parser srv token ref w =
         (Inl (ValueError (''Flex GetStatement did not return report after 24 attempts. Last: '' @ why)),
          polled (get_statement_url token ref) 24 24 w)"
    by (simp add: n(2))
qed

text \<open>A service that answers the first poll with a warning and the second with a report.\<close>

definition sample_warning :: xml where
  "sample_warning = Elem ''FlexStatementResponse'' [] None
     [Elem ''Status'' [] (Some ''Warn'') [], Elem ''ErrorCode'' [] (Some ''1019'') [],
      Elem ''ErrorMessage'' [] (Some ''Statement generation in progress'') []]"

definition sample_parser :: xml_parser where
  "sample_parser body =
     (if body = ''warn'' then Inr sample_warning
      else Inr (Elem ''FlexQueryResponse'' [] None [Elem ''FlexStatement'' [(''accountId'', ''U1'')] None []]))"

definition sample_service :: service where
  "sample_service past url = (if past = [] then Body ''warn'' else Body ''report'')"

theorem report_polled_until_ready_witness:
  "get_statement sample_parser sample_service ''t'' ''r'' \<lparr>sent = [], slept = 0\<rparr> =
     (Inr ''report'', polled (get_statement_url ''t'' ''r'') 2 1 \<lparr>sent = [], slept = 0\<rparr>)"
proof -
  have "statement_not_ready sample_parser ''warn'' \<noteq> None" "statement_not_ready sample_parser ''report'' = None"
    by code_simp+
  then have a: "1 < (24 :: nat) \<and> (\<forall>j < 1. unready sample_parser (answer sample_service (get_statement_url ''t'' ''r'') \<lparr>sent = [], slept = 0\<rparr> j) \<noteq> None) \<and>
      answer sample_service (get_statement_url ''t'' ''r'') \<lparr>sent = [], slept = 0\<rparr> 1 = Body ''report'' \<and>
      statement_not_ready sample_parser ''report'' = None"
    by (simp add: answer_def sample_service_def)
  have "get_statement sample_parser sample_service ''t'' ''r'' \<lparr>sent = [], slept = 0\<rparr> =
      (Inr ''report'', polled (get_statement_url ''t'' ''r'') (Suc 1) 1 \<lparr>sent = [], slept = 0\<rparr>)"
    by (rule report_polled_until_ready [THEN conjunct2, THEN conjunct1, THEN spec, THEN spec, THEN mp, OF a])
  then show ?thesis by (simp only: Suc_1)
qed

subsection \<open>The broker's error codes\<close>

lemma length_4_list: "length xs = 4 \<Longrightarrow> \<exists>b c d e. xs = [b, c, d, e]"
  by (auto simp: length_Suc_conv eval_nat_numeral)

lemma quoted_code_padI:
  assumes "n < 10000"
  shows "quoted_code n (''['' @ pad 4 n @ '']'')"
proof -
  have "length (pad 4 n) = 4" "list_all is_digit (pad 4 n)" "digits_val (pad 4 n) = n"
    using assms by (simp_all add: digits_val_pad)
  moreover from this(1) obtain b c d e where "pad 4 n = [b, c, d, e]"
    using length_4_list by blast
  ultimately show ?thesis by (auto simp: quoted_code_def)
qed

lemma code_in_text:
  assumes "n < 10000"
  shows "n \<in> flex_error_codes (u @ ''['' @ pad 4 n @ '']'' @ v)"
  unfolding flex_error_codes_iff contains_iff using quoted_code_padI [OF assms] by fastforce

text \<open>The broker's error code always reaches the retry policy. A refused SendRequest, and a GetStatement that
  keeps answering with an error, fail with a text in which the policy finds the code IB gave.\<close>

lemma broker_code_reaches_policy:
  assumes "text_of root ''ErrorCode'' [] = pad 4 n" "n < 10000"
  shows "(lower (strip (text_of root ''Status'' [])) = ''fail'' \<longrightarrow>
      (\<exists>e. reference_code root = Inl (ValueError e) \<and> n \<in> flex_error_codes e)) \<and>
    (parser body = Inr root \<and> local_name (xtag root) = ''FlexStatementResponse'' \<longrightarrow>
      (\<exists>why. statement_not_ready parser body = Some why \<and>
         n \<in> flex_error_codes (''Flex GetStatement did not return report after 24 attempts. Last: '' @ why)))"
proof -
  have ne: "pad 4 n \<noteq> []" using length_pad [of 4 n] by force
  have "n \<in> flex_error_codes (''Flex request failed: ['' @ pad 4 n @ ''] '' @ text_of root ''ErrorMessage'' ''Unknown error'')"
    using code_in_text [OF assms(2), of "''Flex request failed: ''" "'' '' @ text_of root ''ErrorMessage'' ''Unknown error''"] by simp
  moreover have "n \<in> flex_error_codes (''Flex GetStatement did not return report after 24 attempts. Last: '' @ st @ '' ['' @ pad 4 n @ ''] '' @ msg)"
    for st msg
    using code_in_text [OF assms(2), of "''Flex GetStatement did not return report after 24 attempts. Last: '' @ st @ '' ''" "'' '' @ msg"]
    by simp
  ultimately show ?thesis
    using assms(1) ne by (simp add: reference_code_def statement_not_ready_def Let_def)
qed

subsection \<open>Requests made\<close>

lemma request_report_once:
  "sent (snd (request_report parser srv token query_id fd td period w)) =
     sent w @ (case report_params token query_id fd td period of Inl _ \<Rightarrow> [] | Inr ps \<Rightarrow> [send_request_url ps])"
  by (auto simp: request_report_def urlopen_def split: sum.splits reply.splits)

end
