(* ===== verification/Flex_Reports.thy ===== *)
theory Flex_Reports
  imports Flex_Client
begin

text \<open>
  The two report parsers of \<^verbatim>\<open>client/flex_client.py\<close> and the fetches that use them. A parsed row is the
  dictionary the code builds, an association list in insertion order. Fields come from child
  elements or attributes; floats are read with Python's rounding.
\<close>

datatype cell =
    CNone
  | CStr string
  | CInt int
  | CFloat pyfloat
  | CDate date
  | CDatetime instant
  | CExtra "(string \<times> string) list"

type_synonym row = "(string \<times> cell) list"

definition rget :: "row \<Rightarrow> string \<Rightarrow> cell" where
  "rget r k = (case map_of r k of None \<Rightarrow> CNone | Some v \<Rightarrow> v)"

text \<open>\<open>s or None\<close>, \<open>float | None\<close> and \<open>date | None\<close> as a cell.\<close>

definition cstr :: "string \<Rightarrow> cell" where
  "cstr s = (if s = [] then CNone else CStr s)"

definition cfloat :: "pyfloat option \<Rightarrow> cell" where
  "cfloat f = (case f of None \<Rightarrow> CNone | Some x \<Rightarrow> CFloat x)"

definition cdate :: "date option \<Rightarrow> cell" where
  "cdate d = (case d of None \<Rightarrow> CNone | Some x \<Rightarrow> CDate x)"

subsection \<open>Cash transactions\<close>

definition normalize_type :: "string \<Rightarrow> string \<Rightarrow> pyfloat \<Rightarrow> string" where
  "normalize_type flex_type code amount =
     (let t = lower (strip flex_type); c = upper (strip code) in
      if contains ''deposits/withdrawals'' t \<or> contains ''deposits and withdrawals'' t
      then (if float_nonneg amount then ''deposit'' else ''withdrawal'')
      else if contains ''deposit'' t \<or> contains ''dep'' c \<or> c = ''DEP'' then ''deposit''
      else if contains ''withdraw'' t \<or> contains ''withdrawal'' t \<or> contains ''wth'' c \<or> c = ''WTH'' then ''withdrawal''
      else if contains ''transfer'' t \<or> contains ''tra'' c \<or> contains ''internal'' t then ''transfer''
      else if contains ''dividend'' t \<or> contains ''div'' c \<or> contains ''dvd'' c then ''dividend''
      else ''other'')"

text \<open>The account of the report: the first \<open>FlexStatement\<close> that names one, else the root's attributes.\<close>

definition statement_account :: "xml \<Rightarrow> string" where
  "statement_account node =
     strip (or_text [xget node ''accountId'', xget node ''accountID'', text_of node ''accountId'' [], text_of node ''AccountId'' []])"

fun first_account :: "xml list \<Rightarrow> string" where
  "first_account [] = []"
| "first_account (n # ns) =
     (if local_name (xtag n) = ''FlexStatement'' \<and> statement_account n \<noteq> [] then statement_account n
      else first_account ns)"

definition report_account :: "xml \<Rightarrow> string" where
  "report_account root =
     (let a = first_account (xiter root) in
      if a = [] \<and> attrib root \<noteq> [] then strip (or_text [xget root ''accountId'', xget root ''accountID'']) else a)"

text \<open>A field of a cash row: from a child element in either spelling, else from an attribute.\<close>

definition elem_or_attr :: "xml \<Rightarrow> string list \<Rightarrow> string list \<Rightarrow> string" where
  "elem_or_attr e tags keys =
     (let v = or_text (map (\<lambda>t. text_of e t []) tags) in if v = [] then or_text (map (xget e) keys) else v)"

record cash_fields =
  c_account :: string
  c_date_time :: string
  c_amount :: string
  c_type :: string
  c_code :: string
  c_currency :: string
  c_description :: string
  c_transaction_id :: string
  c_asset_category :: string
  c_sub_category :: string
  c_symbol :: string
  c_conid :: string
  c_security_id :: string
  c_security_id_type :: string
  c_listing_exchange :: string
  c_report_date :: string
  c_available_date :: string
  c_fx_rate :: string

definition read_cash_fields :: "string \<Rightarrow> xml \<Rightarrow> cash_fields" where
  "read_cash_fields report_account_id e = \<lparr>
     c_account = or_text [elem_or_attr e [''accountId'', ''AccountId''] [''accountId'', ''accountID''], report_account_id],
     c_date_time = elem_or_attr e [''dateTime'', ''DateTime'', ''settleDate''] [''dateTime'', ''settleDate''],
     c_amount = or_text [elem_or_attr e [''amount'', ''Amount''] [''amount''], ''0''],
     c_type = elem_or_attr e [''type'', ''Type''] [''type''],
     c_code = elem_or_attr e [''code'', ''Code''] [''code''],
     c_currency = elem_or_attr e [''currency'', ''Currency''] [''currency''],
     c_description = elem_or_attr e [''description'', ''Description''] [''description''],
     c_transaction_id =
       (let v = or_text [text_of e ''transactionID'' [], text_of e ''TransactionID'' []] in
        if v = [] then strip (or_text [xget e ''transactionID'', xget e ''TransactionID'']) else v),
     c_asset_category = elem_or_attr e [''assetCategory'', ''AssetCategory''] [''assetCategory''],
     c_sub_category = elem_or_attr e [''subCategory'', ''SubCategory''] [''subCategory''],
     c_symbol = elem_or_attr e [''symbol'', ''Symbol''] [''symbol''],
     c_conid = elem_or_attr e [''conid'', ''Conid''] [''conid''],
     c_security_id = elem_or_attr e [''securityID'', ''SecurityID''] [''securityID''],
     c_security_id_type = elem_or_attr e [''securityIDType'', ''SecurityIDType''] [''securityIDType''],
     c_listing_exchange = elem_or_attr e [''listingExchange'', ''ListingExchange''] [''listingExchange''],
     c_report_date = elem_or_attr e [''reportDate'', ''ReportDate''] [''reportDate''],
     c_available_date = elem_or_attr e [''availableForTradingDate'', ''AvailableForTradingDate''] [''availableForTradingDate''],
     c_fx_rate = elem_or_attr e [''fxRateToBase'', ''FxRateToBase''] [''fxRateToBase'']\<rparr>"

definition cash_amount :: "cash_fields \<Rightarrow> pyfloat" where
  "cash_amount f = (case float_no_commas (c_amount f) of None \<Rightarrow> PFin False 0 0 | Some x \<Rightarrow> x)"

text \<open>\<open>row[k] = v\<close> only for a non-empty field.\<close>

definition when_given :: "string \<Rightarrow> string \<Rightarrow> cell \<Rightarrow> row" where
  "when_given field k v = (if field = [] then [] else [(k, v)])"

text \<open>\<open>t.timestamp()\<close> of a stamp with whole seconds.\<close>

definition timestamp :: "instant \<Rightarrow> pyfloat" where
  "timestamp t = float_of_int (t div usec)"

definition cash_row :: "cash_fields \<Rightarrow> instant \<Rightarrow> (string \<times> string) list \<Rightarrow> row" where
  "cash_row f ts raw_extra =
     [(''account_id'', CStr (strip (c_account f))),
      (''ts'', CFloat (timestamp ts)),
      (''amount'', CFloat (cash_amount f)),
      (''type'', CStr (normalize_type (c_type f) (c_code f) (cash_amount f))),
      (''currency'', cstr (c_currency f)),
      (''description'', cstr (c_description f))] @
     when_given (c_transaction_id f) ''flex_transaction_id'' (CStr (c_transaction_id f)) @
     when_given (c_type f) ''flex_type'' (CStr (c_type f)) @
     when_given (c_code f) ''flex_code'' (CStr (c_code f)) @
     when_given (c_asset_category f) ''asset_category'' (CStr (c_asset_category f)) @
     when_given (c_sub_category f) ''asset_subcategory'' (CStr (c_sub_category f)) @
     when_given (c_symbol f) ''symbol'' (CStr (c_symbol f)) @
     when_given (c_conid f) ''conid'' (case int_literal (c_conid f) of None \<Rightarrow> CNone | Some n \<Rightarrow> CInt n) @
     when_given (c_security_id f) ''security_id'' (CStr (c_security_id f)) @
     when_given (c_security_id_type f) ''security_id_type'' (CStr (c_security_id_type f)) @
     when_given (c_listing_exchange f) ''listing_exchange'' (CStr (c_listing_exchange f)) @
     when_given (c_report_date f) ''report_date'' (CStr (c_report_date f)) @
     when_given (c_available_date f) ''available_for_trading_date'' (CStr (c_available_date f)) @
     when_given (c_fx_rate f) ''fx_rate_to_base'' (cfloat (float_literal (c_fx_rate f))) @
     (if raw_extra = [] then [] else [(''raw_extra'', CExtra raw_extra)])"

text \<open>One pass of the loop: \<open>None\<close> for a row that is skipped.\<close>

definition parse_cash_elem :: "string \<Rightarrow> xml \<Rightarrow> row option" where
  "parse_cash_elem report_account_id e =
     (let f = read_cash_fields report_account_id e in
      if c_account f = [] \<and> float_is_zero (cash_amount f) then None
      else map_option (\<lambda>ts. cash_row f ts (attrib e)) (cash_ts (c_date_time f)))"

definition cash_elems :: "xml \<Rightarrow> xml list" where
  "cash_elems root = filter (\<lambda>e. local_name (xtag e) = ''CashTransaction'') (xiter root)"

definition parse_cash_transactions_xml :: "xml_parser \<Rightarrow> string \<Rightarrow> row list" where
  "parse_cash_transactions_xml parser body =
     (case parser body of
        Inl e \<Rightarrow> []
      | Inr root \<Rightarrow> List.map_filter (parse_cash_elem (report_account root)) (cash_elems root))"

subsection \<open>Trades\<close>

text \<open>\<open>{k: (v or "").strip() for k, v in elem.attrib.items()}\<close> and \<open>attrs.get(k, "")\<close>.\<close>

type_synonym attrs = "(string \<times> string) list"

definition trade_attrs :: "xml \<Rightarrow> attrs" where
  "trade_attrs e = map (\<lambda>(k, v). (k, strip v)) (attrib e)"

definition aget :: "attrs \<Rightarrow> string \<Rightarrow> string" where
  "aget a k = the_text (map_of a k)"

text \<open>\<open>_f(name)\<close>, and the quantity and price, whose absent attribute counts as \<open>"0"\<close>.\<close>

definition number :: "attrs \<Rightarrow> string \<Rightarrow> pyfloat option" where
  "number a k = (if aget a k = [] then None else float_no_commas (aget a k))"

definition number_or :: "attrs \<Rightarrow> string \<Rightarrow> pyfloat option" where
  "number_or a k = (case map_of a k of
      None \<Rightarrow> float_no_commas ''0''
    | Some v \<Rightarrow> if v = [] then None else float_no_commas v)"

definition strike_key :: "attrs \<Rightarrow> pyfloat option" where
  "strike_key a = (if aget a ''strike'' = [] then None else float_literal (aget a ''strike''))"

definition contract_key :: "attrs \<Rightarrow> cell" where
  "contract_key a =
     (let sym = strip (aget a ''symbol''); sec = strip (aget a ''assetCategory'') in
      if sym \<noteq> [] \<and> sec \<noteq> [] then
        CStr (join ''|'' [sym, sec, strip (aget a ''expiry''),
          (case strike_key a of None \<Rightarrow> [] | Some x \<Rightarrow> float_str x), strip (aget a ''putCall'')])
      else CNone)"

text \<open>\<open>int(s) if s.isdigit() else None\<close>.\<close>

definition digits_cell :: "string \<Rightarrow> cell" where
  "digits_cell s = (if isdigit s then CInt (int (digits_val s)) else CNone)"

definition known_keys :: "string list" where
  "known_keys =
    [''accountId'', ''acctAlias'', ''model'', ''currency'', ''fxRateToBase'', ''assetCategory'',
     ''subCategory'', ''symbol'', ''description'', ''conid'', ''securityID'', ''securityIDType'', ''cusip'',
     ''isin'', ''figi'', ''listingExchange'', ''underlyingConid'', ''underlyingSymbol'',
     ''underlyingSecurityID'', ''underlyingListingExchange'', ''issuer'', ''issuerCountryCode'', ''tradeID'',
     ''multiplier'', ''relatedTradeID'', ''strike'', ''reportDate'', ''expiry'', ''dateTime'', ''putCall'',
     ''tradeDate'', ''principalAdjustFactor'', ''settleDateTarget'', ''transactionType'', ''exchange'',
     ''quantity'', ''tradePrice'', ''tradeMoney'', ''proceeds'', ''taxes'', ''ibCommission'',
     ''ibCommissionCurrency'', ''netCash'', ''closePrice'', ''openCloseIndicator'', ''notes'', ''cost'',
     ''fifoPnlRealized'', ''mtmPnl'']"

definition raw_extra_of :: "attrs \<Rightarrow> attrs" where
  "raw_extra_of a = filter (\<lambda>(k, v). k \<notin> set known_keys) a"

record trade_head =
  t_account :: string
  t_time :: "instant option"

text \<open>The account and the time of a trade; \<open>None\<close> when the row is dropped.\<close>

definition read_trade_head :: "(int \<Rightarrow> int) \<Rightarrow> string \<Rightarrow> attrs \<Rightarrow> py_error + trade_head option" where
  "read_trade_head wall report_account_id a =
     (let account = or_text [aget a ''accountId'', report_account_id] in
      bind_err (parse_flex_datetime wall (aget a ''dateTime'')) (\<lambda>(t1, _).
      bind_err (if t1 = None then parse_flex_datetime wall (aget a ''tradeDate'') else Inr (t1, False)) (\<lambda>(t2, _).
      Inr (if t2 = None \<and> account = [] then None else Some \<lparr>t_account = account, t_time = t2\<rparr>))))"

definition trade_columns :: "trade_head \<Rightarrow> attrs \<Rightarrow> row" where
  "trade_columns t a =
     [(''account_id'', CStr (t_account t)),
      (''time'', (case t_time t of None \<Rightarrow> CNone | Some i \<Rightarrow> CFloat (timestamp i))),
      (''symbol'', cstr (aget a ''symbol'')),
      (''sec_type'', cstr (aget a ''assetCategory'')),
      (''side'', cstr (upper (aget a ''buySell''))),
      (''quantity'', cfloat (number_or a ''quantity'')),
      (''price'', cfloat (number_or a ''tradePrice'')),
      (''source'', CStr ''flex_trades''),
      (''exec_id'', cstr (aget a ''ibExecID'')),
      (''expiry'', cstr (aget a ''expiry'')),
      (''strike'', cfloat (strike_key a)),
      (''option_right'', cstr (aget a ''putCall'')),
      (''exchange'', cstr (or_text [aget a ''exchange'', aget a ''listingExchange''])),
      (''order_id'', digits_cell (or_text [aget a ''ibOrderID'', aget a ''orderID''])),
      (''cum_qty'', CNone),
      (''contract_key'', contract_key a),
      (''currency'', cstr (aget a ''currency'')),
      (''asset_category'', cstr (aget a ''assetCategory'')),
      (''sub_category'', cstr (aget a ''subCategory'')),
      (''description'', cstr (aget a ''description'')),
      (''conid'', digits_cell (aget a ''conid'')),
      (''security_id'', cstr (aget a ''securityID'')),
      (''security_id_type'', cstr (aget a ''securityIDType'')),
      (''cusip'', cstr (aget a ''cusip'')),
      (''isin'', cstr (aget a ''isin'')),
      (''figi'', cstr (aget a ''figi'')),
      (''listing_exchange'', cstr (aget a ''listingExchange'')),
      (''underlying_conid'', digits_cell (aget a ''underlyingConid'')),
      (''underlying_symbol'', cstr (aget a ''underlyingSymbol'')),
      (''underlying_security_id'', cstr (aget a ''underlyingSecurityID'')),
      (''underlying_listing_exchange'', cstr (aget a ''underlyingListingExchange'')),
      (''issuer'', cstr (aget a ''issuer'')),
      (''issuer_country_code'', cstr (aget a ''issuerCountryCode'')),
      (''trade_id'', cstr (aget a ''tradeID'')),
      (''related_trade_id'', cstr (aget a ''relatedTradeID'')),
      (''report_date'', cdate (parse_yyyymmdd_to_date (aget a ''reportDate''))),
      (''trade_date'', cdate (parse_yyyymmdd_to_date (aget a ''tradeDate''))),
      (''settle_date_target'', cdate (parse_yyyymmdd_to_date (aget a ''settleDateTarget''))),
      (''transaction_type'', cstr (aget a ''transactionType'')),
      (''multiplier'', cfloat (number a ''multiplier'')),
      (''principal_adjust_factor'', cstr (aget a ''principalAdjustFactor'')),
      (''proceeds'', cfloat (number a ''proceeds'')),
      (''taxes'', cfloat (number a ''taxes'')),
      (''net_cash'', cfloat (number a ''netCash'')),
      (''close_price'', cfloat (number a ''closePrice'')),
      (''open_close_indicator'', cstr (aget a ''openCloseIndicator'')),
      (''notes'', cstr (aget a ''notes'')),
      (''cost'', cfloat (number a ''cost'')),
      (''fifo_pnl_realized'', cfloat (number a ''fifoPnlRealized'')),
      (''mtm_pnl'', cfloat (number a ''mtmPnl'')),
      (''trade_money'', cfloat (number a ''tradeMoney'')),
      (''fx_rate_to_base'', cfloat (number a ''fxRateToBase'')),
      (''acct_alias'', cstr (aget a ''acctAlias'')),
      (''model'', cstr (aget a ''model'')),
      (''commission'', cfloat (number a ''ibCommission'')),
      (''currency_commission'', cstr (aget a ''ibCommissionCurrency'')),
      (''realized_pnl'', cfloat (number a ''fifoPnlRealized''))]"

text \<open>\<open>row[k] = v\<close> on an association list.\<close>

fun rset :: "row \<Rightarrow> string \<Rightarrow> cell \<Rightarrow> row" where
  "rset [] k v = [(k, v)]"
| "rset ((k', v') # r) k v = (if k' = k then (k, v) # r else (k', v') # rset r k v)"

definition fill_currency :: "row \<Rightarrow> row" where
  "fill_currency r =
     (if rget r ''currency_commission'' = CNone then r
      else rset r ''currency'' (if rget r ''currency'' = CNone then rget r ''currency_commission'' else rget r ''currency''))"

definition trade_row :: "trade_head \<Rightarrow> attrs \<Rightarrow> row" where
  "trade_row t a =
     fill_currency (trade_columns t a @ (if raw_extra_of a = [] then [] else [(''raw_extra'', CExtra (raw_extra_of a))]))"

definition parse_trade_elem :: "(int \<Rightarrow> int) \<Rightarrow> string \<Rightarrow> xml \<Rightarrow> py_error + row option" where
  "parse_trade_elem wall report_account_id e =
     (let a = trade_attrs e in
      bind_err (read_trade_head wall report_account_id a) (\<lambda>head.
      Inr (map_option (\<lambda>t. trade_row t a) head)))"

definition trade_elems :: "xml \<Rightarrow> xml list" where
  "trade_elems root = filter (\<lambda>e. local_name (xtag e) = ''Trade'') (xiter root)"

fun collect_rows :: "(xml \<Rightarrow> py_error + row option) \<Rightarrow> xml list \<Rightarrow> py_error + row list" where
  "collect_rows f [] = Inr []"
| "collect_rows f (e # es) = bind_err (f e) (\<lambda>r. bind_err (collect_rows f es) (\<lambda>rs.
     Inr (case r of None \<Rightarrow> rs | Some x \<Rightarrow> x # rs)))"

definition wrong_query :: string where
  "wrong_query =
     ''Flex report contains Cash Transactions, not Trades. '' @
     ''Use a Flex Query that includes Activity '' @ arrow @ '' Trades (not Cash Transactions). '' @
     ''In Settings '' @ arrow @ '' IB Connection '' @ arrow @ '' Flex, ensure the row with purpose=trades uses a Query ID that returns Trades.''"

definition parse_trades_xml :: "xml_parser \<Rightarrow> (int \<Rightarrow> int) \<Rightarrow> string \<Rightarrow> py_error + row list" where
  "parse_trades_xml parser wall body =
     (case parser body of
        Inl e \<Rightarrow> Inr []
      | Inr root \<Rightarrow>
          bind_err (collect_rows (parse_trade_elem wall (report_account root)) (trade_elems root)) (\<lambda>out.
          if out = [] \<and> contains ''CashTransaction'' body then Inl (ValueError wrong_query) else Inr out))"

subsection \<open>Fetching\<close>

definition fetch_cash_transactions ::
  "xml_parser \<Rightarrow> service \<Rightarrow> string \<Rightarrow> string \<Rightarrow> string option \<Rightarrow> string option \<Rightarrow> wire \<Rightarrow> (py_error + row list) \<times> wire" where
  "fetch_cash_transactions parser srv token query_id from_date to_date w =
     (case request_report parser srv token query_id from_date to_date None w of
        (Inl e, w1) \<Rightarrow> (Inl e, w1)
      | (Inr ref, w1) \<Rightarrow>
          (case get_statement parser srv token ref w1 of
             (Inl e, w2) \<Rightarrow> (Inl e, w2)
           | (Inr body, w2) \<Rightarrow> (Inr (parse_cash_transactions_xml parser body), w2)))"

definition fetch_trades ::
  "xml_parser \<Rightarrow> (int \<Rightarrow> int) \<Rightarrow> service \<Rightarrow> string \<Rightarrow> string \<Rightarrow> string option \<Rightarrow> string option \<Rightarrow> int option \<Rightarrow> wire \<Rightarrow>
     (py_error + row list) \<times> wire" where
  "fetch_trades parser wall srv token query_id from_date to_date period w =
     (case request_report parser srv token query_id from_date to_date period w of
        (Inl e, w1) \<Rightarrow> (Inl e, w1)
      | (Inr ref, w1) \<Rightarrow>
          (case get_statement parser srv token ref w1 of
             (Inl e, w2) \<Rightarrow> (Inl e, w2)
           | (Inr body, w2) \<Rightarrow> (parse_trades_xml parser wall body, w2)))"

subsection \<open>Types of cash rows\<close>

lemma lower_not_in_upper:
  assumes "c \<in> set m" "97 \<le> (of_char c :: nat)" "(of_char c :: nat) \<le> 122"
  shows "\<not> contains m (upper s)"
proof
  assume "contains m (upper s)"
  then have "c \<in> set (upper s)" using assms(1) by (auto simp: contains_iff)
  then obtain d where "c = upper_char d" by (auto simp: upper_def)
  with assms(2,3) show False by (auto simp: upper_char_def Let_def split: if_splits)
qed

lemma code_markers:
  "\<not> contains ''dep'' (upper s)" "\<not> contains ''wth'' (upper s)" "\<not> contains ''tra'' (upper s)"
  "\<not> contains ''div'' (upper s)" "\<not> contains ''dvd'' (upper s)"
  by (rule lower_not_in_upper [of "CHR ''d''"], simp, simp, simp)
    (rule lower_not_in_upper [of "CHR ''t''"], simp, simp, simp,
     rule lower_not_in_upper [of "CHR ''t''"], simp, simp, simp,
     rule lower_not_in_upper [of "CHR ''d''"], simp, simp, simp,
     rule lower_not_in_upper [of "CHR ''d''"], simp, simp, simp)

text \<open>Of a cash row's code, only the two exact codes DEP and WTH matter for its type. The code is upper-cased and
  then searched for lower-case fragments, so no other code - not even TRA, DIV or DVD - ever makes a row
  a transfer or a dividend.\<close>

lemma only_exact_codes_count:
  "normalize_type flex_type code amount =
     normalize_type flex_type (if upper (strip code) \<in> {''DEP'', ''WTH''} then code else []) amount"
  by (simp add: normalize_type_def code_markers Let_def) (simp add: upper_def)

subsection \<open>Columns of a trade\<close>

lemma map_of_rset [simp]: "map_of (rset r k v) = (map_of r)(k \<mapsto> v)"
  by (induction r k v rule: rset.induct) auto

lemma rget_rset: "rget (rset r k v) k' = (if k' = k then v else rget r k')"
  by (simp add: rget_def)

lemma trade_columns_currency:
  "rget (trade_columns t a @ extra) ''currency'' = cstr (aget a ''currency'')"
  "rget (trade_columns t a @ extra) ''currency_commission'' = cstr (aget a ''ibCommissionCurrency'')"
  by (simp_all add: trade_columns_def rget_def)

lemma trade_columns_raw_extra: "map_of (trade_columns t a) ''raw_extra'' = None"
  by (simp add: trade_columns_def)

lemma trade_columns_account: "rget (trade_columns t a @ extra) ''account_id'' = CStr (t_account t)"
  by (simp add: trade_columns_def rget_def)

lemma rget_fill_currency: "k \<noteq> ''currency'' \<Longrightarrow> rget (fill_currency r) k = rget r k"
  by (simp add: fill_currency_def rget_rset)

text \<open>The currency of a trade is the trade's own; the commission's currency is only used when the trade names
  none.\<close>

lemma trade_currency_first:
  "rget (trade_row t a) ''currency'' = cstr (or_text [aget a ''currency'', aget a ''ibCommissionCurrency''])"
  by (auto simp: trade_row_def fill_currency_def rget_rset trade_columns_currency cstr_def)

text \<open>Every attribute that has no column of its own is kept.\<close>

lemma raw_extra_kept:
  assumes "(k, v) \<in> set a" "k \<notin> set known_keys"
  shows "\<exists>ex. rget (trade_row t a) ''raw_extra'' = CExtra ex \<and> (k, v) \<in> set ex"
proof -
  have kv: "(k, v) \<in> set (raw_extra_of a)" using assms by (simp add: raw_extra_of_def)
  then have "trade_row t a = fill_currency (trade_columns t a @ [(''raw_extra'', CExtra (raw_extra_of a))])"
    by (auto simp: trade_row_def)
  then have "rget (trade_row t a) ''raw_extra'' = rget (trade_columns t a @ [(''raw_extra'', CExtra (raw_extra_of a))]) ''raw_extra''"
    by (simp add: rget_fill_currency)
  also have "\<dots> = CExtra (raw_extra_of a)"
    using trade_columns_raw_extra [of t a] by (simp add: rget_def map_add_def)
  finally have "rget (trade_row t a) ''raw_extra'' = CExtra (raw_extra_of a)" .
  with kv show ?thesis by blast
qed

lemma or_text_nonempty: "or_text [x, y] = [] \<longleftrightarrow> x = [] \<and> y = []"
  by simp

lemma collect_rows_all:
  assumes "collect_rows f es = Inr rs" and "\<And>e r. e \<in> set es \<Longrightarrow> f e = Inr r \<Longrightarrow> r \<noteq> None"
  shows "list_all2 (\<lambda>e r. f e = Inr (Some r)) es rs"
  using assms
proof (induction es arbitrary: rs)
  case (Cons e es)
  from Cons.prems(1) obtain r rs' where r: "f e = Inr r" "collect_rows f es = Inr rs'"
    "rs = (case r of None \<Rightarrow> rs' | Some x \<Rightarrow> x # rs')"
    by (auto simp: bind_err_eq_Inr)
  moreover from Cons.prems(2) [of e r] r(1) obtain x where "r = Some x" by auto
  ultimately show ?case using Cons by auto
qed simp

text \<open>Where the attributes of a Trade element are found again, said by itself: the attribute, its column, and how its text is read there. The
  account and the time of a trade are read apart. The attributes of \<open>copied_attributes\<close> have a column and are among the extra ones as well.\<close>

definition text_attributes :: "(string \<times> string) list" where
  "text_attributes = [
     (''symbol'', ''symbol''), (''assetCategory'', ''sec_type''), (''expiry'', ''expiry''), (''putCall'', ''option_right''),
     (''currency'', ''currency''), (''assetCategory'', ''asset_category''), (''subCategory'', ''sub_category''),
     (''description'', ''description''), (''securityID'', ''security_id''), (''securityIDType'', ''security_id_type''),
     (''cusip'', ''cusip''), (''isin'', ''isin''), (''figi'', ''figi''), (''listingExchange'', ''listing_exchange''),
     (''underlyingSymbol'', ''underlying_symbol''), (''underlyingSecurityID'', ''underlying_security_id''),
     (''underlyingListingExchange'', ''underlying_listing_exchange''), (''issuer'', ''issuer''),
     (''issuerCountryCode'', ''issuer_country_code''), (''tradeID'', ''trade_id''), (''relatedTradeID'', ''related_trade_id''),
     (''transactionType'', ''transaction_type''), (''principalAdjustFactor'', ''principal_adjust_factor''),
     (''openCloseIndicator'', ''open_close_indicator''), (''notes'', ''notes''), (''acctAlias'', ''acct_alias''), (''model'', ''model''),
     (''ibCommissionCurrency'', ''currency_commission'')]"

definition number_attributes :: "(string \<times> string) list" where
  "number_attributes = [
     (''multiplier'', ''multiplier''), (''proceeds'', ''proceeds''), (''taxes'', ''taxes''), (''netCash'', ''net_cash''),
     (''closePrice'', ''close_price''), (''cost'', ''cost''), (''fifoPnlRealized'', ''fifo_pnl_realized''), (''mtmPnl'', ''mtm_pnl''),
     (''tradeMoney'', ''trade_money''), (''fxRateToBase'', ''fx_rate_to_base''), (''ibCommission'', ''commission''),
     (''fifoPnlRealized'', ''realized_pnl'')]"

definition other_attributes :: "(string \<times> string \<times> (string \<Rightarrow> cell)) list" where
  "other_attributes =
     [(''exchange'', ''exchange'', CStr),
      (''quantity'', ''quantity'', \<lambda>s. cfloat (float_no_commas s)),
      (''tradePrice'', ''price'', \<lambda>s. cfloat (float_no_commas s)),
      (''strike'', ''strike'', \<lambda>s. cfloat (float_literal s)),
      (''reportDate'', ''report_date'', \<lambda>s. cdate (parse_yyyymmdd_to_date s)),
      (''tradeDate'', ''trade_date'', \<lambda>s. cdate (parse_yyyymmdd_to_date s)),
      (''settleDateTarget'', ''settle_date_target'', \<lambda>s. cdate (parse_yyyymmdd_to_date s)),
      (''conid'', ''conid'', digits_cell),
      (''underlyingConid'', ''underlying_conid'', digits_cell)]"

definition column_attributes :: "(string \<times> string \<times> (string \<Rightarrow> cell)) list" where
  "column_attributes =
     map (\<lambda>(k, col). (k, col, CStr)) text_attributes @
     map (\<lambda>(k, col). (k, col, \<lambda>s. cfloat (float_no_commas s))) number_attributes @ other_attributes"

definition copied_attributes :: "(string \<times> string \<times> (string \<Rightarrow> cell)) list" where
  "copied_attributes = [(''ibExecID'', ''exec_id'', CStr), (''buySell'', ''side'', \<lambda>s. CStr (upper s)), (''ibOrderID'', ''order_id'', digits_cell)]"

lemma subseq_set: "subseq xs ys \<Longrightarrow> set xs \<subseteq> set ys"
  by (induction rule: list_emb.induct) auto

lemma text_columns: "subseq (map (\<lambda>(k, col). (col, cstr (aget a k))) text_attributes) (trade_columns t a)"
  by (simp add: text_attributes_def trade_columns_def)

lemma number_columns: "subseq (map (\<lambda>(k, col). (col, cfloat (number a k))) number_attributes) (trade_columns t a)"
  by (simp add: number_attributes_def trade_columns_def)

lemma other_columns:
  "set [(''side'', cstr (upper (aget a ''buySell''))), (''quantity'', cfloat (number_or a ''quantity'')),
     (''price'', cfloat (number_or a ''tradePrice'')), (''exec_id'', cstr (aget a ''ibExecID'')), (''strike'', cfloat (strike_key a)),
     (''exchange'', cstr (or_text [aget a ''exchange'', aget a ''listingExchange''])),
     (''order_id'', digits_cell (or_text [aget a ''ibOrderID'', aget a ''orderID''])), (''conid'', digits_cell (aget a ''conid'')),
     (''underlying_conid'', digits_cell (aget a ''underlyingConid'')),
     (''report_date'', cdate (parse_yyyymmdd_to_date (aget a ''reportDate''))),
     (''trade_date'', cdate (parse_yyyymmdd_to_date (aget a ''tradeDate''))),
     (''settle_date_target'', cdate (parse_yyyymmdd_to_date (aget a ''settleDateTarget'')))] \<subseteq> set (trade_columns t a)"
  by (rule subseq_set) (simp add: trade_columns_def)

lemma distinct_trade_columns: "distinct (map fst (trade_columns t a))"
proof -
  have "map fst (trade_columns t a) = map fst (trade_columns \<lparr>t_account = [], t_time = None\<rparr> [])"
    by (simp only: trade_columns_def list.map fst_conv)
  moreover have "distinct (map fst (trade_columns \<lparr>t_account = [], t_time = None\<rparr> []))" by code_simp
  ultimately show ?thesis by simp
qed

lemma rget_trade_row:
  assumes "(col, c) \<in> set (trade_columns t a)" "col \<noteq> ''currency''"
  shows "rget (trade_row t a) col = c"
proof -
  have c: "map_of (trade_columns t a) col = Some c" using assms(1) distinct_trade_columns by simp
  then have "col \<noteq> ''raw_extra''" using trade_columns_raw_extra [of t a] by auto
  then have "rget (trade_columns t a @ (if raw_extra_of a = [] then [] else [(''raw_extra'', CExtra (raw_extra_of a))])) col = c"
    using c by (simp add: rget_def map_add_def)
  then show ?thesis by (simp only: trade_row_def rget_fill_currency [OF assms(2)])
qed

lemma column_attribute_kept:
  assumes "(k, col, read) \<in> set column_attributes" "aget a k \<noteq> []"
  shows "rget (trade_row t a) col = read (aget a k)"
proof -
  have n: "number a k = float_no_commas (aget a k)" "number_or a k = float_no_commas (aget a k)"
    using assms(2) by (auto simp: number_def number_or_def aget_def split: option.splits)
  from assms(1) consider (words) "(k, col) \<in> set text_attributes" "read = CStr"
    | (num) "(k, col) \<in> set number_attributes" "read = (\<lambda>s. cfloat (float_no_commas s))"
    | (other) "(k, col, read) \<in> set other_attributes"
    by (auto simp: column_attributes_def)
  then show ?thesis
  proof cases
    case words
    then have m: "(col, cstr (aget a k)) \<in> set (trade_columns t a)"
      using subseq_set [OF text_columns [of a t]] by force
    show ?thesis
    proof (cases "col = ''currency''")
      case True
      have "list_all (\<lambda>(k, col). col = ''currency'' \<longrightarrow> k = ''currency'') text_attributes" by (simp add: text_attributes_def)
      with words(1) True have "k = ''currency''" by (auto simp: list_all_iff)
      with True words(2) assms(2) show ?thesis by (simp add: trade_currency_first cstr_def)
    next
      case False
      from rget_trade_row [OF m False] words(2) assms(2) show ?thesis by (simp add: cstr_def)
    qed
  next
    case num
    then have "(col, cfloat (number a k)) \<in> set (trade_columns t a)"
      using subseq_set [OF number_columns [of a t]] by force
    moreover have "list_all (\<lambda>(k, col). col \<noteq> ''currency'') number_attributes" by (simp add: number_attributes_def)
    with num(1) have "col \<noteq> ''currency''" by (auto simp: list_all_iff)
    ultimately show ?thesis using rget_trade_row num(2) n(1) by simp
  next
    case other
    have "(col, read (aget a k)) \<in> set (trade_columns t a) \<and> col \<noteq> ''currency''"
      using other assms(2) n other_columns [of a t]
      by (simp add: other_attributes_def) (elim disjE conjE; simp add: strike_key_def cstr_def)
    then show ?thesis using rget_trade_row by blast
  qed
qed

lemma copied_attribute_kept:
  assumes "(k, col, read) \<in> set copied_attributes" "aget a k \<noteq> []"
  shows "rget (trade_row t a) col = read (aget a k)"
proof -
  have "upper s = [] \<longleftrightarrow> s = []" for s by (simp add: upper_def)
  with assms other_columns [of a t] have "(col, read (aget a k)) \<in> set (trade_columns t a) \<and> col \<noteq> ''currency''"
    by (simp add: copied_attributes_def) (elim disjE conjE; simp add: cstr_def)
  then show ?thesis using rget_trade_row by blast
qed

text \<open>An attribute without a column goes to the extra ones.\<close>

lemma known_keys_have_columns:
  "set known_keys \<subseteq> {''accountId'', ''dateTime''} \<union> fst ` set column_attributes"
proof -
  have "list_all (\<lambda>k. k \<in> set (''accountId'' # ''dateTime'' # map fst column_attributes)) known_keys"
    by (simp add: known_keys_def column_attributes_def text_attributes_def number_attributes_def other_attributes_def)
  then show ?thesis by (auto simp: list_all_iff)
qed

lemma parse_trade_elem_kept:
  assumes "parse_trade_elem wall acc e = Inr r" "acc \<noteq> []"
  obtains t where "r = Some (trade_row t (trade_attrs e))" "t_account t = or_text [aget (trade_attrs e) ''accountId'', acc]"
    "\<And>i b. parse_flex_datetime wall (aget (trade_attrs e) ''dateTime'') = Inr (Some i, b) \<Longrightarrow> t_time t = Some i"
proof -
  from assms(1) obtain h where h: "read_trade_head wall acc (trade_attrs e) = Inr h"
    "r = map_option (\<lambda>t. trade_row t (trade_attrs e)) h" by (auto simp: parse_trade_elem_def bind_err_eq_Inr Let_def)
  moreover have "h \<noteq> None"
    using h(1) assms(2) by (auto simp: read_trade_head_def bind_err_eq_Inr Let_def or_text_nonempty
        simp del: or_text.simps split: if_splits prod.splits)
  ultimately obtain t where t: "r = Some (trade_row t (trade_attrs e))" "read_trade_head wall acc (trade_attrs e) = Inr (Some t)"
    by auto
  show thesis
  proof (rule that [OF t(1)])
    show "t_account t = or_text [aget (trade_attrs e) ''accountId'', acc]"
      using t(2) by (auto simp: read_trade_head_def bind_err_eq_Inr Let_def simp del: or_text.simps split: if_splits prod.splits)
    fix i b assume "parse_flex_datetime wall (aget (trade_attrs e) ''dateTime'') = Inr (Some i, b)"
    with t(2) show "t_time t = Some i"
      by (auto simp: read_trade_head_def bind_err_eq_Inr Let_def simp del: or_text.simps split: if_splits prod.splits)
  qed
qed

text \<open>C27: No trade and no attribute is lost. When the report names its account, the parsed rows are the report's
  Trade elements one for one and in order. Each row carries an account - the element's own if it names one - and every attribute of the element with a
  text in it is in its row: in the column the tables \<open>column_attributes\<close> and \<open>copied_attributes\<close> name, as
  the text, number, whole number or day it reads as (a number or day that cannot be read leaves the cell empty); as the time of
  the row, when it is a readable \<^verbatim>\<open>dateTime\<close>; and every attribute outside \<open>column_attributes\<close> that is neither the account nor the time, in the extra
  attributes of the row under its own name.\<close>

theorem every_trade_parsed:
  assumes "parser body = Inr root" "report_account root \<noteq> []" "parse_trades_xml parser wall body = Inr rows"
  shows "list_all2 (\<lambda>e r. (\<exists>acct. acct \<noteq> [] \<and> rget r ''account_id'' = CStr acct) \<and>
      (\<forall>k v. map_of (attrib e) k = Some v \<longrightarrow> strip v \<noteq> [] \<longrightarrow>
         (\<forall>(k', col, read) \<in> set (column_attributes @ copied_attributes). k' = k \<longrightarrow> rget r col = read (strip v)) \<and>
         (k = ''accountId'' \<longrightarrow> rget r ''account_id'' = CStr (strip v)) \<and>
         (k = ''dateTime'' \<longrightarrow> (\<forall>t b. parse_flex_datetime wall (strip v) = Inr (Some t, b) \<longrightarrow> rget r ''time'' = CFloat (timestamp t))) \<and>
         (k \<noteq> ''accountId'' \<and> k \<noteq> ''dateTime'' \<and> k \<notin> fst ` set column_attributes \<longrightarrow>
            (\<exists>ex. rget r ''raw_extra'' = CExtra ex \<and> (k, strip v) \<in> set ex))))
    (trade_elems root) rows"
proof -
  have c: "collect_rows (parse_trade_elem wall (report_account root)) (trade_elems root) = Inr rows"
    using assms(1,3) by (auto simp: parse_trades_xml_def bind_err_eq_Inr split: if_splits)
  have "list_all2 (\<lambda>e r. parse_trade_elem wall (report_account root) e = Inr (Some r)) (trade_elems root) rows"
    by (rule collect_rows_all [OF c]) (metis parse_trade_elem_kept assms(2) option.distinct(1))
  then show ?thesis
  proof (rule list_all2_mono)
    fix e r assume "parse_trade_elem wall (report_account root) e = Inr (Some r)"
    from this assms(2) obtain t where r: "r = trade_row t (trade_attrs e)"
      and t: "t_account t = or_text [aget (trade_attrs e) ''accountId'', report_account root]"
        "\<And>i b. parse_flex_datetime wall (aget (trade_attrs e) ''dateTime'') = Inr (Some i, b) \<Longrightarrow> t_time t = Some i"
      by (rule parse_trade_elem_kept) simp
    let ?a = "trade_attrs e"
    have acct: "rget r ''account_id'' = CStr (t_account t)" "t_account t \<noteq> []"
      using assms(2) by (simp_all add: r trade_row_def rget_fill_currency trade_columns_account t(1))
    have get: "aget ?a k = strip v" "(k, strip v) \<in> set ?a" if "map_of (attrib e) k = Some v" for k v
      using that by (auto simp: aget_def trade_attrs_def map_of_map dest: map_of_SomeD)
    have col: "rget r col = read (strip v)"
      if "map_of (attrib e) k = Some v" "strip v \<noteq> []" "(k, col, read) \<in> set (column_attributes @ copied_attributes)" for k v col read
    proof -
      have "aget ?a k \<noteq> []" using get(1) [OF that(1)] that(2) by simp
      with that(3) have "rget r col = read (aget ?a k)"
        unfolding r by (metis Un_iff set_append column_attribute_kept copied_attribute_kept)
      then show ?thesis using get(1) [OF that(1)] by simp
    qed
    have time: "rget r ''time'' = CFloat (timestamp i)"
      if "map_of (attrib e) ''dateTime'' = Some v" "parse_flex_datetime wall (strip v) = Inr (Some i, b)" for v i b
      using rget_trade_row [of "''time''" "CFloat (timestamp i)" t ?a] t(2) get(1) [OF that(1)] that(2) by (simp add: r trade_columns_def)
    have extra: "\<exists>ex. rget r ''raw_extra'' = CExtra ex \<and> (k, strip v) \<in> set ex"
      if "map_of (attrib e) k = Some v" "k \<noteq> ''accountId''" "k \<noteq> ''dateTime''" "k \<notin> fst ` set column_attributes" for k v
      using raw_extra_kept [OF get(2) [OF that(1)]] that(2-4) known_keys_have_columns unfolding r by blast
    have own: "rget r ''account_id'' = CStr (strip v)" if "map_of (attrib e) ''accountId'' = Some v" "strip v \<noteq> []" for v
      using acct(1) t(1) get(1) [OF that(1)] that(2) by simp
    from acct col time extra own
    show "(\<exists>acct. acct \<noteq> [] \<and> rget r ''account_id'' = CStr acct) \<and>
      (\<forall>k v. map_of (attrib e) k = Some v \<longrightarrow> strip v \<noteq> [] \<longrightarrow>
         (\<forall>(k', col, read) \<in> set (column_attributes @ copied_attributes). k' = k \<longrightarrow> rget r col = read (strip v)) \<and>
         (k = ''accountId'' \<longrightarrow> rget r ''account_id'' = CStr (strip v)) \<and>
         (k = ''dateTime'' \<longrightarrow> (\<forall>t b. parse_flex_datetime wall (strip v) = Inr (Some t, b) \<longrightarrow> rget r ''time'' = CFloat (timestamp t))) \<and>
         (k \<noteq> ''accountId'' \<and> k \<noteq> ''dateTime'' \<and> k \<notin> fst ` set column_attributes \<longrightarrow>
            (\<exists>ex. rget r ''raw_extra'' = CExtra ex \<and> (k, strip v) \<in> set ex)))"
      by blast
  qed
qed

definition sample_trades :: xml where
  "sample_trades = Elem ''FlexQueryResponse'' [] None [Elem ''FlexStatement'' [(''accountId'', ''U1'')] None
     [Elem ''Trade'' [(''symbol'', ''SPY''), (''levelOfDetail'', ''EXECUTION'')] None []]]"

theorem every_trade_parsed_witness:
  "\<exists>r ex. parse_trades_xml (\<lambda>_. Inr sample_trades) (\<lambda>_. 0) ''<xml/>'' = Inr [r] \<and> rget r ''symbol'' = CStr ''SPY'' \<and>
    rget r ''raw_extra'' = CExtra ex \<and> (''levelOfDetail'', ''EXECUTION'') \<in> set ex"
proof -
  let ?e = "Elem ''Trade'' [(''symbol'', ''SPY''), (''levelOfDetail'', ''EXECUTION'')] None []"
  have acct: "report_account sample_trades = ''U1''" and one: "trade_elems sample_trades = [?e]"
    and strips: "strip ''SPY'' = ''SPY''" "strip ''EXECUTION'' = ''EXECUTION''"
    by code_simp+
  have "aget (trade_attrs ?e) k = []" if "k = ''dateTime'' \<or> k = ''tradeDate'' \<or> k = ''accountId''" for k
    using that by (auto simp: aget_def trade_attrs_def)
  then obtain r where "parse_trade_elem (\<lambda>_. 0) ''U1'' (hd (trade_elems sample_trades)) = Inr (Some r)"
    by (simp add: one parse_trade_elem_def read_trade_head_def parse_flex_datetime_def)
  then have p: "parse_trades_xml (\<lambda>_. Inr sample_trades) (\<lambda>_. 0) ''<xml/>'' = Inr [r]"
    by (simp add: parse_trades_xml_def acct one)
  have m: "(''symbol'', ''symbol'', CStr) \<in> set column_attributes" by (simp add: column_attributes_def text_attributes_def)
  have x: "''levelOfDetail'' \<notin> fst ` set column_attributes" by (simp add: column_attributes_def text_attributes_def number_attributes_def other_attributes_def)
  have all: "list_all2 P [?e] [r] \<Longrightarrow> P ?e r" for P by simp
  from every_trade_parsed [OF refl _ p, THEN all [unfolded one [symmetric]], THEN conjunct2] acct
  have kept: "map_of (attrib ?e) k = Some v \<Longrightarrow> strip v \<noteq> [] \<Longrightarrow>
      (\<forall>(k', col, read) \<in> set (column_attributes @ copied_attributes). k' = k \<longrightarrow> rget r col = read (strip v)) \<and>
      (k \<noteq> ''accountId'' \<and> k \<noteq> ''dateTime'' \<and> k \<notin> fst ` set column_attributes \<longrightarrow>
        (\<exists>ex. rget r ''raw_extra'' = CExtra ex \<and> (k, strip v) \<in> set ex))" for k v by simp
  from kept [of "''symbol''" "''SPY''"] m strips have "rget r ''symbol'' = CStr ''SPY''" by auto
  moreover from kept [of "''levelOfDetail''" "''EXECUTION''"] x strips
  have "\<exists>ex. rget r ''raw_extra'' = CExtra ex \<and> (''levelOfDetail'', ''EXECUTION'') \<in> set ex" by simp
  ultimately show ?thesis using p by blast
qed

end
