(* ===== verification/Flex_Config.thy ===== *)
theory Flex_Config
  imports Ops_Schema Flex_Xml
begin

text \<open>
  \<^verbatim>\<open>config.py\<close> and \<^verbatim>\<open>orchestration/config_rw.py\<close>: the configuration dictionary with its environment overrides, the
  broker tokens, the query rows of \<open>raw_broker.settings_flex\<close>, the range days of \<open>ops_jobs.flex_settings\<close> and the
  statistics of the stored executions. The lemmas show that a configuration write lands as a whole or
  not at all, and that the query rows read back are the accounts written.
\<close>

type_synonym env = "string \<Rightarrow> string option"

subsection \<open>The configuration dictionary\<close>

text \<open>\<open>(v or "").strip()\<close>; a truthy value that is no string has no \<open>strip\<close>.\<close>

fun type_name :: "pyval \<Rightarrow> string" where
  "type_name PNone = ''NoneType''"
| "type_name (PBool b) = ''bool''"
| "type_name (PInt n) = ''int''"
| "type_name (PStr s) = ''str''"
| "type_name (PList xs) = ''list''"
| "type_name (PDict d) = ''dict''"

definition strip_or_empty :: "pyval \<Rightarrow> py_error + string" where
  "strip_or_empty v =
     (if \<not> truthy v then Inr []
      else (case v of PStr s \<Rightarrow> Inr (strip s)
            | _ \<Rightarrow> Inl (AttributeError (repr_str (type_name v) @ '' object has no attribute '' @ repr_str ''strip''))))"

text \<open>The loop over the five connection keys: a variable that is set and not blank overrides the file.\<close>

fun env_overrides :: "env \<Rightarrow> (string \<times> string) list \<Rightarrow> dict \<Rightarrow> py_error + dict" where
  "env_overrides env [] d = Inr d"
| "env_overrides env ((key, name) # rest) d =
     (case env name of
        None \<Rightarrow> env_overrides env rest d
      | Some val \<Rightarrow>
          if strip val = [] then env_overrides env rest d
          else if key = ''port'' then
            bind_err (py_int (PStr val)) (\<lambda>n. env_overrides env rest (dset d key (PInt n)))
          else env_overrides env rest (dset d key (PStr val)))"

definition POSTGRES_ENV :: "(string \<times> string) list" where
  "POSTGRES_ENV = [(''host'', ''POSTGRES_HOST''), (''port'', ''POSTGRES_PORT''), (''dbname'', ''POSTGRES_DB''),
     (''user'', ''POSTGRES_USER''), (''password'', ''POSTGRES_PASSWORD'')]"

definition GOLDEN_ENV :: "(string \<times> string) list" where
  "GOLDEN_ENV = [(''host'', ''GOLDEN_SOURCE_HOST''), (''port'', ''GOLDEN_SOURCE_PORT''), (''database'', ''GOLDEN_SOURCE_DATABASE''),
     (''user'', ''GOLDEN_SOURCE_USER''), (''password'', ''GOLDEN_SOURCE_PASSWORD'')]"

definition merge_section :: "env \<Rightarrow> string \<Rightarrow> (string \<times> string) list \<Rightarrow> dict \<Rightarrow> py_error + dict" where
  "merge_section env section names cfg =
     bind_err (dict_of (dget cfg section)) (\<lambda>base.
     bind_err (env_overrides env names base) (\<lambda>d.
     Inr (if d = [] then cfg else dset cfg section (PDict d))))"

text \<open>\<open>load_config\<close> after the file: \<open>raw\<close> is what the YAML loader returned, \<open>PNone\<close> without a file.\<close>

definition load_config :: "env \<Rightarrow> pyval \<Rightarrow> py_error + dict" where
  "load_config env raw =
     (let cfg = (case raw of PDict d \<Rightarrow> d | _ \<Rightarrow> []) in
      bind_err (merge_section env ''postgres'' POSTGRES_ENV cfg) (\<lambda>c1.
      bind_err (merge_section env ''golden_source'' GOLDEN_ENV c1) (\<lambda>c2.
      Inr (case env ''FLEX_QUERY_WRITE_TOKEN'' of
             None \<Rightarrow> c2
           | Some tok \<Rightarrow> if tok = [] then c2 else dset c2 ''write_token'' (PStr (strip tok))))))"

fun or_chain :: "pyval list \<Rightarrow> pyval" where
  "or_chain [] = PNone"
| "or_chain [v] = v"
| "or_chain (v # w # vs) = (if truthy v then v else or_chain (w # vs))"

definition env_val :: "env \<Rightarrow> string \<Rightarrow> pyval" where
  "env_val env name = (case env name of None \<Rightarrow> PNone | Some s \<Rightarrow> PStr s)"

definition postgres_connect_kwargs :: "env \<Rightarrow> dict \<Rightarrow> py_error + dict" where
  "postgres_connect_kwargs env data =
     bind_err (dict_of (dget data ''postgres'')) (\<lambda>pg.
     bind_err (dict_of (dget data ''golden_source'')) (\<lambda>gs.
     bind_err (py_int (or_chain [dget pg ''port'', dget gs ''port'', env_val env ''POSTGRES_PORT'', PInt 5432])) (\<lambda>port.
     Inr [(''host'', or_chain [dget pg ''host'', dget gs ''host'', env_val env ''POSTGRES_HOST'', PStr ''localhost'']),
          (''port'', PInt port),
          (''dbname'', or_chain [dget pg ''dbname'', dget gs ''database'', env_val env ''POSTGRES_DB'', PStr ''bifrost_golden_source'']),
          (''user'', or_chain [dget pg ''user'', dget gs ''user'', env_val env ''POSTGRES_USER'', PStr ''bifrost'']),
          (''password'', or_chain [dget pg ''password'', dget gs ''password'', env_val env ''POSTGRES_PASSWORD'', PStr []])])))"

definition core_config :: "env \<Rightarrow> dict \<Rightarrow> py_error + dict" where
  "core_config env data =
     bind_err (postgres_connect_kwargs env data) (\<lambda>pg.
     bind_err (dict_of (dget data ''golden_source'')) (\<lambda>gs.
     let d1 = dset data ''postgres'' (PDict (dset pg ''database'' (dget pg ''dbname'')));
         d2 = dset d1 ''golden_source'' (PDict
           [(''host'', or_chain [dget gs ''host'', dget pg ''host'']),
            (''port'', or_chain [dget gs ''port'', dget pg ''port'']),
            (''database'', or_chain [dget gs ''database'', dget gs ''dbname'', dget pg ''dbname'']),
            (''user'', or_chain [dget gs ''user'', dget pg ''user'']),
            (''password'', or_chain [dget gs ''password'', dget pg ''password''])]);
         d3 = dset d2 ''sink'' (PStr ''postgres'')
     in Inr (if dhas d3 ''ib'' then d3
             else dset d3 ''ib'' (PDict
               [(''host'', PDict [(''ip'', PStr ''127.0.0.1''), (''port_type'', PStr ''tws_paper''), (''client_id'', PDict [])]),
                (''connect_timeout'', PInt 60)]))))"

definition postgres_ready :: "dict \<Rightarrow> bool" where
  "postgres_ready config \<longleftrightarrow> config \<noteq> [] \<and> (dget config ''sink'' = PStr ''postgres'' \<or> truthy (dget config ''postgres''))"

subsection \<open>Tokens\<close>

definition env_text :: "env \<Rightarrow> string \<Rightarrow> string" where
  "env_text env name = strip (the_text (env name))"

text \<open>Host token, secondary token and where each comes from.\<close>

definition resolve_flex_tokens :: "env \<Rightarrow> string \<times> string \<times> string \<times> string" where
  "resolve_flex_tokens env =
     (let h = env_text env ''FLEX_HOST_TOKEN''; s = env_text env ''FLEX_SECONDARY_TOKEN''
      in (h, s, if h \<noteq> [] then ''secret'' else ''none'', if s \<noteq> [] then ''secret'' else ''none''))"

definition flex_tokens_issued_at :: "env \<Rightarrow> instant \<Rightarrow> string option \<times> int option" where
  "flex_tokens_issued_at env now =
     (let raw = env_text env ''FLEX_TOKENS_ISSUED_AT'' in
      if raw = [] then (None, None)
      else (case strptime fmt_iso_day (take 10 raw) of
              None \<Rightarrow> (Some raw, None)
            | Some issued \<Rightarrow> (Some (isoformat (local_date issued)), Some (max 0 ((now - issued) div secs 86400)))))"

subsection \<open>Golden Source\<close>

record settings_flex =
  sf_id :: int
  sort_order :: int
  sf_label :: "string option"
  sf_purpose :: "string option"
  query_host_id :: "string option"
  query_secondary_id :: "string option"

record execution =
  x_account :: "string option"
  x_trade_date :: "date option"
  x_source :: string

record golden =
  g_settings :: "(int \<times> int) option"
  g_queries :: "settings_flex list"
  g_next_id :: int
  g_execs :: "execution list"
  g_cash :: "(string option \<times> instant option) list"

record query_entry =
  q_token :: string
  q_id :: string
  q_role :: string
  q_label :: "string option"
  q_purpose :: "string option"

definition strip_or_none :: "string option \<Rightarrow> string option" where
  "strip_or_none s = or_none (strip (the_text s))"

definition split_ids :: "string option \<Rightarrow> string list" where
  "split_ids raw = filter (\<lambda>s. s \<noteq> []) (map strip (split_on (CHR '','') (the_text raw)))"

definition role_entries :: "settings_flex \<Rightarrow> string \<Rightarrow> string \<Rightarrow> string option \<Rightarrow> query_entry list" where
  "role_entries r role tok raw =
     (if tok = [] then []
      else map (\<lambda>qid. \<lparr>q_token = tok, q_id = qid, q_role = role, q_label = strip_or_none (sf_label r),
             q_purpose = strip_or_none (sf_purpose r)\<rparr>) (split_ids raw))"

definition query_entries :: "string \<Rightarrow> string \<Rightarrow> settings_flex list \<Rightarrow> query_entry list" where
  "query_entries host_tok sec_tok rows =
     concat (map (\<lambda>r. role_entries r ''host'' host_tok (query_host_id r) @
                      role_entries r ''secondary'' sec_tok (query_secondary_id r)) rows)"

definition ordered_rows :: "settings_flex list \<Rightarrow> settings_flex list" where
  "ordered_rows rs = sort_key sort_order (sort_key sf_id rs)"

text \<open>\<open>get_flex_config\<close> with a purpose, and without one.\<close>

definition get_flex_config_for :: "env \<Rightarrow> string \<Rightarrow> golden \<Rightarrow> query_entry list" where
  "get_flex_config_for env purpose g =
     (case resolve_flex_tokens env of (h, s, _) \<Rightarrow>
        query_entries h s (ordered_rows (filter (\<lambda>r. sf_purpose r = Some purpose) (g_queries g))))"

definition opt_item :: "string \<Rightarrow> string option \<Rightarrow> dict" where
  "opt_item k v = (case strip_or_none v of None \<Rightarrow> [] | Some s \<Rightarrow> [(k, PStr s)])"

definition opt_text :: "string option \<Rightarrow> pyval" where
  "opt_text v = (case v of None \<Rightarrow> PNone | Some s \<Rightarrow> PStr s)"

definition get_flex_config :: "env \<Rightarrow> golden \<Rightarrow> dict" where
  "get_flex_config env g =
     (case resolve_flex_tokens env of (h, s, _) \<Rightarrow>
        [(''host_token'', opt_text (or_none h)), (''secondary_token'', opt_text (or_none s)),
         (''rows'', PList (map (\<lambda>r. PDict
            ([(''query_host_id'', PStr (strip (the_text (query_host_id r)))),
              (''query_secondary_id'', opt_text (strip_or_none (query_secondary_id r)))] @
             opt_item ''query_label'' (sf_label r) @ opt_item ''purpose'' (sf_purpose r)))
           (ordered_rows (g_queries g))))])"

definition DEFAULT_RANGE_DAYS :: int where
  "DEFAULT_RANGE_DAYS = 30"

definition DEFAULT_INIT_RANGE_DAYS :: int where
  "DEFAULT_INIT_RANGE_DAYS = 360"

definition get_flex_range_days :: "golden \<Rightarrow> int \<times> int" where
  "get_flex_range_days g = (case read_flex_settings (g_settings g) of
      None \<Rightarrow> (DEFAULT_RANGE_DAYS, DEFAULT_INIT_RANGE_DAYS) | Some got \<Rightarrow> got)"

record exec_stats =
  st_count :: int
  st_accounts :: int
  st_min :: "date option"
  st_max :: "date option"

definition get_flex_executions_stats :: "golden \<Rightarrow> exec_stats" where
  "get_flex_executions_stats g =
     (let xs = filter (\<lambda>x. x_source x = ''flex_trades'') (g_execs g);
          ds = List.map_filter x_trade_date xs
      in \<lparr>st_count = int (length xs),
          st_accounts = int (length (remdups (List.map_filter x_account xs))),
          st_min = (if ds = [] then None else Some (Min (set ds))),
          st_max = (if ds = [] then None else Some (Max (set ds)))\<rparr>)"

subsection \<open>Writing the configuration\<close>

datatype gstmt =
    UpsertSettings int int "int option" "int option"
  | DeleteQueries
  | InsertQuery int "string option" string string "string option"

definition in_int4 :: "int \<Rightarrow> bool" where
  "in_int4 n \<longleftrightarrow> - 2147483648 \<le> n \<and> n \<le> 2147483647"

definition coalesce :: "'a option \<Rightarrow> 'a \<Rightarrow> 'a" where
  "coalesce x y = (case x of None \<Rightarrow> y | Some v \<Rightarrow> v)"

text \<open>One statement; \<open>None\<close> when the database refuses it.\<close>

fun exec_gstmt :: "gstmt \<Rightarrow> golden \<Rightarrow> golden option" where
  "exec_gstmt (UpsertSettings d i d' i') g =
     (if in_int4 d \<and> in_int4 i then
        Some (g\<lparr>g_settings := Some (case g_settings g of
                 None \<Rightarrow> (d, i) | Some (d0, i0) \<Rightarrow> (coalesce d' d0, coalesce i' i0))\<rparr>)
      else None)"
| "exec_gstmt DeleteQueries g = Some (g\<lparr>g_queries := []\<rparr>)"
| "exec_gstmt (InsertQuery ord label purpose qh qs) g =
     Some (g\<lparr>g_queries := g_queries g @ [\<lparr>sf_id = g_next_id g, sort_order = ord, sf_label = label, sf_purpose = Some purpose,
                query_host_id = Some qh, query_secondary_id = qs\<rparr>], g_next_id := g_next_id g + 1\<rparr>)"

text \<open>\<open>fault n\<close>: the n-th call on the connection raises for a reason of its own (a lost connection, a lock).\<close>

fun exec_gstmts :: "(nat \<Rightarrow> bool) \<Rightarrow> nat \<Rightarrow> gstmt list \<Rightarrow> golden \<Rightarrow> golden option" where
  "exec_gstmts fault n [] g = (if fault n then None else Some g)"
| "exec_gstmts fault n (s # ss) g =
     (if fault n then None else Option.bind (exec_gstmt s g) (exec_gstmts fault (Suc n) ss))"

text \<open>The accounts of a request that are kept: dictionaries with a host query id.\<close>

fun valid_accounts :: "pyval list \<Rightarrow> py_error + dict list" where
  "valid_accounts [] = Inr []"
| "valid_accounts (a # as) =
     (case a of
        PDict d \<Rightarrow> bind_err (strip_or_empty (dget d ''query_host_id'')) (\<lambda>h.
          bind_err (valid_accounts as) (\<lambda>rest. Inr (if h = [] then rest else d # rest)))
      | _ \<Rightarrow> valid_accounts as)"

definition insert_of :: "nat \<Rightarrow> dict \<Rightarrow> py_error + gstmt" where
  "insert_of i a =
     bind_err (strip_or_empty (dget a ''query_host_id'')) (\<lambda>qh.
     bind_err (strip_or_empty (dget a ''query_secondary_id'')) (\<lambda>qs.
     bind_err (strip_or_empty (dget a ''query_label'')) (\<lambda>label.
     bind_err (strip_or_empty (py_or (dget a ''purpose'') (PStr ''cash_transactions''))) (\<lambda>purpose.
     Inr (InsertQuery (int i) (or_none label) (if purpose = [] then ''cash_transactions'' else purpose) qh (or_none qs))))))"

fun inserts_of :: "nat \<Rightarrow> dict list \<Rightarrow> py_error + gstmt list" where
  "inserts_of i [] = Inr []"
| "inserts_of i (a # as) = bind_err (insert_of i a) (\<lambda>s. bind_err (inserts_of (Suc i) as) (\<lambda>ss. Inr (s # ss)))"

definition settings_stmts :: "int option \<Rightarrow> int option \<Rightarrow> golden \<Rightarrow> gstmt list" where
  "settings_stmts days_val init_val g =
     (if days_val = None \<and> init_val = None then []
      else case get_flex_range_days g of (d0, i0) \<Rightarrow>
        [UpsertSettings (coalesce days_val d0) (coalesce init_val i0) days_val init_val])"

text \<open>\<open>write_flex_config\<close>. The raises before the connection is opened go to the caller; after that every
  failure rolls back and answers \<open>False\<close>. Opening, the schema call and the read of the current days are calls
  0, 1 and 2 of the connection.\<close>

definition write_flex_config ::
  "(nat \<Rightarrow> bool) \<Rightarrow> dict \<Rightarrow> pyval list option \<Rightarrow> int option \<Rightarrow> int option \<Rightarrow> golden \<Rightarrow> py_error + bool \<times> golden" where
  "write_flex_config fault config accounts default_days init_days g =
     (if \<not> postgres_ready config then Inr (False, g)
      else
        bind_err (case accounts of None \<Rightarrow> Inr None | Some as \<Rightarrow> bind_err (valid_accounts as) (\<lambda>v. Inr (Some v))) (\<lambda>valid.
        if valid = Some [] then Inr (False, g)
        else
          let days_val = map_option (max 1) default_days; init_val = map_option (max 1) init_days in
          if days_val = None \<and> init_val = None \<and> valid = None then Inr (True, g)
          else if fault 0 \<or> (days_val \<noteq> None \<or> init_val \<noteq> None) \<and> (fault 1 \<or> (days_val = None \<or> init_val = None) \<and> fault 2)
          then Inr (False, g)
          else
            case (case valid of None \<Rightarrow> Inr []
                  | Some as \<Rightarrow> bind_err (inserts_of 0 as) (\<lambda>ss. Inr (DeleteQueries # ss))) of
              Inl e \<Rightarrow> Inr (False, g)
            | Inr query_stmts \<Rightarrow>
                (case exec_gstmts fault 3 (settings_stmts days_val init_val g @ query_stmts) g of
                   None \<Rightarrow> Inr (False, g)
                 | Some g' \<Rightarrow> Inr (True, g'))))"

subsection \<open>What a write leaves\<close>

lemma exec_gstmts_append:
  "exec_gstmts fault n (ss @ ts) g = Some g' \<Longrightarrow>
     \<exists>g1 k. exec_gstmts (\<lambda>_. False) n ss g = Some g1 \<and> exec_gstmts fault k ts g1 = Some g'"
  by (induction ss arbitrary: n g) (auto simp: Option.bind_eq_Some_conv split: if_splits)

text \<open>The row an account becomes.\<close>

fun row_of :: "int \<Rightarrow> gstmt \<Rightarrow> settings_flex" where
  "row_of rid (InsertQuery ord label purpose qh qs) = \<lparr>sf_id = rid, sort_order = ord, sf_label = label, sf_purpose = Some purpose,
     query_host_id = Some qh, query_secondary_id = qs\<rparr>"
| "row_of rid _ = undefined"

fun numbered :: "int \<Rightarrow> gstmt list \<Rightarrow> settings_flex list" where
  "numbered rid [] = []"
| "numbered rid (s # ss) = row_of rid s # numbered (rid + 1) ss"

lemma inserts_of_shape:
  "inserts_of i as = Inr ss \<Longrightarrow> length ss = length as \<and>
     (\<forall>j < length ss. \<exists>label purpose qh qs. ss ! j = InsertQuery (int (i + j)) label purpose qh qs)"
proof (induction as arbitrary: i ss)
  case (Cons a as)
  then obtain s ss' where s: "insert_of i a = Inr s" "inserts_of (Suc i) as = Inr ss'" "ss = s # ss'"
    by (auto simp: bind_err_eq_Inr)
  from s(1) obtain label purpose qh qs where "s = InsertQuery (int i) label purpose qh qs"
    by (auto simp: insert_of_def bind_err_eq_Inr)
  with s Cons.IH [OF s(2)] show ?case by (auto simp: nth_Cons split: nat.splits)
qed simp

lemma exec_inserts:
  "(\<And>s. s \<in> set ss \<Longrightarrow> \<exists>o' l p h q. s = InsertQuery o' l p h q) \<Longrightarrow> exec_gstmts fault n ss g = Some g' \<Longrightarrow>
     g_queries g' = g_queries g @ numbered (g_next_id g) ss \<and> g_settings g' = g_settings g \<and>
     g_execs g' = g_execs g \<and> g_cash g' = g_cash g"
proof (induction ss arbitrary: n g)
  case (Cons s ss)
  from Cons.prems(1) obtain o' l p h q where s: "s = InsertQuery o' l p h q" by force
  with Cons.prems Cons.IH show ?case by (fastforce split: if_splits)
qed (auto split: if_splits)

lemma numbered_nth:
  "j < length ss \<Longrightarrow> numbered rid ss ! j = row_of (rid + int j) (ss ! j)" "length (numbered rid ss) = length ss"
  by (induction ss arbitrary: rid j) (auto simp: nth_Cons add.assoc split: nat.splits)

lemma sort_key_sorted: "sorted (map f xs) \<Longrightarrow> sort_key f xs = xs"
  by (simp add: sort_key_id_if_sorted)

lemma ordered_numbered:
  assumes "\<And>j. j < length ss \<Longrightarrow> \<exists>l p h q. ss ! j = InsertQuery (int (i + j)) l p h q"
  shows "ordered_rows (filter P (numbered rid ss)) = filter P (numbered rid ss)"
proof -
  have "sf_id (numbered rid ss ! j) = rid + int j" "sort_order (numbered rid ss ! j) = int (i + j)" if "j < length ss" for j
    using assms [OF that] numbered_nth(1) [OF that, of rid] by auto
  then have "sorted (map sf_id (numbered rid ss))" "sorted (map sort_order (numbered rid ss))"
    by (auto simp: sorted_iff_nth_mono numbered_nth(2))
  then show ?thesis
    unfolding ordered_rows_def by (simp add: sort_key_sorted sorted_filter)
qed

text \<open>What the query rows of a written account are read back as.\<close>

definition text_field :: "dict \<Rightarrow> string \<Rightarrow> string" where
  "text_field a k = (case strip_or_empty (dget a k) of Inr s \<Rightarrow> s | Inl _ \<Rightarrow> [])"

definition account_purpose :: "dict \<Rightarrow> string" where
  "account_purpose a =
     (if text_field a ''purpose'' = [] then ''cash_transactions'' else text_field a ''purpose'')"

definition account_entries :: "string \<Rightarrow> string \<Rightarrow> string \<Rightarrow> dict \<Rightarrow> query_entry list" where
  "account_entries host sec purpose a =
     (let entry = (\<lambda>role tok ids. if tok = [] then [] else
        map (\<lambda>qid. \<lparr>q_token = tok, q_id = qid, q_role = role, q_label = or_none (text_field a ''query_label''),
              q_purpose = Some purpose\<rparr>) (split_ids (Some ids)))
      in if account_purpose a = purpose
         then entry ''host'' host (text_field a ''query_host_id'') @ entry ''secondary'' sec (text_field a ''query_secondary_id'')
         else [])"

lemma strip_or_empty_strip: "strip_or_empty v = Inr s \<Longrightarrow> strip s = s"
  by (auto simp: strip_or_empty_def split: if_splits pyval.splits)

lemma insert_of_fields:
  assumes "insert_of i a = Inr s"
  shows "s = InsertQuery (int i) (or_none (text_field a ''query_label'')) (account_purpose a)
      (text_field a ''query_host_id'') (or_none (text_field a ''query_secondary_id''))"
    "strip (text_field a ''query_label'') = text_field a ''query_label''" "strip (account_purpose a) = account_purpose a"
    "account_purpose a \<noteq> []"
proof -
  from assms obtain qh qs l p where f: "strip_or_empty (dget a ''query_host_id'') = Inr qh"
    "strip_or_empty (dget a ''query_secondary_id'') = Inr qs" "strip_or_empty (dget a ''query_label'') = Inr l"
    "strip_or_empty (py_or (dget a ''purpose'') (PStr ''cash_transactions'')) = Inr p"
    and s: "s = InsertQuery (int i) (or_none l) (if p = [] then ''cash_transactions'' else p) qh (or_none qs)"
    by (auto simp: insert_of_def bind_err_eq_Inr)
  have cash: "strip ''cash_transactions'' = ''cash_transactions''" by code_simp
  have p: "account_purpose a = (if p = [] then ''cash_transactions'' else p)"
    using f(4) cash by (auto simp: account_purpose_def text_field_def py_or_def strip_or_empty_def split: if_splits pyval.splits)
  show "s = InsertQuery (int i) (or_none (text_field a ''query_label'')) (account_purpose a)
      (text_field a ''query_host_id'') (or_none (text_field a ''query_secondary_id''))"
    by (simp add: s p text_field_def f)
  show "strip (text_field a ''query_label'') = text_field a ''query_label''" "strip (account_purpose a) = account_purpose a"
    "account_purpose a \<noteq> []"
    using f cash by (auto simp: text_field_def p dest: strip_or_empty_strip)
qed

lemma row_entries:
  assumes "insert_of i a = Inr s"
  shows "query_entries h t (filter (\<lambda>r. sf_purpose r = Some p) [row_of rid s]) = account_entries h t p a"
  using insert_of_fields [OF assms]
  by (auto simp: query_entries_def role_entries_def account_entries_def strip_or_none_def Let_def split_ids_def)

lemma query_entries_append: "query_entries h t (xs @ ys) = query_entries h t xs @ query_entries h t ys"
  by (simp add: query_entries_def)

lemma numbered_entries:
  "inserts_of i as = Inr ss \<Longrightarrow>
     query_entries h t (filter (\<lambda>r. sf_purpose r = Some p) (numbered rid ss)) = concat (map (account_entries h t p) as)"
proof (induction as arbitrary: i ss rid)
  case Nil
  then show ?case by (simp add: query_entries_def)
next
  case (Cons a as)
  then obtain s ss' where s: "insert_of i a = Inr s" "inserts_of (Suc i) as = Inr ss'" "ss = s # ss'"
    by (auto simp: bind_err_eq_Inr)
  have "filter (\<lambda>r. sf_purpose r = Some p) (numbered rid ss) =
      filter (\<lambda>r. sf_purpose r = Some p) [row_of rid s] @ filter (\<lambda>r. sf_purpose r = Some p) (numbered (rid + 1) ss')"
    by (simp add: s(3))
  then show ?case by (simp only: query_entries_append row_entries [OF s(1)] Cons.IH [OF s(2)]) simp
qed

lemma exec_settings_stmts:
  assumes "exec_gstmts fault n (settings_stmts dv iv g) g = Some g1"
  shows "g_queries g1 = g_queries g" "g_execs g1 = g_execs g" "g_cash g1 = g_cash g"
    "(\<forall>n. dv = Some n \<longrightarrow> 1 \<le> n) \<Longrightarrow> fst (get_flex_range_days g1) = coalesce dv (fst (get_flex_range_days g))"
    "(\<forall>n. iv = Some n \<longrightarrow> 1 \<le> n) \<Longrightarrow> snd (get_flex_range_days g1) = coalesce iv (snd (get_flex_range_days g))"
  using assms
  by (auto simp: settings_stmts_def get_flex_range_days_def read_flex_settings_def coalesce_def DEFAULT_RANGE_DAYS_def
      DEFAULT_INIT_RANGE_DAYS_def split: if_splits prod.splits option.splits)

lemma write_flex_config_True:
  assumes "write_flex_config fault config accounts d i g = Inr (True, g')"
    and "accounts \<noteq> None \<or> d \<noteq> None \<or> i \<noteq> None"
  obtains valid qs g1 k where
    "(case accounts of None \<Rightarrow> Inr None | Some as \<Rightarrow> bind_err (valid_accounts as) (\<lambda>v. Inr (Some v))) = Inr valid"
    "(case valid of None \<Rightarrow> Inr [] | Some as \<Rightarrow> bind_err (inserts_of 0 as) (\<lambda>ss. Inr (DeleteQueries # ss))) = Inr qs"
    "exec_gstmts (\<lambda>_. False) 3 (settings_stmts (map_option (max 1) d) (map_option (max 1) i) g) g = Some g1"
    "exec_gstmts fault k qs g1 = Some g'"
proof -
  from assms obtain valid qs where
    v: "(case accounts of None \<Rightarrow> Inr None | Some as \<Rightarrow> bind_err (valid_accounts as) (\<lambda>v. Inr (Some v))) = Inr valid"
    and q: "(case valid of None \<Rightarrow> Inr [] | Some as \<Rightarrow> bind_err (inserts_of 0 as) (\<lambda>ss. Inr (DeleteQueries # ss))) = Inr qs"
    and e: "exec_gstmts fault 3 (settings_stmts (map_option (max 1) d) (map_option (max 1) i) g @ qs) g = Some g'"
    unfolding write_flex_config_def Let_def
    by (auto simp: bind_err_eq_Inr split: if_splits sum.splits option.splits)
  from exec_gstmts_append [OF e] that v q show ?thesis by blast
qed

text \<open>A configuration write lands as a whole or not at all, wherever it fails. When it answers False nothing has
  changed; when it answers True the range days in force are the ones asked for (at least one day), a
  half that was not asked for keeps the value in force, query rows are only touched when accounts were
  given, and stored executions and cash rows never are.\<close>

lemma write_flex_config_effect:
  assumes "write_flex_config fault config accounts d i g = Inr (ok, g')"
  shows "(\<not> ok \<longrightarrow> g' = g) \<and> g_execs g' = g_execs g \<and> g_cash g' = g_cash g \<and>
    (ok \<longrightarrow> get_flex_range_days g' = (coalesce (map_option (max 1) d) (fst (get_flex_range_days g)),
                                     coalesce (map_option (max 1) i) (snd (get_flex_range_days g))) \<and>
       (accounts = None \<longrightarrow> g_queries g' = g_queries g))"
proof (cases "ok \<and> (accounts \<noteq> None \<or> d \<noteq> None \<or> i \<noteq> None)")
  case False
  then have "g' = g \<and> (ok \<longrightarrow> accounts = None \<and> d = None \<and> i = None)"
    using assms unfolding write_flex_config_def Let_def
    by (auto simp: bind_err_eq_Inr split: if_splits sum.splits option.splits)
  then show ?thesis by (auto simp: coalesce_def)
next
  case True
  with assms have w: "write_flex_config fault config accounts d i g = Inr (True, g')" by simp
  from write_flex_config_True [OF w] True obtain valid qs g1 k where
    v: "(case accounts of None \<Rightarrow> Inr None | Some as \<Rightarrow> bind_err (valid_accounts as) (\<lambda>v. Inr (Some v))) = Inr valid"
    and q: "(case valid of None \<Rightarrow> Inr [] | Some as \<Rightarrow> bind_err (inserts_of 0 as) (\<lambda>ss. Inr (DeleteQueries # ss))) = Inr qs"
    and g1: "exec_gstmts (\<lambda>_. False) 3 (settings_stmts (map_option (max 1) d) (map_option (max 1) i) g) g = Some g1"
    and e: "exec_gstmts fault k qs g1 = Some g'"
    by blast
  have "g_settings g' = g_settings g1 \<and> g_execs g' = g_execs g1 \<and> g_cash g' = g_cash g1 \<and>
      (accounts = None \<longrightarrow> g_queries g' = g_queries g1)"
  proof (cases valid)
    case None
    with v q e show ?thesis by (auto simp: bind_err_eq_Inr split: if_splits option.splits)
  next
    case (Some as)
    with q obtain ss where ss: "inserts_of 0 as = Inr ss" "qs = DeleteQueries # ss" by (auto simp: bind_err_eq_Inr)
    then obtain k' where e': "exec_gstmts fault k' ss (g1\<lparr>g_queries := []\<rparr>) = Some g'"
      using e by (auto split: if_splits)
    have "\<exists>o' l p h q. s = InsertQuery o' l p h q" if "s \<in> set ss" for s
      using inserts_of_shape [OF ss(1)] that by (metis in_set_conv_nth)
    from exec_inserts [OF this e'] v Some show ?thesis by auto
  qed
  moreover have "get_flex_range_days g' = get_flex_range_days g1" if "g_settings g' = g_settings g1"
    using that by (simp add: get_flex_range_days_def)
  moreover have "fst (get_flex_range_days g1) = coalesce (map_option (max 1) d) (fst (get_flex_range_days g))"
    "snd (get_flex_range_days g1) = coalesce (map_option (max 1) i) (snd (get_flex_range_days g))"
    by (rule exec_settings_stmts(4,5) [OF g1], force)+
  ultimately show ?thesis
    using exec_settings_stmts(1-3) [OF g1] True by (simp add: prod_eq_iff)
qed

text \<open>The query rows after a write are the numbered inserts of its valid accounts, already in order.\<close>

lemma written_rows:
  assumes "write_flex_config fault config (Some accounts) d i g = Inr (True, g')"
  obtains valid ss rid where "valid_accounts accounts = Inr valid" "inserts_of 0 valid = Inr ss" "g_queries g' = numbered rid ss"
    "\<And>P. ordered_rows (filter P (numbered rid ss)) = filter P (numbered rid ss)"
proof -
  have "Some accounts \<noteq> None \<or> d \<noteq> None \<or> i \<noteq> None" by simp
  from write_flex_config_True [OF assms this] obtain valid qs g1 k where
    v: "(case Some accounts of None \<Rightarrow> Inr None | Some as \<Rightarrow> bind_err (valid_accounts as) (\<lambda>v. Inr (Some v))) = Inr valid"
    and q: "(case valid of None \<Rightarrow> Inr [] | Some as \<Rightarrow> bind_err (inserts_of 0 as) (\<lambda>ss. Inr (DeleteQueries # ss))) = Inr qs"
    and "exec_gstmts (\<lambda>_. False) 3 (settings_stmts (map_option (max 1) d) (map_option (max 1) i) g) g = Some g1"
    and e: "exec_gstmts fault k qs g1 = Some g'"
    by blast
  from v q obtain as ss where as: "valid_accounts accounts = Inr as" "inserts_of 0 as = Inr ss" "qs = DeleteQueries # ss"
    by (auto simp: bind_err_eq_Inr)
  note sh = inserts_of_shape [OF as(2)]
  obtain k' where e': "exec_gstmts fault k' ss (g1\<lparr>g_queries := []\<rparr>) = Some g'"
    using e as(3) by (auto split: if_splits)
  have "\<exists>o' l p h q. s = InsertQuery o' l p h q" if "s \<in> set ss" for s
    using sh that by (metis in_set_conv_nth)
  from exec_inserts [OF this e'] have gq: "g_queries g' = numbered (g_next_id g1) ss" by simp
  have "ordered_rows (filter P (numbered (g_next_id g1) ss)) = filter P (numbered (g_next_id g1) ss)" for P
    by (rule ordered_numbered) (use sh in blast)
  with as gq that show ?thesis by blast
qed

text \<open>C28: The accounts of a configuration write are read back. After the write the queries of a purpose are exactly
  those of the request's accounts with that purpose, in the order of the request, host before
  secondary, one per comma-separated id, each with its own token; nothing of the earlier rows is left.\<close>

theorem written_queries_read_back:
  assumes "write_flex_config fault config (Some accounts) d i g = Inr (True, g')"
  shows "\<exists>valid. valid_accounts accounts = Inr valid \<and>
    get_flex_config_for env purpose g' =
      concat (map (account_entries (env_text env ''FLEX_HOST_TOKEN'') (env_text env ''FLEX_SECONDARY_TOKEN'') purpose) valid)"
proof -
  obtain valid ss rid where w: "valid_accounts accounts = Inr valid" "inserts_of 0 valid = Inr ss" "g_queries g' = numbered rid ss"
    "\<And>P. ordered_rows (filter P (numbered rid ss)) = filter P (numbered rid ss)"
    by (rule written_rows [OF assms]) blast
  then show ?thesis
    by (auto simp: get_flex_config_for_def resolve_flex_tokens_def Let_def numbered_entries [OF w(2)])
qed

definition sample_account :: pyval where
  "sample_account = PDict [(''query_host_id'', PStr ''11, 12''), (''purpose'', PStr ''trades'')]"

theorem written_queries_read_back_witness:
  "\<exists>g' valid. write_flex_config (\<lambda>_. False) [(''sink'', PStr ''postgres'')] (Some [sample_account]) None None
      \<lparr>g_settings = None, g_queries = [], g_next_id = 1, g_execs = [], g_cash = []\<rparr> = Inr (True, g') \<and>
    valid_accounts [sample_account] = Inr valid \<and> length valid = 1 \<and>
    get_flex_config_for (\<lambda>k. if k = ''FLEX_HOST_TOKEN'' then Some ''tok'' else None) ''trades'' g' =
      concat (map (account_entries ''tok'' [] ''trades'') valid)"
proof -
  let ?g = "\<lparr>g_settings = None, g_queries = [], g_next_id = 1, g_execs = [], g_cash = []\<rparr>"
  let ?d = "[(''query_host_id'', PStr ''11, 12''), (''purpose'', PStr ''trades'')]"
  let ?env = "\<lambda>k. if k = ''FLEX_HOST_TOKEN'' then Some ''tok'' else None"
  have str: "strip ''11, 12'' = ''11, 12''" "strip ''trades'' = ''trades''" "strip ''tok'' = ''tok''" by code_simp+
  have v: "valid_accounts [sample_account] = Inr [?d]"
    by (simp add: sample_account_def strip_or_empty_def str)
  have "inserts_of 0 [?d] = Inr [InsertQuery 0 None ''trades'' ''11, 12'' None]"
    by (simp add: insert_of_def strip_or_empty_def py_or_def str or_none_def)
  then obtain g' where w: "write_flex_config (\<lambda>_. False) [(''sink'', PStr ''postgres'')] (Some [sample_account]) None None ?g = Inr (True, g')"
    by (simp add: write_flex_config_def postgres_ready_def v settings_stmts_def Let_def
        del: valid_accounts.simps inserts_of.simps)
  have "env_text ?env ''FLEX_HOST_TOKEN'' = ''tok''" "env_text ?env ''FLEX_SECONDARY_TOKEN'' = []"
    by (simp_all add: env_text_def str)
  with written_queries_read_back [OF w, of ?env "''trades''"] v w show ?thesis by auto
qed

end
