(* ===== verification/Cash_Fetch.thy ===== *)
theory Cash_Fetch
  imports Flex_Reports Flex_Config
begin

text \<open>
  \<^verbatim>\<open>orchestration/transactions.py\<close>: a cash run from its payload to its result dictionary. The run plans its
  window and chunks, asks the broker for every chunk of every query, and writes the rows. The
  outside world - the service, the XML parser, the exchange's clock, the writers of \<open>bifrost_core\<close> and every
  failure of a database call - is a parameter.
\<close>

subsection \<open>The world of a run\<close>

text \<open>\<open>o_fail name\<close> is what the named database call raises, if it does. \<open>o_day_of\<close> is the day of a stored time
  stamp in the session's zone. The two writers return their answer and what they leave stored. \<open>o_redis_settings\<close> and
  \<open>o_redis_url\<close> are \<open>effective_redis_dict\<close> and \<open>format_redis_url\<close>.\<close>

record outside =
  o_parser :: xml_parser
  o_wall :: "int \<Rightarrow> int"
  o_srv :: service
  o_env :: env
  o_today :: date
  o_day_of :: "instant \<Rightarrow> date"
  o_fail :: "string \<Rightarrow> py_error option"
  o_upsert_cash :: "row list \<Rightarrow> golden \<Rightarrow> py_error + (int \<times> int) \<times> golden"
  o_write_execs :: "row list \<Rightarrow> golden \<Rightarrow> py_error + bool \<times> golden"
  o_redis_settings :: "dict \<Rightarrow> py_error + dict"
  o_redis_url :: "dict \<Rightarrow> py_error + string"

record message =
  m_ok :: bool
  m_title :: string
  m_text :: string
  m_reason :: "string option"
  m_level :: string

record fetch_world =
  fw_golden :: golden
  fw_wire :: wire
  fw_messages :: "message list"

definition db_call :: "outside \<Rightarrow> string \<Rightarrow> 'a \<Rightarrow> py_error + 'a" where
  "db_call out name v = (case o_fail out name of None \<Rightarrow> Inr v | Some e \<Rightarrow> Inl e)"

text \<open>\<open>{"ok": False, "error": msg, "count": 0}\<close>.\<close>

definition failed_run :: "string \<Rightarrow> dict" where
  "failed_run msg = [(''ok'', PBool False), (''error'', PStr msg), (''count'', PInt 0)]"

subsection \<open>Planning\<close>

definition counted_account :: "golden \<Rightarrow> string option \<Rightarrow> bool" where
  "counted_account g acct \<longleftrightarrow>
     g_execs g = [] \<or> acct \<noteq> None \<and> acct \<in> x_account ` set (g_execs g)"

definition last_stamp :: "golden \<Rightarrow> string option \<Rightarrow> instant option" where
  "last_stamp g acct =
     (let ts = List.map_filter snd (filter (\<lambda>(a, _). a = acct) (g_cash g))
      in if ts = [] then None else Some (Max (set ts)))"

definition read_last_transaction_dates :: "outside \<Rightarrow> golden \<Rightarrow> (string \<times> date) list" where
  "read_last_transaction_dates out g =
     List.map_filter (\<lambda>acct. case (acct, last_stamp g acct) of
         (Some a, Some ts) \<Rightarrow> if a = [] then None else Some (a, o_day_of out ts)
       | _ \<Rightarrow> None)
       (remdups (filter (counted_account g) (map fst (g_cash g))))"

definition scheduled_window :: "outside \<Rightarrow> golden \<Rightarrow> py_error + date \<times> date \<times> string \<times> int" where
  "scheduled_window out g =
     bind_err (db_call out ''range_days'' (get_flex_range_days g)) (\<lambda>(default_days, init_days).
     bind_err (db_call out ''last_dates'' (read_last_transaction_dates out g)) (\<lambda>last_dates.
     transactions_window last_dates default_days init_days (o_today out)))"

definition usable_entries :: "query_entry list \<Rightarrow> query_entry list" where
  "usable_entries es =
     map (\<lambda>e. e\<lparr>q_token := strip (q_token e), q_id := strip (q_id e)\<rparr>)
       (filter (\<lambda>e. strip (q_token e) \<noteq> [] \<and> strip (q_id e) \<noteq> []) es)"

type_synonym chunk = "string option \<times> string option"

record cash_plan =
  cp_entries :: "query_entry list"
  cp_chunks :: "chunk list"
  cp_fallback :: bool
  cp_from :: "string option"
  cp_to :: "string option"
  cp_mode :: string
  cp_days :: "int option"

definition NO_CASH_CREDENTIALS :: string where
  "NO_CASH_CREDENTIALS =
     ''No Flex credentials for cash_transactions: set FLEX_HOST_TOKEN / '' @
     ''FLEX_SECONDARY_TOKEN (K8s Secret bifrost-flex-tokens) and '' @
     ''purpose=cash_transactions query_id rows '' @
     ''(Settings '' @ arrow @ '' IB Connection '' @ arrow @ '' Flex Query IDs, or Ops Console Flex Plugin).''"

definition payload_fallback :: "dict \<Rightarrow> bool" where
  "payload_fallback payload =
     flag_truthy (if dhas payload ''fallback'' then dget payload ''fallback'' else PBool True)"

text \<open>The chunks of a window given as text: split when both dates parse, passed through otherwise.\<close>

definition chunks_of :: "string option \<Rightarrow> string option \<Rightarrow> py_error + chunk list" where
  "chunks_of from_date to_date =
     (case (if the_text from_date \<noteq> [] \<and> the_text to_date \<noteq> []
            then (parse_yyyymmdd (the_text from_date), parse_yyyymmdd (the_text to_date)) else (None, None)) of
        (Some fd, Some td) \<Rightarrow> bind_err (split_window fd td CHUNK_MAX_SPAN_DAYS) (\<lambda>cs.
          Inr (map (\<lambda>(a, b). (Some (strftime_ymd a), Some (strftime_ymd b))) cs))
      | _ \<Rightarrow> Inr [(from_date, to_date)])"

text \<open>The run up to its first request: an early answer, or the plan.\<close>

definition plan_cash :: "outside \<Rightarrow> dict \<Rightarrow> dict \<Rightarrow> golden \<Rightarrow> py_error + dict + cash_plan" where
  "plan_cash out config payload g =
     (if \<not> postgres_ready config
      then Inr (Inl (failed_run ''Postgres config required to write account_transactions.''))
      else
        bind_err (db_call out ''open'' ()) (\<lambda>_.
        bind_err (db_call out ''get_flex_config'' (get_flex_config_for (o_env out) ''cash_transactions'' g)) (\<lambda>es.
        let entries = usable_entries es in
        if entries = [] then Inr (Inl (failed_run NO_CASH_CREDENTIALS))
        else
          bind_err (strip_or_empty (dget payload ''from_date'')) (\<lambda>f0.
          bind_err (strip_or_empty (dget payload ''to_date'')) (\<lambda>t0.
          bind_err (if f0 = [] \<and> t0 = [] then
                      bind_err (scheduled_window out g) (\<lambda>(start, stop, mode, n).
                      Inr (Some (strftime_ymd start), Some (strftime_ymd stop), mode, Some n))
                    else Inr (or_none f0, or_none t0, ''manual'', None)) (\<lambda>(fd, td, mode, n).
          bind_err (chunks_of fd td) (\<lambda>cs.
          Inr (Inr \<lparr>cp_entries = entries, cp_chunks = cs, cp_fallback = payload_fallback payload,
                cp_from = fd, cp_to = td, cp_mode = mode, cp_days = n\<rparr>))))))))"

subsection \<open>Fetching\<close>

definition statement_unavailable :: "string \<Rightarrow> bool" where
  "statement_unavailable msg \<longleftrightarrow> contains ''[1003]'' msg \<or> contains ''Statement is not available'' msg"

text \<open>\<open>_fetch_chunk\<close>: the rows it adds to the sink or the error text; \<open>Inl\<close> is an exception it does not catch.\<close>

definition fetch_chunk ::
  "outside \<Rightarrow> query_entry \<Rightarrow> chunk \<Rightarrow> bool \<Rightarrow> wire \<Rightarrow> (py_error + row list + string) \<times> wire" where
  "fetch_chunk out e c allow_fallback w =
     (case fetch_cash_transactions (o_parser out) (o_srv out) (q_token e) (q_id e) (fst c) (snd c) w of
        (Inr rows, w1) \<Rightarrow> (Inr (Inl rows), w1)
      | (Inl (ValueError msg), w1) \<Rightarrow>
          if allow_fallback \<and> the_text (fst c) \<noteq> [] \<and> the_text (snd c) \<noteq> [] \<and> statement_unavailable msg then
            (case fetch_cash_transactions (o_parser out) (o_srv out) (q_token e) (q_id e) None None w1 of
               (Inr rows, w2) \<Rightarrow> (Inr (Inl rows), w2)
             | (Inl (ValueError msg2), w2) \<Rightarrow>
                 (Inr (Inr (msg @ ''; fallback query-default failed: '' @ msg2)), w2)
             | (Inl ex, w2) \<Rightarrow> (Inl ex, w2))
          else (Inr (Inr msg), w1)
      | (Inl ex, w1) \<Rightarrow> (Inl ex, w1))"

definition chunk_error :: "nat \<Rightarrow> chunk \<Rightarrow> string \<Rightarrow> string" where
  "chunk_error n c err =
     (if n = 1 then err
      else (case fst c of None \<Rightarrow> ''None'' | Some s \<Rightarrow> s) @ ''..'' @ (case snd c of None \<Rightarrow> ''None'' | Some s \<Rightarrow> s) @ '': '' @ err)"

text \<open>The two nested loops, over the (query, chunk) pairs in order; \<open>n\<close> chunks per query.\<close>

fun fetch_chunks ::
  "outside \<Rightarrow> nat \<Rightarrow> bool \<Rightarrow> (query_entry \<times> chunk) list \<Rightarrow> row list \<Rightarrow> string list \<Rightarrow> wire \<Rightarrow>
     (py_error + row list \<times> string list) \<times> wire" where
  "fetch_chunks out n allow [] rows errs w = (Inr (rows, errs), w)"
| "fetch_chunks out n allow ((e, c) # rest) rows errs w =
     (case fetch_chunk out e c (allow \<and> n = 1) w of
        (Inl ex, w') \<Rightarrow> (Inl ex, w')
      | (Inr (Inl new), w') \<Rightarrow> fetch_chunks out n allow rest (rows @ new) errs w'
      | (Inr (Inr err), w') \<Rightarrow>
          fetch_chunks out n allow rest rows (if err = [] then errs else errs @ [chunk_error n c err]) w')"

definition cash_requests :: "cash_plan \<Rightarrow> (query_entry \<times> chunk) list" where
  "cash_requests p = concat (map (\<lambda>e. map (Pair e) (cp_chunks p)) (cp_entries p))"

subsection \<open>Writing and reporting\<close>

definition opt_int :: "int option \<Rightarrow> pyval" where
  "opt_int n = (case n of None \<Rightarrow> PNone | Some i \<Rightarrow> PInt i)"

definition cash_extra :: "cash_plan \<Rightarrow> dict" where
  "cash_extra p =
     [(''range_mode'', PStr (cp_mode p)), (''range_days'', opt_int (cp_days p)), (''range_chunks'', PInt (int (length (cp_chunks p))))]"

definition cash_window :: "cash_plan \<Rightarrow> dict" where
  "cash_window p =
     [(''by_account'', PInt (int (length (cp_entries p)))), (''range_from'', opt_text (cp_from p)), (''range_to'', opt_text (cp_to p))]"

definition show_len :: "'a list \<Rightarrow> string" where
  "show_len xs = show_nat (length xs)"

definition report_cash ::
  "outside \<Rightarrow> cash_plan \<Rightarrow> row list \<Rightarrow> string list \<Rightarrow> golden \<Rightarrow> py_error + dict \<times> golden" where
  "report_cash out p rows errs g =
     (if errs \<noteq> [] \<and> rows = [] then Inr (failed_run (join ''; '' errs), g)
      else if rows = [] then
        Inr ([(''ok'', PBool True), (''count'', PInt 0), (''message'', PStr ''No cash transactions in report.''),
              (''errors'', PList (map PStr errs))] @ cash_window p @ cash_extra p, g)
      else
        bind_err (o_upsert_cash out rows g) (\<lambda>((written, skipped), g').
        if written = 0 then
          Inr ([(''ok'', PBool False),
                (''error'', PStr (''Parsed '' @ show_len rows @ '' cash transaction(s) but wrote 0'' @
                   (if skipped \<noteq> 0 then '' ('' @ show_int skipped @ '' skipped)'' else []) @ ''.'')),
                (''count'', PInt 0), (''skipped'', PInt skipped)] @ cash_window p @ cash_extra p, g')
        else
          Inr ([(''ok'', PBool True), (''count'', PInt written), (''skipped'', PInt skipped),
                (''message'', PStr (''Upserted '' @ show_int written @ '' transaction(s) from '' @ show_len (cp_entries p) @
                   '' Flex account(s).'' @
                   (if skipped \<noteq> 0 then '' Skipped '' @ show_int skipped @ '' row(s).'' else []) @
                   (if 1 < length (cp_chunks p) then '' Window '' @ the_text (cp_from p) @ ''..'' @ the_text (cp_to p) @ '' in '' @
                      show_len (cp_chunks p) @ '' requests per account.'' else []) @
                   (if errs \<noteq> [] then '' Partial errors: '' @ join ''; '' errs else []))),
                (''errors'', PList (map PStr errs))] @ cash_window p @ cash_extra p, g')))"

definition fetch_cash_transactions_from_flex :: "outside \<Rightarrow> dict \<Rightarrow> dict \<Rightarrow> fetch_world \<Rightarrow> dict \<times> fetch_world" where
  "fetch_cash_transactions_from_flex out config payload fw =
     (case plan_cash out config payload (fw_golden fw) of
        Inl e \<Rightarrow> (failed_run (exn_text e), fw)
      | Inr (Inl early) \<Rightarrow> (early, fw)
      | Inr (Inr p) \<Rightarrow>
          (case fetch_chunks out (length (cp_chunks p)) (cp_fallback p) (cash_requests p) [] [] (fw_wire fw) of
             (Inl e, w) \<Rightarrow> (failed_run (exn_text e), fw\<lparr>fw_wire := w\<rparr>)
           | (Inr (rows, errs), w) \<Rightarrow>
               (case report_cash out p rows errs (fw_golden fw) of
                  Inl e \<Rightarrow> (failed_run (exn_text e), fw\<lparr>fw_wire := w\<rparr>)
                | Inr (d, g') \<Rightarrow> (d, fw\<lparr>fw_wire := w, fw_golden := g'\<rparr>))))"

subsection \<open>What a run asks for\<close>

lemma poll_statement_sent: "set (sent w) \<subseteq> set (sent (snd (poll_statement parser srv url n le w)))"
  by (induction n arbitrary: le w) (fastforce simp: urlopen_def nap_def split: reply.splits option.splits)+

lemma get_statement_sent: "set (sent w) \<subseteq> set (sent (snd (get_statement parser srv token ref w)))"
  unfolding get_statement_def by (rule poll_statement_sent)

lemma fetch_cash_sent:
  "set (sent w) \<subseteq> set (sent (snd (fetch_cash_transactions parser srv tok qid fd td w)))"
  "report_params tok qid fd td None = Inr ps \<Longrightarrow>
     send_request_url ps \<in> set (sent (snd (fetch_cash_transactions parser srv tok qid fd td w)))"
proof -
  obtain r w1 where r: "request_report parser srv tok qid fd td None w = (r, w1)" by force
  have "set (sent w1) \<subseteq> set (sent (snd (fetch_cash_transactions parser srv tok qid fd td w)))"
  proof (cases r)
    case (Inr ref)
    then show ?thesis
      using get_statement_sent [of w1 parser srv tok ref]
      by (auto simp: fetch_cash_transactions_def r split: prod.splits sum.splits)
  qed (simp add: fetch_cash_transactions_def r)
  moreover have "sent w1 = sent w @ (case report_params tok qid fd td None of Inl _ \<Rightarrow> [] | Inr ps \<Rightarrow> [send_request_url ps])"
    using request_report_once [of parser srv tok qid fd td None w] by (simp add: r)
  ultimately show "set (sent w) \<subseteq> set (sent (snd (fetch_cash_transactions parser srv tok qid fd td w)))"
    "report_params tok qid fd td None = Inr ps \<Longrightarrow>
       send_request_url ps \<in> set (sent (snd (fetch_cash_transactions parser srv tok qid fd td w)))"
    by auto
qed

lemma fetch_chunk_sent:
  assumes "fetch_chunk out e c allow w = (r, w')"
  shows "set (sent w) \<subseteq> set (sent w')"
    "report_params (q_token e) (q_id e) (fst c) (snd c) None = Inr ps \<Longrightarrow> send_request_url ps \<in> set (sent w')"
proof -
  let ?f = "\<lambda>fd td w. fetch_cash_transactions (o_parser out) (o_srv out) (q_token e) (q_id e) fd td w"
  obtain r1 w1 where f1: "?f (fst c) (snd c) w = (r1, w1)" by force
  obtain r2 w2 where f2: "?f None None w1 = (r2, w2)" by force
  have "w' = w1 \<or> w' = w2"
    using assms by (auto simp: fetch_chunk_def f1 f2 split: sum.splits py_error.splits if_splits)
  then have "set (sent w1) \<subseteq> set (sent w')"
    using fetch_cash_sent(1) [of w1 "o_parser out" "o_srv out" "q_token e" "q_id e" None None] by (auto simp: f2)
  then show "set (sent w) \<subseteq> set (sent w')"
    "report_params (q_token e) (q_id e) (fst c) (snd c) None = Inr ps \<Longrightarrow> send_request_url ps \<in> set (sent w')"
    using fetch_cash_sent [where parser = "o_parser out" and srv = "o_srv out" and tok = "q_token e" and qid = "q_id e"
        and fd = "fst c" and td = "snd c" and w = w] by (auto simp: f1)
qed

lemma fetch_chunks_sent:
  assumes "fetch_chunks out n allow reqs rows errs w = (Inr res, w')"
  shows "set (sent w) \<subseteq> set (sent w')"
    "(e, c) \<in> set reqs \<Longrightarrow> report_params (q_token e) (q_id e) (fst c) (snd c) None = Inr ps \<Longrightarrow>
       send_request_url ps \<in> set (sent w')"
proof -
  have "set (sent w) \<subseteq> set (sent w') \<and> (\<forall>(e, c) \<in> set reqs. \<forall>ps.
      report_params (q_token e) (q_id e) (fst c) (snd c) None = Inr ps \<longrightarrow> send_request_url ps \<in> set (sent w'))"
    using assms
  proof (induction reqs arbitrary: rows errs w)
    case (Cons ec reqs)
    obtain e c where ec: "ec = (e, c)" by (cases ec)
    obtain r w1 where f: "fetch_chunk out e c (allow \<and> n = 1) w = (r, w1)" by force
    obtain rows' errs' where "fetch_chunks out n allow reqs rows' errs' w1 = (Inr res, w')"
      using Cons.prems by (auto simp: ec f simp del: One_nat_def split: sum.splits)
    from Cons.IH [OF this] fetch_chunk_sent [OF f] show ?case by (auto simp: ec)
  qed simp
  then show "set (sent w) \<subseteq> set (sent w')"
    "(e, c) \<in> set reqs \<Longrightarrow> report_params (q_token e) (q_id e) (fst c) (snd c) None = Inr ps \<Longrightarrow>
       send_request_url ps \<in> set (sent w')"
    by auto
qed

lemma chunks_of_printed:
  assumes "364878 \<le> start" "start \<le> stop" "stop + int CHUNK_MAX_SPAN_DAYS < MAXORDINAL"
    and "chunks_of (Some (strftime_ymd start)) (Some (strftime_ymd stop)) = Inr cs" "start \<le> d" "d \<le> stop"
  shows "\<exists>a b. a \<le> d \<and> d \<le> b \<and> (Some (strftime_ymd a), Some (strftime_ymd b)) \<in> set cs \<and>
    report_dates (Some (strftime_ymd a)) (Some (strftime_ymd b)) = Inr (Some (strftime_ymd a, strftime_ymd b))"
proof -
  have r: "364878 \<le> start" "start \<le> MAXORDINAL" "364878 \<le> stop" "stop \<le> MAXORDINAL" using assms(1-3) by linarith+
  have "1 \<le> start" using r(1) by simp
  from split_window_covers [OF this assms(2,3)] obtain ws where
    ws: "split_window start stop CHUNK_MAX_SPAN_DAYS = Inr ws" "concat (map (\<lambda>(a, b). [a..b]) ws) = [start..stop]"
    "\<And>a b. (a, b) \<in> set ws \<Longrightarrow> start \<le> a \<and> a \<le> b \<and> b \<le> stop \<and> b - a \<le> int CHUNK_MAX_SPAN_DAYS"
    "int (length ws) * (int CHUNK_MAX_SPAN_DAYS + 1) < stop - start + 1 + (int CHUNK_MAX_SPAN_DAYS + 1)"
    by blast
  have cs: "cs = map (\<lambda>(a, b). (Some (strftime_ymd a), Some (strftime_ymd b))) ws"
    using assms(4) printed_date(4,5) [OF r(1,2)] printed_date(4,5) [OF r(3,4)] ws(1) by (simp add: chunks_of_def)
  have "d \<in> set (concat (map (\<lambda>(a, b). [a..b]) ws))" using ws(2) assms(5,6) by simp
  then obtain a b where ab: "(a, b) \<in> set ws" "a \<le> d" "d \<le> b" unfolding mem_concat_intervals by blast
  have q: "364878 \<le> a" "a \<le> MAXORDINAL" "364878 \<le> b" "b \<le> MAXORDINAL" "\<not> MAX_FLEX_DAYS < b - a"
    using ws(3) [OF ab(1)] r by (auto simp: CHUNK_MAX_SPAN_DAYS_def MAX_FLEX_DAYS_def)
  have "report_dates (Some (strftime_ymd a)) (Some (strftime_ymd b)) = Inr (Some (strftime_ymd a, strftime_ymd b))"
    using report_dates_printed [OF q(1-4)] q(5) by simp
  with ab show ?thesis by (force simp: cs)
qed

lemma plan_cash_scheduled:
  assumes "plan_cash out config payload g = Inr (Inr p)"
    and "strip_or_empty (dget payload ''from_date'') = Inr []" "strip_or_empty (dget payload ''to_date'') = Inr []"
  obtains start stop n dd di where
    "transactions_window (read_last_transaction_dates out g) dd di (o_today out) = Inr (start, stop, cp_mode p, n)"
    "get_flex_range_days g = (dd, di)"
    "chunks_of (Some (strftime_ymd start)) (Some (strftime_ymd stop)) = Inr (cp_chunks p)"
  using assms
  by (auto simp: plan_cash_def scheduled_window_def db_call_def bind_err_eq_Inr Let_def split: if_splits option.splits)

text \<open>C22: A scheduled cash run asks for every missing day. Whenever such a run gets to its end - whatever the broker
  answered to each request - it has sent, for every configured query and for every day from any
  account's last stored day up to yesterday, a request whose dates enclose that day.\<close>

theorem cash_run_asks_every_day:
  assumes "plan_cash out config payload g = Inr (Inr p)"
    and "strip_or_empty (dget payload ''from_date'') = Inr []" "strip_or_empty (dget payload ''to_date'') = Inr []"
    and "fetch_chunks out (length (cp_chunks p)) (cp_fallback p) (cash_requests p) [] [] w = (Inr res, w')"
    and "e \<in> set (cp_entries p)" "(acct, stored_day) \<in> set (read_last_transaction_dates out g)"
    and "\<forall>(a, n) \<in> set (read_last_transaction_dates out g). 364878 \<le> n"
    and "364878 \<le> o_today out - 1 - max 1 (fst (get_flex_range_days g))"
    and "o_today out + int CHUNK_MAX_SPAN_DAYS \<le> MAXORDINAL"
    and "stored_day \<le> d" "d < o_today out"
  shows "\<exists>a b. a \<le> d \<and> d \<le> b \<and>
    send_request_url [(''t'', q_token e), (''q'', q_id e), (''v'', ''3''), (''fd'', strftime_ymd a), (''td'', strftime_ymd b)] \<in> set (sent w')"
proof -
  let ?ld = "read_last_transaction_dates out g"
  obtain start stop n dd di where
    tw: "transactions_window ?ld dd di (o_today out) = Inr (start, stop, cp_mode p, n)"
    and dd: "get_flex_range_days g = (dd, di)"
    and cs: "chunks_of (Some (strftime_ymd start)) (Some (strftime_ymd stop)) = Inr (cp_chunks p)"
    by (rule plan_cash_scheduled [OF assms(1-3)])
  note w = transactions_window_Inr [OF tw]
  have mem: "stored_day \<in> snd ` set ?ld" using assms(6) by force
  then have "?ld \<noteq> []" by auto
  then have start: "start = min (Min (snd ` set ?ld)) (stop - max 1 dd)" by (rule w(4))
  have "Min (snd ` set ?ld) \<in> snd ` set ?ld" using mem by (intro Min_in) auto
  then obtain acct' where "(acct', Min (snd ` set ?ld)) \<in> set ?ld" by force
  with assms(7) have "364878 \<le> Min (snd ` set ?ld)" by blast
  with start w(1) assms(8) dd have s1: "364878 \<le> start" by simp
  have "Min (snd ` set ?ld) \<le> stored_day" using mem by simp
  with start w(1) assms(10,11) have d: "start \<le> d" "d \<le> stop" by auto
  have up: "stop + int CHUNK_MAX_SPAN_DAYS < MAXORDINAL" using assms(9) w(1) by simp
  from chunks_of_printed [OF s1 less_imp_le [OF w(3)] up cs d] obtain a b where
    ab: "a \<le> d" "d \<le> b" "(Some (strftime_ymd a), Some (strftime_ymd b)) \<in> set (cp_chunks p)"
    "report_dates (Some (strftime_ymd a)) (Some (strftime_ymd b)) = Inr (Some (strftime_ymd a, strftime_ymd b))"
    by blast
  have "(e, (Some (strftime_ymd a), Some (strftime_ymd b))) \<in> set (cash_requests p)"
    using assms(5) ab(3) by (auto simp: cash_requests_def)
  from fetch_chunks_sent(2) [OF assms(4) this] ab show ?thesis
    by (auto simp: report_params_def)
qed

text \<open>A cluster with one query, one stored cash row and a broker that is down.\<close>

definition sample_golden :: golden where
  "sample_golden = \<lparr>g_settings = None, g_queries = [\<lparr>sf_id = 1, sort_order = 0, sf_label = None,
       sf_purpose = Some ''cash_transactions'', query_host_id = Some ''11'', query_secondary_id = None\<rparr>],
     g_next_id = 2, g_execs = [], g_cash = [(Some ''U1'', Some 0)]\<rparr>"

definition sample_outside :: outside where
  "sample_outside = \<lparr>o_parser = (\<lambda>_. Inl ''no element found''), o_wall = (\<lambda>_. 0), o_srv = (\<lambda>_ _. UrlError ''down''),
     o_env = (\<lambda>k. if k = ''FLEX_HOST_TOKEN'' then Some ''tok'' else None), o_today = 740000, o_day_of = (\<lambda>_. 739900),
     o_fail = (\<lambda>_. None), o_upsert_cash = (\<lambda>rows g. Inr ((int (length rows), 0), g)), o_write_execs = (\<lambda>_ g. Inr (True, g)),
     o_redis_settings = (\<lambda>_. Inr []), o_redis_url = (\<lambda>_. Inr ''redis://trade-redis:6379/0'')\<rparr>"

definition sample_entry :: query_entry where
  "sample_entry = \<lparr>q_token = ''tok'', q_id = ''11'', q_role = ''host'', q_label = None, q_purpose = Some ''cash_transactions''\<rparr>"

definition sample_plan :: cash_plan where
  "sample_plan = \<lparr>cp_entries = [sample_entry], cp_chunks = [(Some (strftime_ymd 739900), Some (strftime_ymd 739999))],
     cp_fallback = True, cp_from = Some (strftime_ymd 739900), cp_to = Some (strftime_ymd 739999),
     cp_mode = ''incremental'', cp_days = Some 99\<rparr>"

lemma sample_last_dates: "read_last_transaction_dates sample_outside sample_golden = [(''U1'', 739900)]"
  by (simp add: read_last_transaction_dates_def sample_golden_def sample_outside_def counted_account_def last_stamp_def
      List.map_filter_def)

lemma sample_chunks:
  "chunks_of (Some (strftime_ymd 739900)) (Some (strftime_ymd 739999)) = Inr [(Some (strftime_ymd 739900), Some (strftime_ymd 739999))]"
proof -
  have "strftime_ymd 739900 \<noteq> []" "strftime_ymd 739999 \<noteq> []" "parse_yyyymmdd (strftime_ymd 739900) = Some 739900"
    "parse_yyyymmdd (strftime_ymd 739999) = Some 739999"
    by (rule printed_date; simp add: MAXORDINAL_def)+
  then show ?thesis
    by (simp add: chunks_of_def split_window_def chunks_from.simps add_days_def valid_date_def CHUNK_MAX_SPAN_DAYS_def
        MAX_FLEX_DAYS_def MAXORDINAL_def)
qed

lemma sample_plan_cash:
  assumes "postgres_ready config"
  shows "plan_cash sample_outside config [] sample_golden = Inr (Inr sample_plan)"
proof -
  have es: "usable_entries (get_flex_config_for (o_env sample_outside) ''cash_transactions'' sample_golden) = [sample_entry]"
    by code_simp
  have rd: "get_flex_range_days sample_golden = (30, 360)" by code_simp
  have ex: "o_fail sample_outside = (\<lambda>_. None)" "o_today sample_outside = 740000" by (simp_all add: sample_outside_def)
  have "scheduled_window sample_outside sample_golden = Inr (739900, 739999, ''incremental'', 99)"
    by (simp add: scheduled_window_def db_call_def rd ex sample_last_dates transactions_window_def minus_days_def
        timedelta_days_def add_days_def valid_date_def MAXORDINAL_def)
  then show ?thesis
    using assms by (simp add: plan_cash_def db_call_def ex es Let_def strip_or_empty_def sample_chunks sample_plan_def
        payload_fallback_def flag_truthy_def)
qed

lemma sample_fetch:
  "\<exists>w'. fetch_chunks sample_outside (length (cp_chunks sample_plan)) (cp_fallback sample_plan) (cash_requests sample_plan) [] []
     \<lparr>sent = [], slept = 0\<rparr> = (Inr ([], [''Flex SendRequest failed: down'']), w')"
proof -
  let ?c = "(Some (strftime_ymd 739900), Some (strftime_ymd 739999))"
  have nv: "\<not> statement_unavailable (''Flex SendRequest failed: down'')" by code_simp
  have rd: "report_dates (fst ?c) (snd ?c) = Inr (Some (strftime_ymd 739900, strftime_ymd 739999))"
    using report_dates_printed [of 739900 739999] by (simp add: MAXORDINAL_def MAX_FLEX_DAYS_def)
  have "\<exists>w1. fetch_cash_transactions (o_parser sample_outside) (o_srv sample_outside) (q_token sample_entry) (q_id sample_entry)
      (fst ?c) (snd ?c) \<lparr>sent = [], slept = 0\<rparr> = (Inl (ValueError ''Flex SendRequest failed: down''), w1)"
    unfolding fetch_cash_transactions_def request_report_def report_params_def rd
    by (simp add: urlopen_def sample_outside_def)
  then obtain w1 where "fetch_chunk sample_outside sample_entry ?c True \<lparr>sent = [], slept = 0\<rparr> =
      (Inr (Inr ''Flex SendRequest failed: down''), w1)"
    using nv by (auto simp: fetch_chunk_def)
  then show ?thesis by (simp add: cash_requests_def sample_plan_def chunk_error_def)
qed

theorem cash_run_asks_every_day_witness:
  "\<exists>p res w' a b. plan_cash sample_outside [(''sink'', PStr ''postgres'')] [] sample_golden = Inr (Inr p) \<and>
     fetch_chunks sample_outside (length (cp_chunks p)) (cp_fallback p) (cash_requests p) [] [] \<lparr>sent = [], slept = 0\<rparr> = (Inr res, w') \<and>
     a \<le> 739950 \<and> 739950 \<le> b \<and>
     send_request_url [(''t'', ''tok''), (''q'', ''11''), (''v'', ''3''), (''fd'', strftime_ymd a), (''td'', strftime_ymd b)] \<in> set (sent w')"
proof -
  let ?res = "([], [''Flex SendRequest failed: down''])"
  have ready: "postgres_ready [(''sink'', PStr ''postgres'')]" by (simp add: postgres_ready_def)
  obtain w' where f: "fetch_chunks sample_outside (length (cp_chunks sample_plan)) (cp_fallback sample_plan)
      (cash_requests sample_plan) [] [] \<lparr>sent = [], slept = 0\<rparr> = (Inr ?res, w')"
    using sample_fetch by blast
  have rd: "get_flex_range_days sample_golden = (30, 360)" by code_simp
  have "\<exists>a b. a \<le> 739950 \<and> 739950 \<le> b \<and> send_request_url [(''t'', q_token sample_entry), (''q'', q_id sample_entry), (''v'', ''3''),
      (''fd'', strftime_ymd a), (''td'', strftime_ymd b)] \<in> set (sent w')"
    by (rule cash_run_asks_every_day [OF sample_plan_cash [OF ready] _ _ f, where acct = "''U1''" and stored_day = 739900])
      (simp_all add: strip_or_empty_def sample_last_dates rd sample_plan_def, simp_all add: sample_outside_def MAXORDINAL_def CHUNK_MAX_SPAN_DAYS_def MAX_FLEX_DAYS_def)
  then show ?thesis using sample_plan_cash [OF ready] f by (auto simp: sample_entry_def)
qed

end
