(* ===== verification/Notify.thy ===== *)
theory Notify
  imports Cash_Fetch
begin

text \<open>
  \<^verbatim>\<open>orchestration/notify.py\<close>: where a system message of a trades run goes and what it says. \<open>effective_redis_dict\<close> and
  \<open>format_redis_url\<close> of \<^verbatim>\<open>bifrost_core\<close> are the parameters \<open>eff\<close> and \<open>fmt\<close>; what Redis does for a URL is a \<open>redis_outcome\<close>.
\<close>

definition MESSAGE_CENTER_TOPIC_PORTFOLIO_FLEX_EXECUTIONS :: string where
  "MESSAGE_CENTER_TOPIC_PORTFOLIO_FLEX_EXECUTIONS = ''portfolio.flex_executions''"

definition LOOPBACK_HOSTS :: "string list" where
  "LOOPBACK_HOSTS = [''127.0.0.1'', ''localhost'', ''::1'']"

definition explicit_redis_host :: "env \<Rightarrow> dict \<Rightarrow> py_error + bool" where
  "explicit_redis_host env config =
     (if env_text env ''REDIS_HOST'' \<noteq> [] then Inr True
      else (case py_or (dget config ''redis'') (PDict []) of
          PDict r \<Rightarrow> Inr (dget r ''host'' \<noteq> PNone \<and> strip (py_str (dget r ''host'')) \<noteq> [])
        | _ \<Rightarrow> Inl (AttributeError ''get'')))"

definition resolve_message_center_redis_url ::
  "(dict \<Rightarrow> py_error + dict) \<Rightarrow> (dict \<Rightarrow> py_error + string) \<Rightarrow> env \<Rightarrow> dict option \<Rightarrow> py_error + string option" where
  "resolve_message_center_redis_url eff fmt env config = (case config of
      None \<Rightarrow> Inr None
    | Some cfg \<Rightarrow>
        if cfg = [] then Inr None
        else
          bind_err (eff cfg) (\<lambda>effective.
          let loopback = lower (strip (text_or_empty (dget effective ''host''))) \<in> set LOOPBACK_HOSTS in
          bind_err (if loopback then explicit_redis_host env cfg else Inr True) (\<lambda>explicit.
          if loopback \<and> \<not> explicit then Inr None else bind_err (fmt effective) (\<lambda>url. Inr (Some url)))))"

record system_event =
  ev_message_id :: string
  ev_topic :: string
  ev_level :: string
  ev_service :: string
  ev_slot :: string
  ev_status_from :: string
  ev_status_to :: string
  ev_title :: string
  ev_message :: string
  ev_reason :: "string option"
  ev_occurred_at :: pyfloat
  ev_dedupe_key :: string

text \<open>\<open>client_id\<close> and \<open>account\<close> are always null. \<open>uuid1\<close> and \<open>uuid2\<close> are the two random ids, \<open>clock\<close> is \<open>time.time()\<close>.\<close>

definition build_portfolio_flex_executions_fetch_event ::
  "string \<Rightarrow> string \<Rightarrow> pyfloat \<Rightarrow> bool \<Rightarrow> string \<Rightarrow> string \<Rightarrow> string option \<Rightarrow> string option \<Rightarrow> pyfloat option \<Rightarrow> system_event" where
  "build_portfolio_flex_executions_fetch_event uuid1 uuid2 clock ok title message reason level occurred_at =
     \<lparr>ev_message_id = uuid1, ev_topic = MESSAGE_CENTER_TOPIC_PORTFOLIO_FLEX_EXECUTIONS,
      ev_level = (if the_text level \<noteq> [] then the_text level else if ok then ''success'' else ''error''),
      ev_service = ''portfolio_flex'', ev_slot = ''host'', ev_status_from = ''unknown'',
      ev_status_to = (if ok then ''complete'' else ''failed''), ev_title = title, ev_message = message, ev_reason = reason,
      ev_occurred_at = (case occurred_at of None \<Rightarrow> clock | Some t \<Rightarrow> if float_is_zero t then clock else t),
      ev_dedupe_key = MESSAGE_CENTER_TOPIC_PORTFOLIO_FLEX_EXECUTIONS @ '':'' @ uuid2\<rparr>"

record redis_outcome =
  ro_connect :: "py_error option"
  ro_xadd :: "py_error + string option"
  ro_close :: "py_error option"

text \<open>The answer and what was written to which stream. The close runs whatever the write did, and an error of it is one of the call.\<close>

definition publish_flex_executions_system_message ::
  "(dict \<Rightarrow> py_error + dict) \<Rightarrow> (dict \<Rightarrow> py_error + string) \<Rightarrow> env \<Rightarrow> (string \<Rightarrow> redis_outcome) \<Rightarrow> string \<Rightarrow> string \<Rightarrow> pyfloat \<Rightarrow>
     dict option \<Rightarrow> bool \<Rightarrow> string \<Rightarrow> string \<Rightarrow> string option \<Rightarrow> string option \<Rightarrow> (py_error + bool) \<times> (string \<times> system_event) list" where
  "publish_flex_executions_system_message eff fmt env redis uuid1 uuid2 clock config ok title message reason level =
     (case resolve_message_center_redis_url eff fmt env config of
        Inl e \<Rightarrow> (Inl e, [])
      | Inr url_o \<Rightarrow>
          let url = the_text url_o; ev = build_portfolio_flex_executions_fetch_event uuid1 uuid2 clock ok title message reason level None in
          if url = [] then (Inr False, [])
          else if ro_connect (redis url) \<noteq> None then (Inr False, [])
          else (case ro_xadd (redis url) of
              Inl _ \<Rightarrow> (Inr False, [])
            | Inr None \<Rightarrow> (Inr False, [])
            | Inr (Some _) \<Rightarrow> (Inr (ro_close (redis url) = None), [(url, ev)])))"

subsection \<open>Where messages go\<close>

lemma resolve_Some:
  assumes "resolve_message_center_redis_url eff fmt env config = Inr (Some url)"
  obtains cfg effective where "config = Some cfg" "eff cfg = Inr effective" "fmt effective = Inr url"
    "lower (strip (text_or_empty (dget effective ''host''))) \<in> set LOOPBACK_HOSTS \<Longrightarrow> explicit_redis_host env cfg = Inr True"
  using assms by (auto simp: resolve_message_center_redis_url_def bind_err_eq_Inr Let_def split: option.splits if_splits)

lemma explicit_redis_host_True:
  "explicit_redis_host env cfg = Inr True \<Longrightarrow>
     env_text env ''REDIS_HOST'' \<noteq> [] \<or> (\<exists>r. dget cfg ''redis'' = PDict r \<and> strip (py_str (dget r ''host'')) \<noteq> [] \<and> dget r ''host'' \<noteq> PNone)"
  by (auto simp: explicit_redis_host_def py_or_def split: if_splits pyval.splits)

text \<open>C40: A run's message goes to a Redis somebody named, or nowhere. At most one event is written, to the URL of the effective
  settings, and to a loopback host only when the environment or the configuration names a host; the event carries the outcome of the run. The
  answer is true only when the event was written, and no failure of Redis itself is an error: the call raises only when the
  settings cannot be resolved.\<close>

theorem message_to_named_host:
  assumes "publish_flex_executions_system_message eff fmt env redis uuid1 uuid2 clock config ok title msg reason level = (res, events)"
  shows "(events = [] \<or> (\<exists>url ev cfg effective. events = [(url, ev)] \<and> config = Some cfg \<and> eff cfg = Inr effective \<and> fmt effective = Inr url \<and>
        (lower (strip (text_or_empty (dget effective ''host''))) \<in> set LOOPBACK_HOSTS \<longrightarrow>
           env_text env ''REDIS_HOST'' \<noteq> [] \<or> (\<exists>r. dget cfg ''redis'' = PDict r \<and> strip (py_str (dget r ''host'')) \<noteq> [] \<and> dget r ''host'' \<noteq> PNone)) \<and>
        ev_status_to ev = (if ok then ''complete'' else ''failed'') \<and> (level = None \<longrightarrow> ev_level ev = (if ok then ''success'' else ''error'')) \<and>
        ev_title ev = title \<and> ev_message ev = msg \<and> ev_reason ev = reason)) \<and>
    (res = Inr True \<longrightarrow> events \<noteq> []) \<and>
    (isl res \<longleftrightarrow> isl (resolve_message_center_redis_url eff fmt env config))"
proof (cases "resolve_message_center_redis_url eff fmt env config")
  case (Inl e)
  with assms show ?thesis by (auto simp: publish_flex_executions_system_message_def)
next
  case (Inr url_o)
  let ?ev = "build_portfolio_flex_executions_fetch_event uuid1 uuid2 clock ok title msg reason level None"
  from assms Inr consider "res = Inr False" "events = []" | url where "url_o = Some url" "events = [(url, ?ev)]" "\<not> isl res"
    by (cases url_o) (auto simp: publish_flex_executions_system_message_def Let_def split: if_splits sum.splits option.splits)
  then show ?thesis
  proof cases
    case 1
    with Inr show ?thesis by simp
  next
    case 2
    obtain cfg effective where c: "config = Some cfg" "eff cfg = Inr effective" "fmt effective = Inr url"
      "lower (strip (text_or_empty (dget effective ''host''))) \<in> set LOOPBACK_HOSTS \<Longrightarrow> explicit_redis_host env cfg = Inr True"
      using resolve_Some [OF Inr [unfolded 2(1)]] by blast
    have e: "ev_status_to ?ev = (if ok then ''complete'' else ''failed'')" "level = None \<Longrightarrow> ev_level ?ev = (if ok then ''success'' else ''error'')"
      "ev_title ?ev = title" "ev_message ?ev = msg" "ev_reason ?ev = reason"
      by (simp_all add: build_portfolio_flex_executions_fetch_event_def)
    have "isl res \<longleftrightarrow> isl (resolve_message_center_redis_url eff fmt env config)" "events \<noteq> []" using 2 Inr by simp_all
    moreover note explicit_redis_host_True [OF c(4)]
    ultimately show ?thesis using 2(2) c(1-3) e by blast
  qed
qed

theorem message_to_named_host_witness:
  "\<exists>ev. publish_flex_executions_system_message Inr (\<lambda>_. Inr ''redis://localhost:6379/0'') (\<lambda>_. None) (\<lambda>_. \<lparr>ro_connect = None, ro_xadd = Inr (Some ''1-0''), ro_close = None\<rparr>)
       ''a'' ''b'' PNan (Some [(''redis'', PDict [(''host'', PStr ''localhost'')]), (''host'', PStr ''localhost'')]) False ''Flex trades'' ''no report'' None None
     = (Inr True, [(''redis://localhost:6379/0'', ev)]) \<and> ev_status_to ev = ''failed''"
proof -
  let ?cfg = "[(''redis'', PDict [(''host'', PStr ''localhost'')]), (''host'', PStr ''localhost'')]"
  let ?ev = "build_portfolio_flex_executions_fetch_event ''a'' ''b'' PNan False ''Flex trades'' ''no report'' None None None"
  have "resolve_message_center_redis_url Inr (\<lambda>_. Inr ''redis://localhost:6379/0'') (\<lambda>_. None) (Some ?cfg) = Inr (Some ''redis://localhost:6379/0'')"
    by code_simp
  then have p: "publish_flex_executions_system_message Inr (\<lambda>_. Inr ''redis://localhost:6379/0'') (\<lambda>_. None)
       (\<lambda>_. \<lparr>ro_connect = None, ro_xadd = Inr (Some ''1-0''), ro_close = None\<rparr>) ''a'' ''b'' PNan (Some ?cfg) False ''Flex trades'' ''no report'' None None
     = (Inr True, [(''redis://localhost:6379/0'', ?ev)])"
    by (simp add: publish_flex_executions_system_message_def Let_def)
  have "ev_status_to ?ev = ''failed''"
    using message_to_named_host [OF p, THEN conjunct1] by auto
  with p show ?thesis by blast
qed

subsection \<open>Errors before the message\<close>

text \<open>The URL is resolved before the \<open>try\<close>: a \<open>redis\<close> section that is a text (and settings that fall back to a loopback host) raises out of
  the call, although the message is meant to be best effort.\<close>

lemma text_redis_section_raises:
  assumes "eff cfg = Inr effective" "lower (strip (text_or_empty (dget effective ''host''))) \<in> set LOOPBACK_HOSTS"
    "env_text env ''REDIS_HOST'' = []" "dget cfg ''redis'' = PStr s" "s \<noteq> []"
  shows "publish_flex_executions_system_message eff fmt env redis uuid1 uuid2 clock (Some cfg) ok title msg reason level = (Inl (AttributeError ''get''), [])"
proof -
  from assms(4) have "cfg \<noteq> []" by auto
  with assms show ?thesis
    by (simp add: publish_flex_executions_system_message_def resolve_message_center_redis_url_def explicit_redis_host_def py_or_def Let_def)
qed

end
