(* ===== verification/Trades_Fetch.thy ===== *)
theory Trades_Fetch
  imports Notify
begin

text \<open>
  \<^verbatim>\<open>orchestration/trades.py\<close> and \<^verbatim>\<open>orchestration/utils.py\<close>: a trades run from its payload to its result dictionary,
  with the progressive fallback of a query, and the upload of a report. Every outcome is also
  published as a system message; the messages are kept in the order they are sent. A message whose Redis URL
  cannot be resolved raises, in the \<^verbatim>\<open>try\<close> of the run and again in its \<^verbatim>\<open>except\<close>, and so leaves the run as an exception.
\<close>

subsection \<open>The days a list of rows spans\<close>

definition cell_truthy :: "cell \<Rightarrow> bool" where
  "cell_truthy c = (case c of
      CNone \<Rightarrow> False | CStr s \<Rightarrow> s \<noteq> [] | CInt n \<Rightarrow> n \<noteq> 0 | CFloat x \<Rightarrow> \<not> float_is_zero x | CExtra d \<Rightarrow> d \<noteq> [] | _ \<Rightarrow> True)"

definition from_timestamp :: "int option \<Rightarrow> date option" where
  "from_timestamp us = (case us of None \<Rightarrow> None
     | Some u \<Rightarrow> if valid_date (local_date u) then Some (local_date u) else None)"

definition row_day :: "row \<Rightarrow> date option" where
  "row_day r =
     (let d = (case rget r ''time'' of
                 CInt n \<Rightarrow> from_timestamp (float_micros (float_of_int n))
               | CFloat x \<Rightarrow> from_timestamp (float_micros x)
               | CDatetime t \<Rightarrow> Some (local_date t)
               | _ \<Rightarrow> None)
      in if d \<noteq> None then d
         else (case (if cell_truthy (rget r ''trade_date'') then rget r ''trade_date'' else rget r ''report_date'') of
                 CDate td \<Rightarrow> Some td | _ \<Rightarrow> None))"

definition opt_min :: "date option \<Rightarrow> date \<Rightarrow> date option" where
  "opt_min m d = (case m of None \<Rightarrow> Some d | Some x \<Rightarrow> if d < x then Some d else m)"

definition opt_max :: "date option \<Rightarrow> date \<Rightarrow> date option" where
  "opt_max m d = (case m of None \<Rightarrow> Some d | Some x \<Rightarrow> if x < d then Some d else m)"

fun span_of :: "row list \<Rightarrow> date option \<times> date option \<Rightarrow> date option \<times> date option" where
  "span_of [] acc = acc"
| "span_of (r # rs) (lo, hi) = (case row_day r of None \<Rightarrow> span_of rs (lo, hi) | Some d \<Rightarrow> span_of rs (opt_min lo d, opt_max hi d))"

definition rows_span :: "row list \<Rightarrow> string option \<times> string option" where
  "rows_span rows = (case span_of rows (None, None) of (lo, hi) \<Rightarrow> (map_option isoformat lo, map_option isoformat hi))"

subsection \<open>One query, with its fallbacks\<close>

text \<open>The rows, whether a fallback was used, and which.\<close>

type_synonym fetched = "row list \<times> bool \<times> string option"

definition last_resort ::
  "outside \<Rightarrow> query_entry \<Rightarrow> string option \<Rightarrow> wire \<Rightarrow> (py_error + fetched) \<times> wire" where
  "last_resort out e primary w =
     (case fetch_trades (o_parser out) (o_wall out) (o_srv out) (q_token e) (q_id e) None None (Some 5) w of
        (Inr rows, w') \<Rightarrow>
          (if rows \<noteq> [] then Inr (rows, True, Some ''period5_after_empty_or_1003'')
           else (case primary of None \<Rightarrow> Inr ([], False, None) | Some err \<Rightarrow> Inl (ValueError err)), w')
      | (Inl (ValueError msg), w') \<Rightarrow>
          (Inl (ValueError (case primary of None \<Rightarrow> msg
             | Some err \<Rightarrow> err @ ''; fallback query-default/period=5 also failed: '' @ msg)), w')
      | (Inl ex, w') \<Rightarrow> (Inl ex, w'))"

definition query_default ::
  "outside \<Rightarrow> query_entry \<Rightarrow> string option \<Rightarrow> wire \<Rightarrow> (py_error + fetched) \<times> wire" where
  "query_default out e primary w =
     (case fetch_trades (o_parser out) (o_wall out) (o_srv out) (q_token e) (q_id e) None None None w of
        (Inr rows, w') \<Rightarrow>
          if rows \<noteq> [] then (Inr (rows, True, Some (if primary \<noteq> None then ''query_default_after_1003'' else ''query_default_after_empty'')), w')
          else last_resort out e primary w'
      | (Inl (ValueError msg), w') \<Rightarrow> last_resort out e (case primary of None \<Rightarrow> Some msg | Some err \<Rightarrow> Some err) w'
      | (Inl ex, w') \<Rightarrow> (Inl ex, w'))"

definition fetch_trades_with_date_fallback ::
  "outside \<Rightarrow> query_entry \<Rightarrow> string option \<Rightarrow> string option \<Rightarrow> bool \<Rightarrow> wire \<Rightarrow> (py_error + fetched) \<times> wire" where
  "fetch_trades_with_date_fallback out e from_date to_date allow_fallback w =
     (let dated = (the_text from_date \<noteq> [] \<and> the_text to_date \<noteq> []) in
      case fetch_trades (o_parser out) (o_wall out) (o_srv out) (q_token e) (q_id e) from_date to_date None w of
        (Inr rows, w') \<Rightarrow>
          if rows \<noteq> [] \<or> \<not> allow_fallback then (Inr (rows, False, None), w') else query_default out e None w'
      | (Inl (ValueError msg), w') \<Rightarrow>
          if \<not> dated \<or> \<not> statement_unavailable msg \<or> \<not> allow_fallback then (Inl (ValueError msg), w')
          else query_default out e (Some msg) w'
      | (Inl ex, w') \<Rightarrow> (Inl ex, w'))"

subsection \<open>Planning\<close>

record trades_plan =
  tp_entries :: "query_entry list"
  tp_fallback :: bool
  tp_from :: "string option"
  tp_to :: "string option"
  tp_mode :: string
  tp_days :: "int option"

definition NO_TRADES_CREDENTIALS :: string where
  "NO_TRADES_CREDENTIALS =
     ''No Flex credentials for trades: set FLEX_HOST_TOKEN / FLEX_SECONDARY_TOKEN '' @
     ''(K8s Secret bifrost-flex-tokens) and purpose=trades query_id rows '' @
     ''(Settings '' @ arrow @ '' IB Connection '' @ arrow @ '' Flex Query IDs, or Ops Console Flex Plugin).''"

definition trades_entries :: "query_entry list \<Rightarrow> query_entry list" where
  "trades_entries es =
     map (\<lambda>e. e\<lparr>q_role := or_text [strip (q_role e), ''unknown''], q_label := strip_or_none (q_label e)\<rparr>) (usable_entries es)"

text \<open>The plan, or \<open>None\<close> without usable credentials.\<close>

definition plan_trades :: "outside \<Rightarrow> dict \<Rightarrow> golden \<Rightarrow> py_error + trades_plan option" where
  "plan_trades out payload g =
     bind_err (db_call out ''open'' ()) (\<lambda>_.
     bind_err (db_call out ''get_flex_config'' (get_flex_config_for (o_env out) ''trades'' g)) (\<lambda>es.
     let entries = trades_entries es in
     if entries = [] then Inr None
     else
       bind_err (strip_or_empty (dget payload ''from_date'')) (\<lambda>f0.
       bind_err (strip_or_empty (dget payload ''to_date'')) (\<lambda>t0.
       bind_err (if f0 = [] \<and> t0 = [] then
                   bind_err (db_call out ''stats'' (get_flex_executions_stats g)) (\<lambda>stats.
                   bind_err (db_call out ''range_days'' (get_flex_range_days g)) (\<lambda>(default_days, init_days).
                   bind_err (trades_window (st_count stats) (st_max stats) default_days init_days (o_today out)) (\<lambda>(start, stop, mode, n).
                   Inr (Some (strftime_ymd start), Some (strftime_ymd stop), mode, Some n))))
                 else Inr (or_none f0, or_none t0, ''manual'', None)) (\<lambda>(fd, td, mode, n).
       Inr (Some \<lparr>tp_entries = entries, tp_fallback = payload_fallback payload, tp_from = fd, tp_to = td,
             tp_mode = mode, tp_days = n\<rparr>))))))"

subsection \<open>All queries\<close>

record trades_acc =
  ta_rows :: "row list"
  ta_errors :: "string list"
  ta_counts :: "int list"
  ta_queries :: "dict list"

definition query_report :: "query_entry \<Rightarrow> fetched \<Rightarrow> dict" where
  "query_report e f = (case f of (rows, used, kind) \<Rightarrow>
     [(''role'', PStr (q_role e)), (''query_id'', PStr (q_id e)), (''label'', opt_text (q_label e)),
      (''rows'', PInt (int (length rows))), (''data_from'', opt_text (fst (rows_span rows))),
      (''data_to'', opt_text (snd (rows_span rows))), (''used_fallback'', PBool used), (''fallback_kind'', opt_text kind)])"

definition query_error :: "nat \<Rightarrow> nat \<Rightarrow> query_entry \<Rightarrow> string \<Rightarrow> string" where
  "query_error i n e msg =
     ''Flex query '' @ show_nat (i + 1) @ ''/'' @ show_nat n @ '' ('' @ q_role e @ '' '' @ q_id e @ ''): '' @ msg"

fun fetch_queries ::
  "outside \<Rightarrow> trades_plan \<Rightarrow> nat \<Rightarrow> query_entry list \<Rightarrow> trades_acc \<Rightarrow> wire \<Rightarrow> (py_error + trades_acc) \<times> wire" where
  "fetch_queries out p i [] acc w = (Inr acc, w)"
| "fetch_queries out p i (e # es) acc w =
     (case fetch_trades_with_date_fallback out e (tp_from p) (tp_to p) (tp_fallback p) w of
        (Inr f, w') \<Rightarrow> fetch_queries out p (Suc i) es
          (acc\<lparr>ta_rows := ta_rows acc @ fst f, ta_counts := ta_counts acc @ [int (length (fst f))],
               ta_queries := ta_queries acc @ [query_report e f]\<rparr>) w'
      | (Inl (ValueError msg), w') \<Rightarrow> fetch_queries out p (Suc i) es
          (acc\<lparr>ta_counts := ta_counts acc @ [- 1],
               ta_errors := ta_errors acc @ [query_error i (length (tp_entries p)) e msg]\<rparr>) w'
      | (Inl ex, w') \<Rightarrow> (Inl ex, w'))"

definition no_acc :: trades_acc where
  "no_acc = \<lparr>ta_rows = [], ta_errors = [], ta_counts = [], ta_queries = []\<rparr>"

text \<open>The span over the queries, from the printed days.\<close>

definition day_of_text :: "pyval \<Rightarrow> date option" where
  "day_of_text v = (case v of PStr s \<Rightarrow> if s = [] then None else map_option local_date (strptime fmt_iso_day s) | _ \<Rightarrow> None)"

fun queries_span :: "dict list \<Rightarrow> date option \<times> date option \<Rightarrow> date option \<times> date option" where
  "queries_span [] acc = acc"
| "queries_span (q # qs) (lo, hi) =
     queries_span qs
       (if truthy (dget q ''data_from'') \<and> day_of_text (dget q ''data_from'') = None then (lo, hi)
        else (case day_of_text (dget q ''data_from'') of None \<Rightarrow> lo | Some d \<Rightarrow> opt_min lo d,
              case day_of_text (dget q ''data_to'') of None \<Rightarrow> hi | Some d \<Rightarrow> opt_max hi d))"

subsection \<open>Writing and reporting\<close>

text \<open>The URL of a message in the settings of a run.\<close>

definition message_url :: "outside \<Rightarrow> dict \<Rightarrow> py_error + string option" where
  "message_url out config = resolve_message_center_redis_url (o_redis_settings out) (o_redis_url out) (o_env out) (Some config)"

text \<open>A call of \<open>publish_flex_executions_system_message\<close>: it raises when the URL cannot be resolved; otherwise the message is
  out of the run's hands, and what Redis does with it is no concern of the run (\<open>message_to_named_host\<close> of \<open>Notify\<close>).\<close>

definition publish ::
  "outside \<Rightarrow> dict \<Rightarrow> bool \<Rightarrow> string \<Rightarrow> string \<Rightarrow> string option \<Rightarrow> string \<Rightarrow> fetch_world \<Rightarrow> (py_error + unit) \<times> fetch_world" where
  "publish out config ok title msg reason level fw = (case message_url out config of
      Inl e \<Rightarrow> (Inl e, fw)
    | Inr _ \<Rightarrow> (Inr (),
        fw\<lparr>fw_messages := fw_messages fw @ [\<lparr>m_ok = ok, m_title = title, m_text = msg, m_reason = reason, m_level = level\<rparr>]\<rparr>))"

text \<open>\<^verbatim>\<open>publish(...); return d\<close>.\<close>

definition announced :: "dict \<Rightarrow> (py_error + unit) \<times> fetch_world \<Rightarrow> (py_error + dict) \<times> fetch_world" where
  "announced d published = (case published of (Inl e, fw) \<Rightarrow> (Inl e, fw) | (Inr _, fw) \<Rightarrow> (Inr d, fw))"

definition account_text :: "row \<Rightarrow> string" where
  "account_text r = (case rget r ''account_id'' of CStr s \<Rightarrow> strip s | _ \<Rightarrow> [])"

definition updated_accounts :: "row list \<Rightarrow> nat" where
  "updated_accounts rows = length (remdups (filter (\<lambda>a. a \<noteq> []) (map account_text rows)))"

definition window_items :: "trades_plan \<Rightarrow> dict" where
  "window_items p = [(''range_from'', opt_text (tp_from p)), (''range_to'', opt_text (tp_to p))]"

definition per_account_items :: "trades_plan \<Rightarrow> trades_acc \<Rightarrow> dict" where
  "per_account_items p acc =
     [(''by_account'', PInt (int (length (tp_entries p)))), (''by_account_counts'', PList (map PInt (ta_counts acc)))]"

definition host_note :: "trades_plan \<Rightarrow> trades_acc \<Rightarrow> string" where
  "host_note p acc = (case (ta_counts acc, tp_entries p) of
      (c # cs, e # _) \<Rightarrow>
        if c = 0 \<and> (cs = [] \<or> list_ex (\<lambda>n. 0 < n) cs) then
          '' Host (Query ID '' @ q_id e @ '') returned 0 trades; in Settings > IB Connection > Flex ensure the '' @
          ''purpose=trades row uses a Query that includes Activity > Trades and the date range covers your trades.''
        else []
    | _ \<Rightarrow> [])"

definition imported_message ::
  "trades_plan \<Rightarrow> trades_acc \<Rightarrow> string option \<Rightarrow> string option \<Rightarrow> string option \<Rightarrow> string" where
  "imported_message p acc last_day data_from data_to =
     ''Upserted '' @ show_len (ta_rows acc) @ '' execution(s) from '' @ show_len (tp_entries p) @ '' Flex account config '' @
     ''row(s); affected '' @ show_nat (updated_accounts (ta_rows acc)) @ '' account(s).'' @
     (if the_text last_day \<noteq> [] then '' Latest Flex execution date after update: '' @ the_text last_day @ ''.'' else []) @
     (if the_text data_from \<noteq> [] \<and> the_text data_to \<noteq> [] then
        '' Flex data time span: '' @ the_text data_from @ '' .. '' @ the_text data_to @ ''.'' else []) @
     host_note p acc @
     (if ta_errors acc \<noteq> [] then '' Partial errors: '' @ join ''; '' (ta_errors acc) else [])"

text \<open>From the fetched rows to the answer. \<open>Inl\<close> is an exception, with what is stored by then.\<close>

definition report_trades ::
  "outside \<Rightarrow> dict \<Rightarrow> trades_plan \<Rightarrow> trades_acc \<Rightarrow> fetch_world \<Rightarrow> (py_error + dict) \<times> fetch_world" where
  "report_trades out config p acc fw =
     (let errs = ta_errors acc; rows = ta_rows acc; failed = (\<lambda>items msg. failed_run msg @ items) in
      if errs \<noteq> [] \<and> rows = [] then
        announced (failed (per_account_items p acc) (join ''; '' errs))
         (publish out config False ''Flex executions fetch failed'' (join ''; '' errs) (Some (take 500 (join ''; '' errs))) ''error'' fw)
      else if rows = [] then
        announced ([(''ok'', PBool True), (''count'', PInt 0), (''message'', PStr ''No trades in Flex report.''),
               (''errors'', PList (map PStr errs))] @ per_account_items p acc @
              [(''data_from'', PNone), (''data_to'', PNone), (''raw_count'', PInt 0), (''per_query'', PList (map PDict (ta_queries acc))),
               (''range_mode'', PStr (tp_mode p))] @ window_items p)
         (publish out config True ''Flex executions import: no rows'' ''No trades in Flex report.'' None ''warning'' fw)
      else
        let (lo, hi) = queries_span (ta_queries acc) (None, None);
            data_from = map_option isoformat lo; data_to = map_option isoformat hi;
            span_items = [(''data_from'', opt_text data_from), (''data_to'', opt_text data_to)];
            range_items = [(''range_mode'', PStr (tp_mode p)), (''range_days'', opt_int (tp_days p))] @ window_items p
        in case o_write_execs out rows (fw_golden fw) of
             Inl e \<Rightarrow> (Inl e, fw)
           | Inr (False, g') \<Rightarrow>
               announced (failed ([(''raw_count'', PInt (int (length rows)))] @ span_items @ per_account_items p acc @
                       [(''per_query'', PList (map PDict (ta_queries acc)))] @ range_items) ''Failed to write account_executions.'')
                (publish out config False ''Flex executions write failed'' ''Failed to write account_executions.''
                  (Some ''write_account_executions_to_db'') ''error'' (fw\<lparr>fw_golden := g'\<rparr>))
           | Inr (True, g') \<Rightarrow>
               (case db_call out ''stats_after'' (get_flex_executions_stats g') of
                  Inl e \<Rightarrow> (Inl e, fw\<lparr>fw_golden := g'\<rparr>)
                | Inr stats \<Rightarrow>
                    let last_day = map_option isoformat (st_max stats);
                        msg = imported_message p acc last_day data_from data_to
                    in announced ([(''ok'', PBool True), (''count'', PInt (int (length rows))), (''raw_count'', PInt (int (length rows))),
                              (''message'', PStr msg), (''errors'', PList (map PStr errs))] @ per_account_items p acc @
                             [(''per_query'', PList (map PDict (ta_queries acc))),
                              (''updated_accounts'', PInt (int (updated_accounts rows)))] @ range_items @
                             [(''last_flex_date_after'', opt_text last_day)] @ span_items)
                        (publish out config True ''Flex executions imported'' msg None ''success'' (fw\<lparr>fw_golden := g'\<rparr>))))"

definition NO_POSTGRES :: string where
  "NO_POSTGRES = ''PostgreSQL is required to write account_executions.''"

text \<open>The outer \<open>except Exception\<close>: \<open>title\<close> is the run's title for it. Its own message is outside the \<^verbatim>\<open>try\<close>.\<close>

definition caught :: "outside \<Rightarrow> dict \<Rightarrow> string \<Rightarrow> (py_error + dict) \<times> fetch_world \<Rightarrow> (py_error + dict) \<times> fetch_world" where
  "caught out config title res = (case res of
      (Inr d, fw) \<Rightarrow> (Inr d, fw)
    | (Inl e, fw) \<Rightarrow> announced (failed_run (exn_text e))
        (publish out config False title (exn_text e) (Some (take 500 (exn_text e))) ''error'' fw))"

definition fetch_flex_trades_and_upsert_executions ::
  "outside \<Rightarrow> dict \<Rightarrow> dict \<Rightarrow> fetch_world \<Rightarrow> (py_error + dict) \<times> fetch_world" where
  "fetch_flex_trades_and_upsert_executions out config payload fw =
     (if \<not> postgres_ready config then
        announced (failed_run NO_POSTGRES)
         (publish out config False ''Flex executions fetch failed'' NO_POSTGRES (Some ''no control_via_db'') ''error'' fw)
      else caught out config ''Flex executions fetch failed''
        (case plan_trades out payload (fw_golden fw) of
           Inl e \<Rightarrow> (Inl e, fw)
         | Inr None \<Rightarrow>
             announced (failed_run NO_TRADES_CREDENTIALS)
              (publish out config False ''Flex executions fetch failed'' NO_TRADES_CREDENTIALS (Some ''no flex trades credentials'') ''error'' fw)
         | Inr (Some p) \<Rightarrow>
             (case fetch_queries out p 0 (tp_entries p) no_acc (fw_wire fw) of
                (Inl e, w) \<Rightarrow> (Inl e, fw\<lparr>fw_wire := w\<rparr>)
              | (Inr acc, w) \<Rightarrow> report_trades out config p acc (fw\<lparr>fw_wire := w\<rparr>))))"

definition NO_TRADE_ROWS :: string where
  "NO_TRADE_ROWS =
     ''No Trade rows parsed from XML. Ensure this is a Flex Trades report (Activity '' @ arrow @ '' Trades).''"

definition upsert_executions_from_uploaded_flex_xml ::
  "outside \<Rightarrow> dict \<Rightarrow> string \<Rightarrow> fetch_world \<Rightarrow> (py_error + dict) \<times> fetch_world" where
  "upsert_executions_from_uploaded_flex_xml out config raw_xml fw =
     (if \<not> postgres_ready config then
        announced (failed_run NO_POSTGRES)
         (publish out config False ''Flex XML upload failed'' NO_POSTGRES (Some ''no control_via_db'') ''error'' fw)
      else caught out config ''Flex XML upload failed''
        (if strip raw_xml = [] then
           announced (failed_run ''Missing xml field in request body.'')
            (publish out config False ''Flex XML upload failed'' ''Missing xml field in request body.'' (Some ''missing xml'') ''error'' fw)
         else (case parse_trades_xml (o_parser out) (o_wall out) (strip raw_xml) of
             Inl e \<Rightarrow> (Inl e, fw)
           | Inr rows \<Rightarrow>
               if rows = [] then
                 announced (failed_run NO_TRADE_ROWS)
                  (publish out config False ''Flex XML upload: no trades'' NO_TRADE_ROWS (Some ''parse_trades_xml empty'') ''error'' fw)
               else (case o_write_execs out rows (fw_golden fw) of
                   Inl e \<Rightarrow> (Inl e, fw)
                 | Inr (False, g') \<Rightarrow>
                     announced (failed_run ''Failed to write account_executions.'')
                      (publish out config False ''Flex XML write failed'' ''Failed to write account_executions.''
                        (Some ''write_account_executions_to_db'') ''error'' (fw\<lparr>fw_golden := g'\<rparr>))
                 | Inr (True, g') \<Rightarrow>
                     let msg = ''Upserted '' @ show_len rows @ '' execution(s) from uploaded Flex XML for '' @
                           show_nat (updated_accounts rows) @ '' account(s).''
                     in announced [(''ok'', PBool True), (''count'', PInt (int (length rows))),
                              (''updated_accounts'', PInt (int (updated_accounts rows))), (''message'', PStr msg)]
                         (publish out config True ''Flex XML executions imported'' msg None ''success'' (fw\<lparr>fw_golden := g'\<rparr>))))))"

subsection \<open>How many reports a run asks for\<close>

definition sends :: "wire \<Rightarrow> nat" where
  "sends w = length (filter (prefix FLEX_SEND_REQUEST_URL) (sent w))"

lemma get_url_not_send: "\<not> prefix FLEX_SEND_REQUEST_URL (get_statement_url token ref)"
  by (simp add: FLEX_SEND_REQUEST_URL_def get_statement_url_def FLEX_GET_STATEMENT_URL_def)

lemma sends_poll:
  "\<not> prefix FLEX_SEND_REQUEST_URL url \<Longrightarrow> sends (snd (poll_statement parser srv url n le w)) = sends w"
  by (induction n arbitrary: le w) (auto simp: urlopen_def nap_def sends_def split: reply.splits option.splits)

lemma sends_fetch_trades:
  "sends (snd (fetch_trades parser wall srv tok qid fd td period w)) \<le> Suc (sends w)"
proof -
  obtain r w1 where r: "request_report parser srv tok qid fd td period w = (r, w1)" by force
  have "sends w1 \<le> Suc (sends w)"
    using request_report_once [of parser srv tok qid fd td period w] by (auto simp: r sends_def split: sum.splits)
  moreover have "sends (snd (get_statement parser srv tok ref w1)) = sends w1" for ref
    unfolding get_statement_def by (rule sends_poll [OF get_url_not_send])
  then have "sends (snd (fetch_trades parser wall srv tok qid fd td period w)) = sends w1"
    by (cases r) (auto simp: fetch_trades_def r split: prod.splits sum.splits, (metis snd_conv)+)
  ultimately show ?thesis by simp
qed

lemma sends_last_resort: "sends (snd (last_resort out e primary w)) \<le> Suc (sends w)"
  using sends_fetch_trades [of "o_parser out" "o_wall out" "o_srv out" "q_token e" "q_id e" None None "Some 5" w]
  by (auto simp: last_resort_def split: prod.splits sum.splits py_error.splits)

lemma sends_query_default: "sends (snd (query_default out e primary w)) \<le> sends w + 2"
proof -
  obtain r w1 where r: "fetch_trades (o_parser out) (o_wall out) (o_srv out) (q_token e) (q_id e) None None None w = (r, w1)"
    by force
  have w1: "sends w1 \<le> Suc (sends w)"
    using sends_fetch_trades [of "o_parser out" "o_wall out" "o_srv out" "q_token e" "q_id e" None None None w] by (simp add: r)
  have lr: "sends (snd (last_resort out e primary' w1)) \<le> sends w + 2" for primary'
    using sends_last_resort [of out e primary' w1] w1 by linarith
  show ?thesis
  proof (cases r)
    case (Inl ex)
    then show ?thesis using lr w1 by (cases ex) (simp_all add: query_default_def r)
  next
    case (Inr rows)
    then show ?thesis using lr w1 by (simp add: query_default_def r)
  qed
qed

lemma sends_with_fallback:
  "sends (snd (fetch_trades_with_date_fallback out e fd td allow w)) \<le> sends w + (if allow then 3 else 1)"
proof -
  obtain r w1 where r: "fetch_trades (o_parser out) (o_wall out) (o_srv out) (q_token e) (q_id e) fd td None w = (r, w1)"
    by force
  have w1: "sends w1 \<le> Suc (sends w)"
    using sends_fetch_trades [of "o_parser out" "o_wall out" "o_srv out" "q_token e" "q_id e" fd td None w] by (simp add: r)
  have qd: "sends (snd (query_default out e primary w1)) \<le> sends w + 3" for primary
    using sends_query_default [of out e primary w1] w1 by linarith
  show ?thesis
  proof (cases r)
    case (Inl ex)
    then show ?thesis using qd w1 by (cases ex) (simp_all add: fetch_trades_with_date_fallback_def r Let_def)
  next
    case (Inr rows)
    then show ?thesis using qd w1 by (simp add: fetch_trades_with_date_fallback_def r Let_def)
  qed
qed

text \<open>C25: A run never floods the broker. Whatever the broker answers, a run that forbids fallbacks - every scheduled
  run - asks for at most one report per configured query, and a run that allows them for at most three.\<close>

theorem requests_per_run_bounded:
  "sends (snd (fetch_queries out p i es acc w)) \<le> sends w + (if tp_fallback p then 3 else 1) * length es"
proof (induction es arbitrary: i acc w)
  case (Cons e es)
  let ?k = "if tp_fallback p then 3 else (1 :: nat)"
  obtain r w1 where r: "fetch_trades_with_date_fallback out e (tp_from p) (tp_to p) (tp_fallback p) w = (r, w1)" by force
  have w1: "sends w1 \<le> sends w + ?k"
    using sends_with_fallback [of out e "tp_from p" "tp_to p" "tp_fallback p" w] by (simp add: r)
  have next_sends: "sends (snd (fetch_queries out p (Suc i) es acc' w1)) \<le> sends w + ?k * length (e # es)" for acc'
    using Cons.IH [of "Suc i" acc' w1] w1 by (simp split: if_splits)
  have stop_sends: "sends w1 \<le> sends w + ?k * length (e # es)" using w1 by (simp split: if_splits)
  show ?case
  proof (cases r)
    case (Inl ex)
    then show ?thesis using next_sends stop_sends by (cases ex) (simp_all add: r del: list.size)
  next
    case (Inr f)
    then show ?thesis using next_sends by (simp add: r del: list.size)
  qed
qed simp

subsection \<open>Messages\<close>

definition one_message :: "fetch_world \<Rightarrow> dict \<times> fetch_world \<Rightarrow> bool" where
  "one_message fw res \<longleftrightarrow> (\<exists>m. fw_messages (snd res) = fw_messages fw @ [m] \<and>
     dget (fst res) ''ok'' = PBool (m_ok m))"

text \<open>What the body of a run gives to the outer \<open>except\<close>: an answer with its message, or an exception and no message.\<close>

definition answered :: "fetch_world \<Rightarrow> (py_error + dict) \<times> fetch_world \<Rightarrow> bool" where
  "answered fw res \<longleftrightarrow> (case res of
      (Inl e, fw') \<Rightarrow> fw_messages fw' = fw_messages fw
    | (Inr d, fw') \<Rightarrow> one_message fw (d, fw'))"

text \<open>What a run gives its caller: an answer with its message, or - exactly when no message can be sent - the error of the
  message.\<close>

definition announces :: "outside \<Rightarrow> dict \<Rightarrow> fetch_world \<Rightarrow> (py_error + dict) \<times> fetch_world \<Rightarrow> bool" where
  "announces out config fw res \<longleftrightarrow> (case res of
      (Inl e, fw') \<Rightarrow> message_url out config = Inl e \<and> fw_messages fw' = fw_messages fw
    | (Inr d, fw') \<Rightarrow> \<not> isl (message_url out config) \<and> one_message fw (d, fw'))"

lemma announces_publish:
  "fw_messages fw' = fw_messages fw \<Longrightarrow> dget d ''ok'' = PBool ok \<Longrightarrow>
     announces out config fw (announced d (publish out config ok title msg reason level fw'))"
  by (auto simp: announces_def announced_def one_message_def publish_def split: sum.splits)

lemma announces_answered: "announces out config fw res \<Longrightarrow> answered fw res"
  by (auto simp: announces_def answered_def split: sum.splits prod.splits)

lemmas answered_publish = announces_answered [OF announces_publish]

lemma failed_run_ok [simp]: "dget (failed_run msg @ d) ''ok'' = PBool False" "dget (failed_run msg) ''ok'' = PBool False"
  by (simp_all add: failed_run_def)

lemma caught_announces:
  assumes "answered fw res" "\<And>d fw'. res = (Inr d, fw') \<Longrightarrow> \<not> isl (message_url out config)"
  shows "announces out config fw (caught out config title res)"
proof (cases res)
  case (Pair r fw')
  show ?thesis
  proof (cases r)
    case (Inl e)
    with assms(1) Pair show ?thesis by (simp add: caught_def answered_def announces_publish)
  next
    case (Inr d)
    with assms Pair show ?thesis by (auto simp: caught_def answered_def announces_def)
  qed
qed

lemma announced_Inr: "announced d (publish out config ok title msg reason level fw) = (Inr d', fw') \<Longrightarrow> \<not> isl (message_url out config)"
  by (auto simp: announced_def publish_def split: sum.splits)

lemma report_trades_answered:
  assumes "fw_messages fw' = fw_messages fw"
  shows "answered fw (report_trades out config p acc fw')"
    "report_trades out config p acc fw' = (Inr d, fw'') \<Longrightarrow> \<not> isl (message_url out config)"
  using assms
  by (auto simp: report_trades_def Let_def answered_publish answered_def [of _ "(Inl _, _)"] dest: announced_Inr
      split: prod.splits sum.splits bool.splits if_splits)

text \<open>Every trades run and every upload announces its outcome once: whatever happens - refused, failed at any step,
  empty or imported - exactly one system message is sent, and it says the same as the answer. When no message can be
  sent the caller gets no answer but that error.\<close>

lemma one_message_per_run:
  "announces out config fw (fetch_flex_trades_and_upsert_executions out config payload fw) \<and>
   announces out config fw (upsert_executions_from_uploaded_flex_xml out config raw_xml fw)"
proof
  show "announces out config fw (fetch_flex_trades_and_upsert_executions out config payload fw)"
    unfolding fetch_flex_trades_and_upsert_executions_def
    by (auto intro!: caught_announces announces_publish simp: answered_publish report_trades_answered answered_def [of _ "(Inl _, _)"]
        dest: announced_Inr report_trades_answered(2) [rotated] split: sum.splits option.splits prod.splits)
  show "announces out config fw (upsert_executions_from_uploaded_flex_xml out config raw_xml fw)"
    unfolding upsert_executions_from_uploaded_flex_xml_def Let_def
    by (auto intro!: caught_announces announces_publish simp: answered_publish answered_def [of _ "(Inl _, _)"]
        dest: announced_Inr split: sum.splits option.splits prod.splits bool.splits if_splits)
qed

text \<open>So a run that stored its rows still ends in an exception when the URL of its message cannot be resolved, although the
  message is meant to be best effort.\<close>

lemma unresolved_url_loses_answer:
  assumes "message_url out config = Inl e"
  shows "\<exists>fw'. fetch_flex_trades_and_upsert_executions out config payload fw = (Inl e, fw')"
  using one_message_per_run [of out config fw payload, THEN conjunct1] assms
  by (auto simp: announces_def split: prod.splits sum.splits)

end
