(* ===== verification/Ingest_Run.thy ===== *)
theory Ingest_Run
  imports Worker_Loop Trades_Fetch
begin

text \<open>
  The handlers of \<^verbatim>\<open>worker/handlers.py\<close> on the orchestration itself: what a job of either kind does from its payload
  to the outcome the worker sees. The lemmas follow an error of a single query or chunk from the
  client's exception to the category the queue acts on.
\<close>










subsection \<open>Trades\<close>






subsection \<open>Cash transactions\<close>












text \<open>When rows were parsed but none was written, the answer names neither the chunks that failed nor their codes.\<close>

lemma skipped_rows_hide_errors:
  assumes "got \<noteq> []" "o_upsert_cash out got g = Inr ((0, skipped), g')"
  shows "report_cash out p got errs g = report_cash out p got [] g"
    "\<exists>d. report_cash out p got errs g = Inr (d, g') \<and> dget d ''errors'' = PNone"
  using assms by (auto simp: report_cash_def cash_window_def cash_extra_def)

end
