(* ===== verification/Row_Types.thy ===== *)
theory Row_Types
  imports Flex_Reports "HOL-Library.Sublist"
begin

text \<open>
  The types of the rows the two report parsers of \<^verbatim>\<open>client/flex_client.py\<close> hand to the writers: the columns each row has, in order, and
  what a cell of each column may hold.
\<close>

subsection \<open>Column types\<close>

datatype ctype = TText | TWhole | TNumber | TDay | TRest | TOneOf "string list"

fun fits :: "ctype \<Rightarrow> cell \<Rightarrow> bool" where
  "fits TText c = (case c of CStr _ \<Rightarrow> True | _ \<Rightarrow> False)"
| "fits TWhole c = (case c of CInt _ \<Rightarrow> True | _ \<Rightarrow> False)"
| "fits TNumber c = (case c of CFloat _ \<Rightarrow> True | _ \<Rightarrow> False)"
| "fits TDay c = (case c of CDate _ \<Rightarrow> True | _ \<Rightarrow> False)"
| "fits TRest c = (case c of CExtra _ \<Rightarrow> True | _ \<Rightarrow> False)"
| "fits (TOneOf ss) c = (case c of CStr s \<Rightarrow> s \<in> set ss | _ \<Rightarrow> False)"

datatype presence = Always ctype | Maybe ctype | Never

fun holds :: "presence \<Rightarrow> cell \<Rightarrow> bool" where
  "holds (Always t) c = fits t c"
| "holds (Maybe t) c = (c = CNone \<or> fits t c)"
| "holds Never c = (c = CNone)"

type_synonym columns = "(string \<times> presence) list"

text \<open>A row conforms to a list of columns when it has exactly those, in that order, each with a cell of its type.\<close>

definition conforms :: "columns \<Rightarrow> row \<Rightarrow> bool" where
  "conforms cols r \<longleftrightarrow> list_all2 (\<lambda>(k, c) (k', p). k = k' \<and> holds p c) r cols"

definition CASH_REQUIRED :: columns where
  "CASH_REQUIRED = [
    (''account_id'', Always TText), (''ts'', Always TNumber), (''amount'', Always TNumber),
     (''type'', Always (TOneOf [''deposit'', ''withdrawal'', ''transfer'', ''dividend'', ''other''])), (''currency'', Maybe TText),
     (''description'', Maybe TText)]"

definition CASH_OPTIONAL :: columns where
  "CASH_OPTIONAL = [
    (''flex_transaction_id'', Always TText), (''flex_type'', Always TText), (''flex_code'', Always TText),
     (''asset_category'', Always TText), (''asset_subcategory'', Always TText), (''symbol'', Always TText), (''conid'', Maybe TWhole),
     (''security_id'', Always TText), (''security_id_type'', Always TText), (''listing_exchange'', Always TText),
     (''report_date'', Always TText), (''available_for_trading_date'', Always TText), (''fx_rate_to_base'', Maybe TNumber),
     (''raw_extra'', Always TRest)]"

definition TRADE_COLUMNS :: columns where
  "TRADE_COLUMNS = [
    (''account_id'', Always TText), (''time'', Maybe TNumber), (''symbol'', Maybe TText), (''sec_type'', Maybe TText),
     (''side'', Maybe TText), (''quantity'', Maybe TNumber), (''price'', Maybe TNumber), (''source'', Always TText),
     (''exec_id'', Maybe TText), (''expiry'', Maybe TText), (''strike'', Maybe TNumber), (''option_right'', Maybe TText),
     (''exchange'', Maybe TText), (''order_id'', Maybe TWhole), (''cum_qty'', Never), (''contract_key'', Maybe TText),
     (''currency'', Maybe TText), (''asset_category'', Maybe TText), (''sub_category'', Maybe TText), (''description'', Maybe TText),
     (''conid'', Maybe TWhole), (''security_id'', Maybe TText), (''security_id_type'', Maybe TText), (''cusip'', Maybe TText),
     (''isin'', Maybe TText), (''figi'', Maybe TText), (''listing_exchange'', Maybe TText), (''underlying_conid'', Maybe TWhole),
     (''underlying_symbol'', Maybe TText), (''underlying_security_id'', Maybe TText), (''underlying_listing_exchange'', Maybe TText),
     (''issuer'', Maybe TText), (''issuer_country_code'', Maybe TText), (''trade_id'', Maybe TText),
     (''related_trade_id'', Maybe TText), (''report_date'', Maybe TDay), (''trade_date'', Maybe TDay),
     (''settle_date_target'', Maybe TDay), (''transaction_type'', Maybe TText), (''multiplier'', Maybe TNumber),
     (''principal_adjust_factor'', Maybe TText), (''proceeds'', Maybe TNumber), (''taxes'', Maybe TNumber),
     (''net_cash'', Maybe TNumber), (''close_price'', Maybe TNumber), (''open_close_indicator'', Maybe TText),
     (''notes'', Maybe TText), (''cost'', Maybe TNumber), (''fifo_pnl_realized'', Maybe TNumber), (''mtm_pnl'', Maybe TNumber),
     (''trade_money'', Maybe TNumber), (''fx_rate_to_base'', Maybe TNumber), (''acct_alias'', Maybe TText), (''model'', Maybe TText),
     (''commission'', Maybe TNumber), (''currency_commission'', Maybe TText), (''realized_pnl'', Maybe TNumber)]"

definition TRADE_EXTRA :: columns where
  "TRADE_EXTRA = [(''raw_extra'', Always TRest)]"

subsection \<open>Laws\<close>

lemma conforms_append: "conforms cs r \<Longrightarrow> conforms cs' r' \<Longrightarrow> conforms (cs @ cs') (r @ r')"
  by (simp add: conforms_def list_all2_appendI)

lemma conforms_Nil [simp]: "conforms [] []"
  by (simp add: conforms_def)

lemma conforms_one: "holds p c \<Longrightarrow> conforms [(k, p)] [(k, c)]"
  by (simp add: conforms_def)

lemma conforms_keys: "conforms cs r \<Longrightarrow> map fst r = map fst cs"
  unfolding conforms_def by (induction rule: list_all2_induct) auto

lemma conforms_rget:
  assumes "conforms cs r" "map_of cs k = Some p"
  shows "holds p (rget r k)"
  using assms unfolding conforms_def
  by (induction rule: list_all2_induct) (auto simp: rget_def split: if_splits)

lemma conforms_rset:
  assumes "conforms cs r" "map_of cs k = Some p" "holds p v"
  shows "conforms cs (rset r k v)"
  using assms unfolding conforms_def
  by (induction rule: list_all2_induct) (auto split: if_splits)

lemma holds_cells [simp]:
  "holds (Maybe TText) (cstr s)" "holds (Maybe TNumber) (cfloat f)" "holds (Maybe TDay) (cdate d)" "holds (Maybe TWhole) (digits_cell s)"
  "holds (Maybe TText) (contract_key a)"
  by (simp_all add: cstr_def cfloat_def cdate_def digits_cell_def contract_key_def Let_def split: option.split)

lemma trade_columns_conform: "conforms TRADE_COLUMNS (trade_columns t a)"
  unfolding conforms_def TRADE_COLUMNS_def trade_columns_def
  by (simp only: list_all2_Cons list.rel_inject list_all2_Nil prod.case holds_cells simp_thms) (simp split: option.split)

lemma fill_currency_conforms:
  assumes "conforms cs r" "map_of cs ''currency'' = Some (Maybe TText)" "map_of cs ''currency_commission'' = Some (Maybe TText)"
  shows "conforms cs (fill_currency r)"
  unfolding fill_currency_def using assms conforms_rget [OF assms(1)]
  by (auto intro!: conforms_rset)

lemma trade_columns_currencies:
  "map_of (TRADE_COLUMNS @ x) ''currency'' = Some (Maybe TText)" "map_of (TRADE_COLUMNS @ x) ''currency_commission'' = Some (Maybe TText)"
  by (simp_all add: TRADE_COLUMNS_def)

lemma trade_row_conforms: "conforms TRADE_COLUMNS (trade_row t a) \<or> conforms (TRADE_COLUMNS @ TRADE_EXTRA) (trade_row t a)"
proof (cases "raw_extra_of a = []")
  case True
  then have "trade_row t a = fill_currency (trade_columns t a)" by (simp add: trade_row_def)
  with fill_currency_conforms [OF trade_columns_conform] trade_columns_currencies [of "[]"] show ?thesis by simp
next
  case False
  then have "trade_row t a = fill_currency (trade_columns t a @ [(''raw_extra'', CExtra (raw_extra_of a))])" by (simp add: trade_row_def)
  moreover have "conforms (TRADE_COLUMNS @ TRADE_EXTRA) (trade_columns t a @ [(''raw_extra'', CExtra (raw_extra_of a))])"
    unfolding TRADE_EXTRA_def by (rule conforms_append [OF trade_columns_conform conforms_one]) simp
  ultimately show ?thesis using fill_currency_conforms trade_columns_currencies by metis
qed

text \<open>A row whose columns are some of the given ones, in their order.\<close>

definition conforms_some :: "columns \<Rightarrow> row \<Rightarrow> bool" where
  "conforms_some cs r \<longleftrightarrow> (\<exists>ts. subseq ts cs \<and> conforms ts r)"

lemma conforms_some_Nil: "conforms_some [] []"
  by (auto simp: conforms_some_def)

lemma conforms_some_given: "conforms_some cs r \<Longrightarrow> holds p c \<Longrightarrow> conforms_some ((k, p) # cs) (when_given field k c @ r)"
  unfolding conforms_some_def when_given_def
  by (cases "field = []") (auto intro: list_emb.intros conforms_append [OF conforms_one, simplified])

lemma normalize_type_listed: "normalize_type t c a \<in> set [''deposit'', ''withdrawal'', ''transfer'', ''dividend'', ''other'']"
  by (simp add: normalize_type_def Let_def)

lemma cash_row_conforms: "\<exists>ts. subseq ts CASH_OPTIONAL \<and> conforms (CASH_REQUIRED @ ts) (cash_row f ts' raw_extra)"
proof -
  let ?n = "Suc (Suc (Suc (Suc (Suc (Suc 0)))))"
  define opt where "opt = drop ?n (cash_row f ts' raw_extra)"
  define req where "req = take ?n (cash_row f ts' raw_extra)"
  have "holds (Always (TOneOf [''deposit'', ''withdrawal'', ''transfer'', ''dividend'', ''other''])) (CStr (normalize_type (c_type f) (c_code f) (cash_amount f)))"
    using normalize_type_listed by simp
  then have r: "conforms CASH_REQUIRED req"
    unfolding req_def conforms_def CASH_REQUIRED_def cash_row_def by (simp del: holds.simps) simp
  have "conforms_some [(''raw_extra'', Always TRest)] (if raw_extra = [] then [] else [(''raw_extra'', CExtra raw_extra)])"
    using conforms_some_given [OF conforms_some_Nil, of "Always TRest" "CExtra raw_extra" "''raw_extra''" "if raw_extra = [] then [] else ''x''"]
    by (simp add: when_given_def split: if_splits)
  then have "conforms_some CASH_OPTIONAL opt"
    unfolding opt_def cash_row_def CASH_OPTIONAL_def
    by (simp only: append_Cons append_Nil drop_Suc_Cons drop_0)
      (intro conforms_some_given; simp add: cfloat_def split: option.split)
  then obtain ts where "subseq ts CASH_OPTIONAL" "conforms ts opt" by (auto simp: conforms_some_def)
  moreover from conforms_append [OF r this(2)] have "conforms (CASH_REQUIRED @ ts) (cash_row f ts' raw_extra)"
    by (simp only: req_def opt_def append_take_drop_id)
  ultimately show ?thesis by blast
qed

lemma column_names_distinct: "distinct (map fst (CASH_REQUIRED @ CASH_OPTIONAL))" "distinct (map fst (TRADE_COLUMNS @ TRADE_EXTRA))"
  by code_simp+

lemma subseq_keeps_distinct: "subseq xs ys \<Longrightarrow> distinct ys \<Longrightarrow> distinct xs"
  by (induction rule: list_emb.induct) (auto dest: list_emb_set)

lemma collect_rows_mem:
  "collect_rows f es = Inr rs \<Longrightarrow> r \<in> set rs \<Longrightarrow> \<exists>e\<in>set es. f e = Inr (Some r)"
  by (induction es arbitrary: rs) (auto simp: bind_err_eq_Inr split: option.splits)

text \<open>C32: Every parsed row is well typed, whatever the broker sends. A cash row has an account text, a numeric time stamp, a numeric amount and one of the
  five types, each always, and of the optional columns some in their order, each with its type; a trade row has all its
  columns, texts, whole numbers, floats and days each where they belong or empty, and the attributes without a column as
  the last one when there are any. No column occurs twice.\<close>

theorem parsed_rows_well_typed:
  "(\<forall>r\<in>set (parse_cash_transactions_xml parser body).
      \<exists>ts. subseq ts CASH_OPTIONAL \<and> conforms (CASH_REQUIRED @ ts) r \<and> distinct (map fst r)) \<and>
   (\<forall>rs. parse_trades_xml parser wall body = Inr rs \<longrightarrow>
      (\<forall>r\<in>set rs. (conforms TRADE_COLUMNS r \<or> conforms (TRADE_COLUMNS @ TRADE_EXTRA) r) \<and> distinct (map fst r)))"
proof (intro conjI ballI allI impI)
  fix r assume "r \<in> set (parse_cash_transactions_xml parser body)"
  then obtain f t ex where r: "r = cash_row f t ex"
    by (auto simp: parse_cash_transactions_xml_def mem_map_filter parse_cash_elem_def Let_def split: sum.splits if_splits)
  obtain ts where ts: "subseq ts CASH_OPTIONAL" "conforms (CASH_REQUIRED @ ts) r" unfolding r using cash_row_conforms by blast
  have "distinct (map fst (CASH_REQUIRED @ ts))"
    by (rule subseq_keeps_distinct [OF subseq_map column_names_distinct(1)]) (simp add: ts(1) list_emb_append_mono)
  with ts show "\<exists>ts. subseq ts CASH_OPTIONAL \<and> conforms (CASH_REQUIRED @ ts) r \<and> distinct (map fst r)"
    using conforms_keys by metis
next
  fix rs r assume "parse_trades_xml parser wall body = Inr rs" "r \<in> set rs"
  then obtain root where "collect_rows (parse_trade_elem wall (report_account root)) (trade_elems root) = Inr rs"
    by (auto simp: parse_trades_xml_def bind_err_eq_Inr split: sum.splits if_splits)
  from collect_rows_mem [OF this \<open>r \<in> set rs\<close>] obtain t a where r: "r = trade_row t a"
    by (auto simp: parse_trade_elem_def bind_err_eq_Inr Let_def)
  show "conforms TRADE_COLUMNS r \<or> conforms (TRADE_COLUMNS @ TRADE_EXTRA) r" unfolding r by (rule trade_row_conforms)
  then show "distinct (map fst r)" using conforms_keys column_names_distinct(2) by fastforce
qed

theorem parsed_rows_well_typed_witness:
  "\<exists>r. parse_cash_transactions_xml (\<lambda>_. Inr (Elem ''CashTransaction'' [(''accountId'', ''U1''), (''dateTime'', ''20260105''), (''amount'', ''12.5''), (''conid'', ''x'')] None [])) [] = [r] \<and>
     (\<exists>ts. subseq ts CASH_OPTIONAL \<and> conforms (CASH_REQUIRED @ ts) r)"
proof -
  let ?p = "\<lambda>_. Inr (Elem ''CashTransaction'' [(''accountId'', ''U1''), (''dateTime'', ''20260105''), (''amount'', ''12.5''), (''conid'', ''x'')] None [])"
  have "length (parse_cash_transactions_xml ?p []) = 1" by code_simp
  then obtain r where r: "parse_cash_transactions_xml ?p [] = [r]" by (auto simp: length_Suc_conv)
  then show ?thesis using parsed_rows_well_typed [of ?p "[]" "\<lambda>_. 0", THEN conjunct1] by auto
qed

end
