(* ===== verification/Config_Files.thy ===== *)
theory Config_Files
  imports Flex_Config Slot_Scheduler
begin

text \<open>
  Which file a process reads: \<open>default_config_path\<close> and \<open>load_config\<close> of \<^verbatim>\<open>config.py\<close>, \<open>default_schedule_path\<close> and \<open>load_schedule\<close> of
  \<^verbatim>\<open>scheduler/daily.py\<close>. The file system maps the path of a regular file to what the YAML loader makes of it (a document or the loader's error);
  \<open>here\<close> is the directory of the installation.
\<close>

type_synonym files = "string \<Rightarrow> (py_error + pyval) option"

definition is_file :: "files \<Rightarrow> string \<Rightarrow> bool" where
  "is_file fs p = (fs p \<noteq> None)"

definition default_config_path :: "env \<Rightarrow> string \<Rightarrow> files \<Rightarrow> string option" where
  "default_config_path env here fs =
     (let e = env_text env ''FLEX_QUERY_CONFIG'' in
      if e \<noteq> [] then (if is_file fs e then Some e else None)
      else find (is_file fs) [here @ ''/config/flex-query.yaml'', here @ ''/config/flex-query.yaml.example''])"

text \<open>What the loader gave for the file that was found, \<open>PNone\<close> without one.\<close>

definition config_document :: "env \<Rightarrow> string \<Rightarrow> files \<Rightarrow> string option \<Rightarrow> py_error + pyval" where
  "config_document env here fs path =
     (case (case path of Some p \<Rightarrow> Some p | None \<Rightarrow> default_config_path env here fs) of
        None \<Rightarrow> Inr PNone
      | Some p \<Rightarrow> (case fs p of None \<Rightarrow> Inr PNone | Some doc \<Rightarrow> doc))"

definition load_config_file :: "env \<Rightarrow> string \<Rightarrow> files \<Rightarrow> string option \<Rightarrow> py_error + dict" where
  "load_config_file env here fs path = bind_err (config_document env here fs path) (load_config env)"

definition default_schedule_path :: "env \<Rightarrow> string \<Rightarrow> files \<Rightarrow> string option" where
  "default_schedule_path env here fs =
     (let e = env_text env ''SCHEDULE_CONFIG'' in
      if e \<noteq> [] \<and> is_file fs e then Some e
      else find (is_file fs) [''/config/schedule.yaml'', here @ ''/config/schedule.yaml''])"

definition load_schedule :: "env \<Rightarrow> string \<Rightarrow> files \<Rightarrow> string option \<Rightarrow> py_error + dict" where
  "load_schedule env here fs path =
     (let none = [(''scheduler'', PDict [])] in
      case (case path of Some p \<Rightarrow> Some p | None \<Rightarrow> default_schedule_path env here fs) of
        None \<Rightarrow> Inr none
      | Some p \<Rightarrow>
          (case fs p of
             None \<Rightarrow> Inr none
           | Some doc \<Rightarrow> bind_err doc (\<lambda>raw. Inr (case py_or raw (PDict []) of PDict d \<Rightarrow> d | _ \<Rightarrow> none))))"

text \<open>\<open>dict(schedule.get("scheduler") or {})\<close>, as every reader of the schedule takes it.\<close>

definition scheduler_section :: "env \<Rightarrow> string \<Rightarrow> files \<Rightarrow> string option \<Rightarrow> py_error + dict" where
  "scheduler_section env here fs path = bind_err (load_schedule env here fs path) (\<lambda>s. dict_of (dget s ''scheduler''))"

subsection \<open>What a missing file does\<close>

text \<open>A named configuration file that is missing is not replaced by the installed one; only the environment's connection settings are left.\<close>

lemma named_config_not_replaced:
  assumes "env_text env ''FLEX_QUERY_CONFIG'' \<noteq> []" "fs (env_text env ''FLEX_QUERY_CONFIG'') = None"
  shows "load_config_file env here fs None = load_config env PNone"
  using assms by (simp add: load_config_file_def config_document_def default_config_path_def is_file_def Let_def)

text \<open>A named schedule that is missing is silently replaced by the mounted or the installed one.\<close>

lemma named_schedule_replaced:
  assumes "fs (env_text env ''SCHEDULE_CONFIG'') = None" "fs ''/config/schedule.yaml'' = Some (Inr (PDict d))"
  shows "load_schedule env here fs None = Inr d"
proof -
  have "default_schedule_path env here fs = Some ''/config/schedule.yaml''"
    using assms by (simp add: default_schedule_path_def is_file_def Let_def)
  with assms(2) show ?thesis by (cases "d = []") (simp_all add: load_schedule_def py_or_def Let_def)
qed

text \<open>Without a schedule file no slot has a plan, so nothing is ever missed.\<close>

lemma no_schedule_nothing_missed:
  assumes "default_schedule_path env here fs = None" "scheduler_section env here fs None = Inr cfg"
  shows "missed_slots db cfg now grace newest = Inr []"
proof -
  from assms have "cfg = []" by (auto simp: scheduler_section_def load_schedule_def Let_def dict_of_def)
  then have "slot_cron cfg s = Inr []" for s by (simp add: slot_cron_def dict_of_def text_or_empty_def)
  then show ?thesis by (simp add: missed_slots_def SLOT_KIND_def missed_slot_def)
qed

end
