(* ===== verification/Config_Api.thy ===== *)
theory Config_Api
  imports Flex_Config Ingest_Api
begin

text \<open>
  \<^verbatim>\<open>api/config_summary.py\<close>: the configuration summary, which shows no more of a token than its last four characters, and the
  configuration write, which refuses tokens and hands everything else to \<open>write_flex_config\<close>. A request body is a JSON
  object without fractional numbers.
\<close>

subsection \<open>Summary\<close>

definition mask_token_last4 :: "string \<Rightarrow> string option" where
  "mask_token_last4 token = (let s = strip token in if s = [] then None else Some (drop (length s - 4) s))"

text \<open>\<open>_blank_to_none\<close> on a text column.\<close>

definition blank_to_none :: "string option \<Rightarrow> string option" where
  "blank_to_none v = or_none (strip (the_text v))"

record flex_account =
  fa_host :: string
  fa_secondary :: "string option"
  fa_label :: "string option"
  fa_purpose :: string

definition summary_row :: "settings_flex \<Rightarrow> flex_account" where
  "summary_row r =
     \<lparr>fa_host = strip (the_text (query_host_id r)), fa_secondary = blank_to_none (query_secondary_id r),
      fa_label = blank_to_none (sf_label r),
      fa_purpose = (case blank_to_none (sf_purpose r) of None \<Rightarrow> ''cash_transactions'' | Some p \<Rightarrow> p)\<rparr>"

record config_reply =
  cr_host_token_set :: bool
  cr_host_token_last4 :: "string option"
  cr_secondary_token_set :: bool
  cr_secondary_token_last4 :: "string option"
  cr_host_source :: string
  cr_secondary_source :: string
  cr_issued_at :: "string option"
  cr_age_days :: "int option"
  cr_source :: string
  cr_range_days :: "int \<times> int"
  cr_query_rows :: "flex_account list"

text \<open>\<open>settings_fault\<close> is the error of the settings read; a failed read of the query rows (\<open>rows_fault\<close>) shows none.\<close>

definition config_summary :: "env \<Rightarrow> instant \<Rightarrow> py_error option \<Rightarrow> bool \<Rightarrow> golden \<Rightarrow> py_error + config_reply" where
  "config_summary env now settings_fault rows_fault g =
     (case resolve_flex_tokens env of (host_tok, sec_tok, host_src, sec_src) \<Rightarrow>
      case settings_fault of
        Some e \<Rightarrow> Inl (HTTPException 503 (''flex settings unreadable: '' @ exn_text e))
      | None \<Rightarrow>
          let host_last4 = mask_token_last4 host_tok; sec_last4 = mask_token_last4 sec_tok;
              (issued_at, age_days) = flex_tokens_issued_at env now
          in Inr \<lparr>cr_host_token_set = host_last4 \<noteq> None, cr_host_token_last4 = host_last4,
                  cr_secondary_token_set = sec_last4 \<noteq> None, cr_secondary_token_last4 = sec_last4,
                  cr_host_source = host_src, cr_secondary_source = sec_src, cr_issued_at = issued_at, cr_age_days = age_days,
                  cr_source = (if host_src = ''secret'' \<or> sec_src = ''secret'' then ''secret'' else ''none''),
                  cr_range_days = get_flex_range_days g,
                  cr_query_rows = (if rows_fault then [] else map summary_row (ordered_rows (g_queries g)))\<rparr>)"

subsection \<open>Write\<close>

definition optional_days :: "pyval \<Rightarrow> int option" where
  "optional_days v =
     (if v = PNone \<or> v = PStr [] then None
      else (case py_int v of Inr n \<Rightarrow> Some (max 1 n) | Inl _ \<Rightarrow> None))"

definition normalize_account :: "pyval \<Rightarrow> flex_account option" where
  "normalize_account a = (case a of
      PDict d \<Rightarrow>
        let qh = strip (text_or_empty (dget d ''query_host_id'')) in
        if qh = [] then None
        else Some \<lparr>fa_host = qh, fa_secondary = or_none (strip (text_or_empty (dget d ''query_secondary_id''))),
                   fa_label = or_none (strip (text_or_empty (dget d ''query_label''))),
                   fa_purpose = (let p = strip (py_str (py_or (dget d ''purpose'') (PStr ''cash_transactions'')))
                                 in if p = [] then ''cash_transactions'' else p)\<rparr>
    | _ \<Rightarrow> None)"

definition normalize_flex_accounts :: "pyval \<Rightarrow> py_error + flex_account list" where
  "normalize_flex_accounts raw =
     bind_err (py_iter (py_or raw (PList []))) (\<lambda>as. Inr (List.map_filter normalize_account as))"

definition account_dict :: "flex_account \<Rightarrow> dict" where
  "account_dict a = [(''query_host_id'', PStr (fa_host a)), (''query_secondary_id'', opt_text (fa_secondary a)),
     (''query_label'', opt_text (fa_label a)), (''purpose'', PStr (fa_purpose a))]"

definition TOKEN_FIELDS :: "string list" where
  "TOKEN_FIELDS = [''host_token'', ''secondary_token'']"

definition RANGE_FIELDS :: "string list" where
  "RANGE_FIELDS = [''flex_default_range_days'', ''flex_init_range_days'']"

definition WRITE_FIELDS :: "string list" where
  "WRITE_FIELDS = ''accounts'' # RANGE_FIELDS"

definition TOKENS_NOT_STORED :: string where
  "TOKENS_NOT_STORED = ''Flex tokens are not stored by this endpoint. '' @
     ''Set them in the K8s Secret bifrost-flex-tokens (make sync-flex-tokens).''"

record write_reply =
  wr_accounts :: "flex_account list option"
  wr_default_days :: "int option"
  wr_init_days :: "int option"

text \<open>The accounts of a request, \<open>None\<close> when it names none.\<close>

definition requested_accounts :: "dict \<Rightarrow> py_error + flex_account list option" where
  "requested_accounts payload =
     (if dhas payload ''accounts'' then
        bind_err (normalize_flex_accounts (dget payload ''accounts'')) (\<lambda>as.
        if as = [] then Inl (HTTPException 400 ''accounts must include at least one query_host_id'') else Inr (Some as))
      else Inr None)"

text \<open>The body of the handler; \<open>raw\<close> is what the YAML loader gave. The stored configuration is returned with the answer.\<close>

definition write_flex_config_endpoint ::
  "(nat \<Rightarrow> bool) \<Rightarrow> env \<Rightarrow> pyval \<Rightarrow> dict option \<Rightarrow> golden \<Rightarrow> (py_error + write_reply) \<times> golden" where
  "write_flex_config_endpoint fault env raw body g =
     (let payload = (case body of None \<Rightarrow> [] | Some b \<Rightarrow> b) in
      if list_ex (dhas payload) TOKEN_FIELDS then (Inl (HTTPException 409 TOKENS_NOT_STORED), g)
      else if \<not> list_ex (dhas payload) WRITE_FIELDS then (Inl (HTTPException 400 ''empty flex config write''), g)
      else
        case requested_accounts payload of
          Inl e \<Rightarrow> (Inl e, g)
        | Inr accounts \<Rightarrow>
            let default_days = optional_days (dget payload ''flex_default_range_days'');
                init_days = optional_days (dget payload ''flex_init_range_days'')
            in case bind_err (load_config env raw) (\<lambda>cfg. bind_err (core_config env cfg) (\<lambda>core.
                 write_flex_config fault core (map_option (map (PDict \<circ> account_dict)) accounts) default_days init_days g)) of
                 Inl e \<Rightarrow> (Inl e, g)
               | Inr (False, g') \<Rightarrow> (Inl (HTTPException 500 ''failed to write flex config''), g')
               | Inr (True, g') \<Rightarrow> (Inr \<lparr>wr_accounts = accounts, wr_default_days = default_days, wr_init_days = init_days\<rparr>, g'))"

text \<open>The route with its dependency: no identity, no write.\<close>

definition config_write_route ::
  "string \<Rightarrow> string option \<Rightarrow> string option \<Rightarrow> string option \<Rightarrow> (nat \<Rightarrow> bool) \<Rightarrow> env \<Rightarrow> pyval \<Rightarrow> dict option \<Rightarrow> golden
     \<Rightarrow> (py_error + write_reply) \<times> golden" where
  "config_write_route expected x_token authorization gateway fault env raw body g =
     (case require_config_write_identity expected x_token authorization gateway of
        Inl e \<Rightarrow> (Inl e, g)
      | Inr _ \<Rightarrow> write_flex_config_endpoint fault env raw body g)"

subsection \<open>Tokens stay hidden\<close>

lemma masks_agree:
  assumes "s = s' \<or> (\<exists>a b e. length e = 4 \<and> s = a @ e \<and> s' = b @ e)" "strip s = s" "strip s' = s'"
  shows "mask_token_last4 s = mask_token_last4 s'" "s = [] \<longleftrightarrow> s' = []"
  using assms by (auto simp: mask_token_last4_def Let_def)

text \<open>C34: The summary gives no token away. Two clusters whose tokens - host and secondary, without surrounding blanks - are the same or
  end in the same four characters, and which agree on everything else the summary reads, get the same answer: it depends on nothing before those four
  characters, not even on how long the token is. (Of a token of four characters or fewer the last four are all of it: \<open>short_token_shown\<close>.)\<close>

theorem summary_hides_tokens:
  assumes "\<And>t. t \<in> set [''FLEX_HOST_TOKEN'', ''FLEX_SECONDARY_TOKEN''] \<Longrightarrow>
      strip (the_text (env t)) = strip (the_text (env' t)) \<or>
      (\<exists>a b e. length e = 4 \<and> strip (the_text (env t)) = a @ e \<and> strip (the_text (env' t)) = b @ e)"
    and "env ''FLEX_TOKENS_ISSUED_AT'' = env' ''FLEX_TOKENS_ISSUED_AT''"
  shows "config_summary env now sf rf g = config_summary env' now sf rf g"
proof -
  have m: "mask_token_last4 (env_text env t) = mask_token_last4 (env_text env' t)" "env_text env t = [] \<longleftrightarrow> env_text env' t = []"
    if "t \<in> set [''FLEX_HOST_TOKEN'', ''FLEX_SECONDARY_TOKEN'']" for t
    using masks_agree [OF assms(1) [OF that]] by (simp_all add: env_text_def)
  have "flex_tokens_issued_at env now = flex_tokens_issued_at env' now"
    using assms(2) by (simp add: flex_tokens_issued_at_def env_text_def)
  then show ?thesis
    using m [of "''FLEX_HOST_TOKEN''"] m [of "''FLEX_SECONDARY_TOKEN''"]
    by (simp add: config_summary_def resolve_flex_tokens_def Let_def split: option.splits)
qed

definition sample_store :: golden where
  "sample_store = \<lparr>g_settings = Some (3, 30), g_queries = [], g_next_id = 1, g_execs = [], g_cash = []\<rparr>"

theorem summary_hides_tokens_witness:
  "config_summary (\<lambda>k. if k = ''FLEX_HOST_TOKEN'' then Some ''52718890'' else None) 0 None False sample_store =
   config_summary (\<lambda>k. if k = ''FLEX_HOST_TOKEN'' then Some ''aaaaaaaa8890 '' else None) 0 None False sample_store"
proof -
  have t: "strip ''52718890'' = ''5271'' @ ''8890''" "strip ''aaaaaaaa8890 '' = ''aaaaaaaa'' @ ''8890''" by code_simp+
  have e: "\<exists>a b e. length e = 4 \<and> ''52718890'' = a @ e \<and> ''aaaaaaaa8890'' = b @ e"
    by (rule exI [of _ "''5271''"], rule exI [of _ "''aaaaaaaa''"], rule exI [of _ "''8890''"]) simp
  show ?thesis
  proof (rule summary_hides_tokens)
    fix k assume "k \<in> set [''FLEX_HOST_TOKEN'', ''FLEX_SECONDARY_TOKEN'']"
    then show "strip (the_text (if k = ''FLEX_HOST_TOKEN'' then Some ''52718890'' else None)) =
        strip (the_text (if k = ''FLEX_HOST_TOKEN'' then Some ''aaaaaaaa8890 '' else None)) \<or>
      (\<exists>a b e. length e = 4 \<and> strip (the_text (if k = ''FLEX_HOST_TOKEN'' then Some ''52718890'' else None)) = a @ e \<and>
         strip (the_text (if k = ''FLEX_HOST_TOKEN'' then Some ''aaaaaaaa8890 '' else None)) = b @ e)"
      using t e by simp
  qed simp
qed

text \<open>Of a token of four characters or fewer the last four are all of it.\<close>

lemma short_token_shown: "strip t \<noteq> [] \<Longrightarrow> length (strip t) \<le> 4 \<Longrightarrow> mask_token_last4 t = Some (strip t)"
  by (simp add: mask_token_last4_def Let_def)

subsection \<open>A write is shown\<close>

definition account_ok :: "flex_account \<Rightarrow> bool" where
  "account_ok a \<longleftrightarrow>
     fa_host a \<noteq> [] \<and> strip (fa_host a) = fa_host a \<and> fa_purpose a \<noteq> [] \<and> strip (fa_purpose a) = fa_purpose a \<and>
     (\<forall>s. fa_secondary a = Some s \<longrightarrow> s \<noteq> [] \<and> strip s = s) \<and> (\<forall>s. fa_label a = Some s \<longrightarrow> s \<noteq> [] \<and> strip s = s)"

lemma cash_purpose_strip: "strip ''cash_transactions'' = ''cash_transactions''"
  by code_simp

lemma normalize_account_ok: "normalize_account a = Some x \<Longrightarrow> account_ok x"
  by (auto simp: normalize_account_def account_ok_def Let_def cash_purpose_strip split: pyval.splits if_splits)

lemma account_dict_simps [simp]:
  "dget (account_dict a) ''query_host_id'' = PStr (fa_host a)" "dget (account_dict a) ''query_secondary_id'' = opt_text (fa_secondary a)"
  "dget (account_dict a) ''query_label'' = opt_text (fa_label a)" "dget (account_dict a) ''purpose'' = PStr (fa_purpose a)"
  by (simp_all add: account_dict_def dget_def)

lemma valid_account_dicts: "list_all account_ok as \<Longrightarrow> valid_accounts (map (PDict \<circ> account_dict) as) = Inr (map account_dict as)"
  by (induction as) (simp_all add: strip_or_empty_def account_ok_def)

lemma shown_account:
  assumes "account_ok a" "insert_of i (account_dict a) = Inr s"
  shows "summary_row (row_of rid s) = a"
proof -
  have "strip_or_empty (opt_text v) = Inr (the_text v)" if "\<forall>s. v = Some s \<longrightarrow> s \<noteq> [] \<and> strip s = s" for v
    using that by (cases v) (simp_all add: strip_or_empty_def opt_text_def)
  with assms(1) have "text_field (account_dict a) ''query_host_id'' = fa_host a" "text_field (account_dict a) ''query_secondary_id'' = the_text (fa_secondary a)"
    "text_field (account_dict a) ''query_label'' = the_text (fa_label a)" "account_purpose (account_dict a) = fa_purpose a"
    by (simp_all add: text_field_def account_purpose_def account_ok_def) (simp_all add: strip_or_empty_def)
  moreover have "blank_to_none (or_none (the_text v)) = v" if "\<forall>s. v = Some s \<longrightarrow> s \<noteq> [] \<and> strip s = s" for v
    using that by (cases v) (auto simp: blank_to_none_def or_none_def)
  ultimately show ?thesis
    using assms(1) insert_of_fields(1) [OF assms(2)]
    by (cases a) (simp add: summary_row_def account_ok_def blank_to_none_def or_none_def)
qed

lemma shown_accounts:
  "list_all account_ok as \<Longrightarrow> inserts_of i (map account_dict as) = Inr ss \<Longrightarrow> map summary_row (numbered rid ss) = as"
proof (induction as arbitrary: i ss rid)
  case (Cons a as)
  then obtain s ss' where s: "insert_of i (account_dict a) = Inr s" "inserts_of (Suc i) (map account_dict as) = Inr ss'" "ss = s # ss'"
    by (auto simp: bind_err_eq_Inr)
  with Cons show ?case by (simp add: shown_account)
qed simp

lemma requested_accounts_ok: "requested_accounts payload = Inr (Some as) \<Longrightarrow> list_all account_ok as"
  by (auto simp: requested_accounts_def normalize_flex_accounts_def bind_err_eq_Inr list_all_iff mem_map_filter
      intro: normalize_account_ok split: if_splits)

text \<open>What an accepted write went through: the guards of the handler and the writer's own success.\<close>

lemma endpoint_accepted:
  assumes "write_flex_config_endpoint fault env raw body g = (Inr reply, g')"
  obtains core payload where "payload = (case body of None \<Rightarrow> [] | Some b \<Rightarrow> b)" "\<not> list_ex (dhas payload) TOKEN_FIELDS"
    "requested_accounts payload = Inr (wr_accounts reply)"
    "wr_default_days reply = optional_days (dget payload ''flex_default_range_days'')"
    "wr_init_days reply = optional_days (dget payload ''flex_init_range_days'')"
    "write_flex_config fault core (map_option (map (PDict \<circ> account_dict)) (wr_accounts reply)) (wr_default_days reply)
       (wr_init_days reply) g = Inr (True, g')"
  using assms unfolding write_flex_config_endpoint_def Let_def
  by (auto simp: bind_err_eq_Inr split: if_splits sum.splits prod.splits bool.splits)

lemma endpoint_refused:
  assumes "write_flex_config_endpoint fault env raw body g = (Inl e, g')"
  shows "g' = g"
  using assms unfolding write_flex_config_endpoint_def Let_def
  by (auto simp: bind_err_eq_Inr split: if_splits sum.splits prod.splits bool.splits dest: write_flex_config_effect)

lemma optional_days_at_least_1: "map_option (max 1) (optional_days v) = optional_days v"
  by (simp add: optional_days_def split: sum.splits)

lemma summary_after_write:
  assumes "write_flex_config_endpoint fault env raw body g = (Inr reply, g')"
  shows "map summary_row (ordered_rows (g_queries g')) =
      (case wr_accounts reply of None \<Rightarrow> map summary_row (ordered_rows (g_queries g)) | Some as \<Rightarrow> as) \<and>
    get_flex_range_days g' = (coalesce (wr_default_days reply) (fst (get_flex_range_days g)),
                              coalesce (wr_init_days reply) (snd (get_flex_range_days g))) \<and>
    g_execs g' = g_execs g \<and> g_cash g' = g_cash g"
proof -
  obtain core payload where p: "requested_accounts payload = Inr (wr_accounts reply)"
      "wr_default_days reply = optional_days (dget payload ''flex_default_range_days'')"
      "wr_init_days reply = optional_days (dget payload ''flex_init_range_days'')"
    and w: "write_flex_config fault core (map_option (map (PDict \<circ> account_dict)) (wr_accounts reply)) (wr_default_days reply)
       (wr_init_days reply) g = Inr (True, g')"
    by (rule endpoint_accepted [OF assms])
  note effect = write_flex_config_effect [OF w]
  have "map summary_row (ordered_rows (g_queries g')) = as" if as: "wr_accounts reply = Some as" for as
  proof -
    from as p(1) have ok: "list_all account_ok as" by (simp add: requested_accounts_ok)
    from w as have w': "write_flex_config fault core (Some (map (PDict \<circ> account_dict) as)) (wr_default_days reply)
        (wr_init_days reply) g = Inr (True, g')" by simp
    obtain valid ss rid where v: "valid_accounts (map (PDict \<circ> account_dict) as) = Inr valid" "inserts_of 0 valid = Inr ss"
      "g_queries g' = numbered rid ss" "\<And>P. ordered_rows (filter P (numbered rid ss)) = filter P (numbered rid ss)"
      by (rule written_rows [OF w']) blast
    with ok v(4) [of "\<lambda>_. True"] show ?thesis by (simp add: valid_account_dicts shown_accounts)
  qed
  with effect p(2,3) show ?thesis by (simp add: optional_days_at_least_1 split: option.splits)
qed

text \<open>C33: A configuration write is all shown or all refused. An answer with an error (no identity, a token field, nothing to
  write, no usable account, an unreadable configuration, a failed statement) leaves the stored configuration as it was. An accepted
  write had an identity and named no token; the summary then shows exactly the accounts of the answer (the earlier rows when the
  request named none) and the answer's range days, each at least one, the earlier value standing where the request had none;
  ledger rows are untouched.\<close>

theorem config_write_shown_or_refused:
  assumes "config_write_route expected x_token authorization gateway fault env raw body g = (res, g')"
  shows "case res of
      Inl e \<Rightarrow> g' = g
    | Inr reply \<Rightarrow>
        require_config_write_identity expected x_token authorization gateway = Inr () \<and>
        \<not> list_ex (dhas (case body of None \<Rightarrow> [] | Some b \<Rightarrow> b)) TOKEN_FIELDS \<and> wr_accounts reply \<noteq> Some [] \<and>
        (\<exists>r. config_summary env' now None False g' = Inr r \<and>
           cr_query_rows r = (case wr_accounts reply of None \<Rightarrow> map summary_row (ordered_rows (g_queries g)) | Some as \<Rightarrow> as) \<and>
           cr_range_days r = (coalesce (wr_default_days reply) (fst (get_flex_range_days g)),
                              coalesce (wr_init_days reply) (snd (get_flex_range_days g)))) \<and>
        g_execs g' = g_execs g \<and> g_cash g' = g_cash g"
proof (cases "require_config_write_identity expected x_token authorization gateway")
  case (Inl e)
  with assms show ?thesis by (auto simp: config_write_route_def)
next
  case (Inr u)
  with assms have w: "write_flex_config_endpoint fault env raw body g = (res, g')" by (simp add: config_write_route_def)
  show ?thesis
  proof (cases res)
    case (Inl e)
    with w endpoint_refused show ?thesis by auto
  next
    case (Inr reply)
    with w have w': "write_flex_config_endpoint fault env raw body g = (Inr reply, g')" by simp
    obtain core payload where p: "payload = (case body of None \<Rightarrow> [] | Some b \<Rightarrow> b)" "\<not> list_ex (dhas payload) TOKEN_FIELDS"
      "requested_accounts payload = Inr (wr_accounts reply)"
      by (rule endpoint_accepted [OF w'])
    have "wr_accounts reply \<noteq> Some []"
      using p(3) by (auto simp: requested_accounts_def bind_err_eq_Inr split: if_splits)
    moreover obtain a b c d where "resolve_flex_tokens env' = (a, b, c, d)" by (metis prod_cases4)
    moreover obtain issued age where "flex_tokens_issued_at env' now = (issued, age)" by fastforce
    ultimately show ?thesis
      using \<open>require_config_write_identity expected x_token authorization gateway = Inr u\<close> Inr p(1,2) summary_after_write [OF w']
      by (simp add: config_summary_def Let_def)
  qed
qed

definition sample_write :: dict where
  "sample_write = [(''flex_init_range_days'', PInt 0),
     (''accounts'', PList [PNone, PDict [(''query_host_id'', PStr '' 11 ''), (''purpose'', PStr ''trades'')], PDict [(''query_label'', PStr ''x'')]])]"

theorem config_write_shown_or_refused_witness:
  "\<exists>reply g' r. config_write_route [] None None (Some ''1'') (\<lambda>_. False) (\<lambda>_. None) PNone (Some sample_write) sample_store = (Inr reply, g') \<and>
    config_summary (\<lambda>_. None) 0 None False g' = Inr r \<and>
    cr_query_rows r = [\<lparr>fa_host = ''11'', fa_secondary = None, fa_label = None, fa_purpose = ''trades''\<rparr>] \<and> cr_range_days r = (3, 1)"
proof -
  let ?w = "config_write_route [] None None (Some ''1'') (\<lambda>_. False) (\<lambda>_. None) PNone (Some sample_write) sample_store"
  have e: "fst ?w = Inr \<lparr>wr_accounts = Some [\<lparr>fa_host = ''11'', fa_secondary = None, fa_label = None, fa_purpose = ''trades''\<rparr>],
      wr_default_days = None, wr_init_days = Some 1\<rparr>"
    by code_simp
  have d: "get_flex_range_days sample_store = (3, 30)"
    by code_simp
  from e obtain g' where w: "?w = (Inr \<lparr>wr_accounts = Some [\<lparr>fa_host = ''11'', fa_secondary = None, fa_label = None, fa_purpose = ''trades''\<rparr>],
      wr_default_days = None, wr_init_days = Some 1\<rparr>, g')"
    by (metis prod.collapse)
  show ?thesis
    using config_write_shown_or_refused [OF w, of "\<lambda>_. None" "0"] w by (simp add: d coalesce_def)
qed

end
