(* ===== verification/Ledger_Coverage.thy ===== *)
theory Ledger_Coverage
  imports Flex_Config "HOL-Library.Product_Lexorder"
begin

text \<open>
  \<^verbatim>\<open>ops/coverage.py\<close>: the months in which an account traded and no cash row landed. The statement
  \<open>COVERAGE_SQL\<close> is read over the stored executions and cash rows of Golden Source; a month is the date
  of its first day, as \<open>date_trunc\<close> gives it. Text is ordered by code point.
\<close>

subsection \<open>The coverage query\<close>

definition month_start :: "date \<Rightarrow> date" where
  "month_start d = (case ord2ymd d of (_, _, day) \<Rightarrow> d - day + 1)"

text \<open>\<open>month.strftime("%Y-%m")\<close>.\<close>

definition month_label :: "date \<Rightarrow> string" where
  "month_label d = (case ord2ymd d of (y, m, _) \<Rightarrow> show_nat (nat y) @ ''-'' @ pad 2 (nat m))"

text \<open>The sub-query \<open>e\<close> before its grouping: one entry for every execution of a closed month.\<close>

definition closed_month :: "instant \<Rightarrow> execution \<Rightarrow> (date \<times> string) option" where
  "closed_month now x = (case (x_account x, x_trade_date x) of
      (Some a, Some d) \<Rightarrow> if d < month_start (local_date now) then Some (month_start d, a) else None
    | _ \<Rightarrow> None)"

definition traded_months :: "instant \<Rightarrow> golden \<Rightarrow> (date \<times> string) list" where
  "traded_months now g = List.map_filter (closed_month now) (g_execs g)"

text \<open>The sub-query \<open>t\<close>. A null account or stamp joins with nothing.\<close>

definition cash_months :: "golden \<Rightarrow> (date \<times> string) list" where
  "cash_months g = List.map_filter (\<lambda>(acct, ts). case (acct, ts) of
      (Some a, Some t) \<Rightarrow> Some (month_start (local_date t), a) | _ \<Rightarrow> None) (g_cash g)"

record coverage_row =
  cr_account :: string
  cr_month :: date
  cr_executions :: int
  cr_gap :: bool

definition COVERAGE_SQL :: "instant \<Rightarrow> golden \<Rightarrow> coverage_row list" where
  "COVERAGE_SQL now g =
     (let e = traded_months now g; t = cash_months g in
      map (\<lambda>(m, a). \<lparr>cr_account = a, cr_month = m, cr_executions = int (count_list e (m, a)), cr_gap = (m, a) \<notin> set t\<rparr>)
        (sort (remdups e)))"

record gap =
  gap_account :: string
  gap_month :: string
  gap_executions :: int

record coverage =
  cov_accounts :: "string list"
  cov_gaps :: "gap list"

definition read_coverage :: "instant \<Rightarrow> golden \<Rightarrow> coverage" where
  "read_coverage now g =
     (let rs = COVERAGE_SQL now g in
      \<lparr>cov_accounts = sort (remdups (map cr_account rs)),
       cov_gaps = map (\<lambda>r. \<lparr>gap_account = cr_account r, gap_month = month_label (cr_month r), gap_executions = cr_executions r\<rparr>)
         (filter cr_gap rs)\<rparr>)"

text \<open>\<open>out[a] = out.get(a, 0) + 1\<close>.\<close>

fun bump :: "string \<Rightarrow> (string \<times> int) list \<Rightarrow> (string \<times> int) list" where
  "bump a [] = [(a, 1)]"
| "bump a ((k, n) # d) = (if k = a then (k, n + 1) # d else (k, n) # bump a d)"

definition gap_months_by_account :: "coverage \<Rightarrow> (string \<times> int) list" where
  "gap_months_by_account cov =
     foldl (\<lambda>d g. bump (gap_account g) d) (map (\<lambda>a. (a, 0)) (remdups (cov_accounts cov))) (cov_gaps cov)"

record check_item =
  ck_id :: string
  ck_ok :: bool
  ck_detail :: string
  ck_gaps :: "gap list option"

text \<open>\<open>sorted(by_acct.items())\<close>, the months of an account in the order of the gaps.\<close>

definition months_by_account :: "gap list \<Rightarrow> (string \<times> string list) list" where
  "months_by_account gaps =
     map (\<lambda>a. (a, map gap_month (filter (\<lambda>g. gap_account g = a) gaps))) (sort (remdups (map gap_account gaps)))"

definition coverage_check :: "coverage option \<Rightarrow> string option \<Rightarrow> check_item" where
  "coverage_check cov error =
     (let item = (\<lambda>ok d gs. \<lparr>ck_id = ''coverage'', ck_ok = ok, ck_detail = d, ck_gaps = gs\<rparr>);
          gaps = (case cov of None \<Rightarrow> [] | Some c \<Rightarrow> cov_gaps c);
          accounts = (case cov of None \<Rightarrow> [] | Some c \<Rightarrow> cov_accounts c)
      in if the_text error \<noteq> [] then item False (''Cash-ledger coverage unreadable: '' @ the_text error) None
         else if gaps = [] then
           item True (''Cash transactions present in every closed month with executions ('' @
             show_nat (length accounts) @ '' account(s)).'') None
         else
           item False (show_nat (length gaps) @ '' account-month(s) have executions but no cash transactions '' @ em_dash @ '' '' @
             join ''; '' (map (\<lambda>(a, ms). a @ '': '' @ join '', '' ms) (months_by_account gaps)) @
             ''. Backfill with a flex-transactions job whose payload sets from_date/to_date.'') (Some gaps))"

subsection \<open>What the query finds\<close>

lemma closed_month_eq:
  "closed_month now x = Some (m, a) \<longleftrightarrow>
     x_account x = Some a \<and> (\<exists>d. x_trade_date x = Some d \<and> d < month_start (local_date now) \<and> month_start d = m)"
  by (auto simp: closed_month_def split: option.splits)

lemma mem_traded_months:
  "(m, a) \<in> set (traded_months now g) \<longleftrightarrow>
     (\<exists>x\<in>set (g_execs g). x_account x = Some a \<and>
        (\<exists>d. x_trade_date x = Some d \<and> d < month_start (local_date now) \<and> month_start d = m))"
  unfolding traded_months_def mem_map_filter by (simp add: closed_month_eq)

lemma mem_cash_months:
  "(m, a) \<in> set (cash_months g) \<longleftrightarrow> (\<exists>t. (Some a, Some t) \<in> set (g_cash g) \<and> month_start (local_date t) = m)"
proof -
  have "(case p of (acct, ts) \<Rightarrow> case (acct, ts) of (Some a, Some t) \<Rightarrow> Some (month_start (local_date t), a) | _ \<Rightarrow> None) = Some (m, a)
      \<longleftrightarrow> (\<exists>t. p = (Some a, Some t) \<and> month_start (local_date t) = m)" for p :: "string option \<times> instant option"
    by (cases p) (auto split: option.splits)
  then show ?thesis unfolding cash_months_def mem_map_filter by (simp only: Bex_def) auto
qed

lemma count_traded_months:
  "count_list (traded_months now g) p = length (filter (\<lambda>x. closed_month now x = Some p) (g_execs g))"
proof -
  have "count_list (List.map_filter f xs) p = length (filter (\<lambda>x. f x = Some p) xs)" for f :: "execution \<Rightarrow> (date \<times> string) option" and xs
    by (induction xs) (auto simp: List.map_filter_def)
  then show ?thesis by (simp add: traded_months_def)
qed

definition gap_pairs :: "instant \<Rightarrow> golden \<Rightarrow> (date \<times> string) list" where
  "gap_pairs now g = filter (\<lambda>p. p \<notin> set (cash_months g)) (sort (remdups (traded_months now g)))"

lemma coverage_gaps_eq:
  "cov_gaps (read_coverage now g) =
     map (\<lambda>(m, a). \<lparr>gap_account = a, gap_month = month_label m,
                    gap_executions = int (length (filter (\<lambda>x. closed_month now x = Some (m, a)) (g_execs g)))\<rparr>) (gap_pairs now g)"
  by (simp add: read_coverage_def COVERAGE_SQL_def gap_pairs_def Let_def filter_map o_def case_prod_beta count_traded_months)

lemma coverage_accounts_eq:
  "cov_accounts (read_coverage now g) = sort (remdups (map snd (sort (remdups (traded_months now g)))))"
  by (simp add: read_coverage_def COVERAGE_SQL_def Let_def o_def case_prod_beta)

lemma gap_account_listed:
  "gap_account ` set (cov_gaps (read_coverage now g)) \<subseteq> set (cov_accounts (read_coverage now g))"
  by (auto simp: coverage_gaps_eq coverage_accounts_eq gap_pairs_def image_image case_prod_beta)

lemma bump_map:
  assumes "a \<in> set ks" "distinct ks"
  shows "bump a (map (\<lambda>k. (k, f k)) ks) = map (\<lambda>k. (k, if k = a then f k + 1 else f k)) ks"
  using assms
proof (induction ks)
  case (Cons k ks)
  have "a \<notin> set ks" if "k = a" using Cons.prems that by simp
  then have "map (\<lambda>k. (k, f k)) ks = map (\<lambda>k. (k, if k = a then f k + 1 else f k)) ks" if "k = a"
    using that by (intro map_cong) auto
  with Cons show ?case by auto
qed simp

lemma bump_all:
  assumes "gap_account ` set gs \<subseteq> set ks" "distinct ks"
  shows "foldl (\<lambda>d g. bump (gap_account g) d) (map (\<lambda>k. (k, f k)) ks) gs =
    map (\<lambda>k. (k, f k + int (length (filter (\<lambda>g. gap_account g = k) gs)))) ks"
  using assms
proof (induction gs arbitrary: f)
  case (Cons g gs)
  then show ?case
    by (simp add: bump_map Cons.IH [of "\<lambda>k. if k = gap_account g then f k + 1 else f k"])
qed simp

text \<open>C31: The coverage read finds exactly the gaps. Its gaps are, in order and each once, the pairs of a closed
  month and an account that has an execution traded in the month and no cash row stamped in it, with the number of
  those executions; the per-account counts are the numbers of gaps of each account that traded in a closed month; the
  check entry is in order exactly when there is no gap.\<close>

theorem coverage_gaps_exact:
  "\<exists>ps. sorted ps \<and> distinct ps \<and>
     set ps = {(m, a).
        (\<exists>x\<in>set (g_execs g). x_account x = Some a \<and>
           (\<exists>d. x_trade_date x = Some d \<and> d < month_start (local_date now) \<and> month_start d = m)) \<and>
        \<not> (\<exists>t. (Some a, Some t) \<in> set (g_cash g) \<and> month_start (local_date t) = m)} \<and>
     cov_gaps (read_coverage now g) =
       map (\<lambda>(m, a). \<lparr>gap_account = a, gap_month = month_label m,
                      gap_executions = int (length (filter (\<lambda>x. closed_month now x = Some (m, a)) (g_execs g)))\<rparr>) ps \<and>
     gap_months_by_account (read_coverage now g) =
       map (\<lambda>a. (a, int (length (filter (\<lambda>e. gap_account e = a) (cov_gaps (read_coverage now g))))))
         (cov_accounts (read_coverage now g)) \<and>
     ck_ok (coverage_check (Some (read_coverage now g)) None) = (ps = [])"
proof (intro exI [of _ "gap_pairs now g"] conjI)
  show "sorted (gap_pairs now g)" unfolding gap_pairs_def by (intro sorted_wrt_filter) simp
  show "set (gap_pairs now g) = {(m, a).
      (\<exists>x\<in>set (g_execs g). x_account x = Some a \<and>
         (\<exists>d. x_trade_date x = Some d \<and> d < month_start (local_date now) \<and> month_start d = m)) \<and>
      \<not> (\<exists>t. (Some a, Some t) \<in> set (g_cash g) \<and> month_start (local_date t) = m)}"
    by (simp add: gap_pairs_def set_eq_iff split_paired_all mem_traded_months mem_cash_months)
  show "gap_months_by_account (read_coverage now g) =
     map (\<lambda>a. (a, int (length (filter (\<lambda>e. gap_account e = a) (cov_gaps (read_coverage now g))))))
       (cov_accounts (read_coverage now g))"
  proof -
    have "distinct (cov_accounts (read_coverage now g))" by (simp add: coverage_accounts_eq)
    with bump_all [OF gap_account_listed, of now g "\<lambda>_. 0"] show ?thesis
      by (simp add: gap_months_by_account_def distinct_remdups_id)
  qed
  show "ck_ok (coverage_check (Some (read_coverage now g)) None) = (gap_pairs now g = [])"
    by (simp add: coverage_check_def Let_def coverage_gaps_eq)
qed (simp_all add: gap_pairs_def coverage_gaps_eq)

text \<open>Two days have the same \<open>month_start\<close> exactly when they lie in the same month of the same year.\<close>

lemma month_start_first:
  assumes "1 \<le> d" "ord2ymd d = (y, m, day)"
  shows "month_start d = ymd2ord y m 1"
  using ord2ymd_correct(1) [OF assms] assms(2) by (simp add: month_start_def ymd2ord_def)

end
