(* ===== verification/Self_Check.thy ===== *)
theory Self_Check
  imports Ingest_Api Ledger_Coverage
begin

text \<open>
  \<^verbatim>\<open>ops/diagnose.py\<close> and \<^verbatim>\<open>api/ops.py\<close>: the self-check. What the API can read is collected into one input;
  every kind gets a verdict with the sentence and the actions that go with it, every part of the system a
  check entry, and the whole an overall verdict. Time stamps are instants of one clock; the differences of instants are
  exact. Texts are byte strings, so the cut of \<open>_short\<close> counts characters of plain text.
\<close>

subsection \<open>Input\<close>

definition VERDICT_ORDER :: "string list" where
  "VERDICT_ORDER = [''failed'', ''missed'', ''throttled'', ''waiting'', ''running'', ''queued'', ''ok'', ''idle'', ''unknown'']"

definition HEARTBEAT_STALE_SEC :: int where
  "HEARTBEAT_STALE_SEC = 180"

record KindInput =
  ki_kind :: string
  ki_job :: "job option"
  ki_freshness :: "freshness option"
  planned_last :: "instant option"
  planned_next :: "instant option"
  ki_max_attempts :: int

record token_state =
  tk_host :: bool
  tk_secondary :: bool
  tk_issued_at :: "string option"
  tk_age_days :: "int option"

record CheckInput =
  ci_now :: instant
  ci_tz :: "string option"
  grace_sec :: int
  ci_kinds :: "KindInput list"
  ci_heartbeat :: "heartbeat option"
  ci_tokens :: token_state
  data_latest :: "(string \<times> instant option) list"
  cooldown_until :: "instant option"
  catchup_enabled :: bool
  worker_poll_sec :: int
  ci_coverage :: "coverage option"
  coverage_error :: "string option"

record Action =
  a_id :: string
  a_label :: string
  a_method :: string
  a_path :: string
  a_body :: "dict option"
  a_enabled :: bool
  a_reason :: "string option"

record KindVerdict =
  v_kind :: string
  verdict :: string
  headline :: string
  v_detail :: "string option"
  next_at :: "instant option"
  v_job :: "job option"
  last_success_at :: "instant option"
  v_actions :: "Action list"

subsection \<open>One kind\<close>

definition job_error :: "job option \<Rightarrow> string" where
  "job_error job = (case job of None \<Rightarrow> []
     | Some j \<Rightarrow> (case jresult j of None \<Rightarrow> []
         | Some res \<Rightarrow> if truthy (dget res ''error'') then py_str (dget res ''error'') else []))"

definition short_text :: "string \<Rightarrow> nat \<Rightarrow> string" where
  "short_text msg n = (let m = join '' '' (split_ws msg) in if length m \<le> n then m else take (n - 1) m @ ellipsis)"

definition enqueue_action :: "zone \<Rightarrow> string \<Rightarrow> string \<Rightarrow> CheckInput \<Rightarrow> Action" where
  "enqueue_action z kind label inp =
     (let a = \<lparr>a_id = ''enqueue'', a_label = label, a_method = ''POST'', a_path = ''/flex/ingest/enqueue'',
               a_body = Some [(''slot'', PStr kind)], a_enabled = True, a_reason = None\<rparr>
      in case cooldown_until inp of
           Some t \<Rightarrow> if t > ci_now inp
             then a\<lparr>a_enabled := False, a_reason := Some (''IB throttle cooldown until '' @ fmt_local z (ci_tz inp) (Some t))\<rparr> else a
         | None \<Rightarrow> a)"

definition missed_plan :: "KindInput \<Rightarrow> CheckInput \<Rightarrow> bool" where
  "missed_plan k inp = (case planned_last k of
      None \<Rightarrow> False
    | Some planned \<Rightarrow>
        let age = ci_now inp - planned in
        if age < secs (grace_sec inp) \<or> age > secs (24 * 3600) then False
        else (case ki_job k of None \<Rightarrow> True | Some j \<Rightarrow> jcreated j < planned))"

text \<open>The positional fields of a verdict; \<open>with_job\<close> adds the job and the last success.\<close>

definition kind_verdict :: "KindInput \<Rightarrow> string \<Rightarrow> string \<Rightarrow> string option \<Rightarrow> instant option \<Rightarrow> Action list \<Rightarrow> KindVerdict" where
  "kind_verdict k v hl det nxt acts =
     \<lparr>v_kind = ki_kind k, verdict = v, headline = hl, v_detail = det, next_at = nxt, v_job = ki_job k,
      last_success_at = (case ki_freshness k of None \<Rightarrow> None | Some f \<Rightarrow> latest_ts f), v_actions = acts\<rparr>"

definition missed_verdict :: "zone \<Rightarrow> KindInput \<Rightarrow> CheckInput \<Rightarrow> string \<Rightarrow> KindVerdict" where
  "missed_verdict z k inp tail =
     kind_verdict k ''missed'' (''Planned '' @ fmt_local z (ci_tz inp) (planned_last k) @ '' came and went with no job'' @ tail @ ''.'')
       (Some (if catchup_enabled inp
              then ''The worker's catch-up enqueues it on its own after the grace period; press Enqueue to do it now.''
              else ''Catch-up is disabled; enqueue it by hand.''))
       None [enqueue_action z (ki_kind k) ''Enqueue today's slot'' inp]"

definition attempts_of :: "KindInput \<Rightarrow> job \<Rightarrow> string" where
  "attempts_of k j = show_int (jattempts j) @ ''/'' @ show_int (if jmax j \<noteq> 0 then jmax j else ki_max_attempts k)"

definition assess_running :: "zone \<Rightarrow> KindInput \<Rightarrow> CheckInput \<Rightarrow> job \<Rightarrow> KindVerdict" where
  "assess_running z k inp j =
     kind_verdict k ''running''
       (''Running since '' @ fmt_local z (ci_tz inp) (jstarted j) @ '' (attempt '' @ attempts_of k j @ '').'')
       (Some ''An IB fetch takes seconds to a few minutes; a run older than two hours is reclaimed automatically.'') None []"

definition run_now_action :: "job \<Rightarrow> Action" where
  "run_now_action j =
     \<lparr>a_id = ''run_now'', a_label = ''Run now'', a_method = ''POST'',
      a_path = ''/flex/ingest/jobs/'' @ show_int (jid j) @ ''/run-now'', a_body = None, a_enabled = True, a_reason = None\<rparr>"

definition assess_pending :: "zone \<Rightarrow> KindInput \<Rightarrow> CheckInput \<Rightarrow> job \<Rightarrow> KindVerdict" where
  "assess_pending z k inp j =
     (let fmt = fmt_local z (ci_tz inp); category = the_text (jcategory j);
          det = or_none (short_text (job_error (Some j)) 220); tries = '' (attempt '' @ attempts_of k j @ '').''
      in case jnot_before j of
           Some nb \<Rightarrow>
             if nb > ci_now inp then
               if category = ''throttled'' then
                 kind_verdict k ''throttled'' (''IB throttled the token; cooling down until '' @ fmt (Some nb) @ tries) det (Some nb)
                   [(run_now_action j)\<lparr>a_enabled := False,
                      a_reason := Some (''IB refused the token ([1018]); a request before '' @ fmt (Some nb) @ '' fails again'')\<rparr>]
               else
                 kind_verdict k ''waiting''
                   ((if category = ''not_ready'' then ''IB has not generated the statement yet''
                     else if category \<noteq> [] then category else ''retry scheduled'') @
                    ''; the worker retries at '' @ fmt (Some nb) @ tries) det (Some nb) [run_now_action j]
             else kind_verdict k ''queued'' (''Queued; the worker claims it within '' @ show_int (worker_poll_sec inp) @ ''s.'') None None []
         | None \<Rightarrow> kind_verdict k ''queued'' (''Queued; the worker claims it within '' @ show_int (worker_poll_sec inp) @ ''s.'') None None [])"

definition FIX_CONFIG_REASON :: string where
  "FIX_CONFIG_REASON = ''Expired/invalid token: generate a new one in IB Account Management and run '' @
     ''make sync-flex-tokens; bad query id: Config tab''"

definition assess_failed :: "zone \<Rightarrow> KindInput \<Rightarrow> CheckInput \<Rightarrow> job \<Rightarrow> KindVerdict" where
  "assess_failed z k inp j =
     (let category = the_text (jcategory j); det = or_none (short_text (job_error (Some j)) 220) in
      if category = ''config'' then
        kind_verdict k ''failed'' (''Failed on configuration '' @ em_dash @ '' retrying cannot fix this.'') det None
          [\<lparr>a_id = ''fix_config'', a_label = ''Fix config, then enqueue'', a_method = ''POST'', a_path = ''/flex/ingest/enqueue'',
            a_body = Some [(''slot'', PStr (ki_kind k))], a_enabled = False, a_reason = Some FIX_CONFIG_REASON\<rparr>]
      else
        kind_verdict k ''failed''
          (''Failed for good at '' @ fmt_local z (ci_tz inp) (jfinished j) @ '' ('' @
           (if category \<noteq> [] then category else ''error'') @ '', '' @ attempts_of k j @ '' attempts).'') det None
          [enqueue_action z (ki_kind k) ''Enqueue again'' inp])"

definition rows_text :: "freshness option \<Rightarrow> string" where
  "rows_text fresh = (case fresh of None \<Rightarrow> []
     | Some f \<Rightarrow> (case processed_rows f of None \<Rightarrow> []
         | Some n \<Rightarrow> '', '' @ show_int n @ '' rows'' @
             (case new_rows f of None \<Rightarrow> [] | Some m \<Rightarrow> '' ('' @ show_int m @ '' new)'')))"

definition assess_done :: "zone \<Rightarrow> KindInput \<Rightarrow> CheckInput \<Rightarrow> job \<Rightarrow> KindVerdict" where
  "assess_done z k inp j =
     (let fmt = fmt_local z (ci_tz inp) in
      if missed_plan k inp then missed_verdict z k inp (''; last run was '' @ fmt (Some (jcreated j)))
      else kind_verdict k ''ok''
        (''Completed '' @ fmt (jfinished j) @ rows_text (ki_freshness k) @ ''; next planned '' @ fmt (planned_next k) @ ''.'')
        None (planned_next k) [])"

definition assess_kind :: "zone \<Rightarrow> CheckInput \<Rightarrow> KindInput \<Rightarrow> KindVerdict" where
  "assess_kind z inp k = (case ki_job k of
      None \<Rightarrow>
        if missed_plan k inp then missed_verdict z k inp []
        else kind_verdict k ''idle'' ''Never ran.'' (Some (''Next planned '' @ fmt_local z (ci_tz inp) (planned_next k) @ ''.''))
          (planned_next k) [enqueue_action z (ki_kind k) ''Enqueue now'' inp]
    | Some j \<Rightarrow> (case jstat j of
          Running \<Rightarrow> assess_running z k inp j
        | Pending \<Rightarrow> assess_pending z k inp j
        | Failed \<Rightarrow> assess_failed z k inp j
        | Done \<Rightarrow> assess_done z k inp j))"

subsection \<open>The whole\<close>

fun first_present :: "string list \<Rightarrow> string list \<Rightarrow> string" where
  "first_present [] vs = ''unknown''"
| "first_present (v # order) vs = (if v \<in> set vs then v else first_present order vs)"

definition worst :: "string list \<Rightarrow> string" where
  "worst vs = first_present VERDICT_ORDER vs"

definition or_unknown :: "string \<Rightarrow> string" where
  "or_unknown s = (if s = [] then ''?'' else s)"

text \<open>\<open>int(td.total_seconds())\<close>, which cuts towards zero.\<close>

definition int_seconds :: "int \<Rightarrow> int" where
  "int_seconds d = (if 0 \<le> d then d div usec else - (- d div usec))"

definition token_check :: "token_state \<Rightarrow> check_item" where
  "token_check t =
     (if \<not> tk_host t \<and> \<not> tk_secondary t then
        \<lparr>ck_id = ''tokens'', ck_ok = False,
         ck_detail = ''No Flex token in Secret bifrost-flex-tokens '' @ em_dash @ '' run make sync-flex-tokens.'', ck_gaps = None\<rparr>
      else
        let issued = (if the_text (tk_issued_at t) \<noteq> []
                      then '', issued '' @ the_text (tk_issued_at t) @ '' ('' @
                        (case tk_age_days t of None \<Rightarrow> ''None'' | Some n \<Rightarrow> show_int n) @ ''d ago)''
                      else '', issue date unknown'');
            warn = (case tk_age_days t of None \<Rightarrow> False | Some n \<Rightarrow> n > 335);
            sides = join ''+'' ((if tk_host t then [''host''] else []) @ (if tk_secondary t then [''secondary''] else []))
        in \<lparr>ck_id = ''tokens'', ck_ok = \<not> warn,
            ck_detail = sides @ '' from Secret'' @ issued @
              (if warn then '' '' @ em_dash @ '' IB expires tokens after a year, rotate soon.'' else []), ck_gaps = None\<rparr>)"

definition worker_check :: "instant \<Rightarrow> heartbeat option \<Rightarrow> check_item" where
  "worker_check now hb_o = (case hb_o of
      None \<Rightarrow> \<lparr>ck_id = ''worker'', ck_ok = False,
        ck_detail = ''Worker has never reported in '' @ em_dash @ '' is flex-query-worker running on 0.6.1+?'', ck_gaps = None\<rparr>
    | Some hb \<Rightarrow>
        let silent = now - hb_seen_at hb; ok = (silent \<le> secs HEARTBEAT_STALE_SEC) in
        \<lparr>ck_id = ''worker'', ck_ok = ok,
         ck_detail =
           (if ok then ''worker alive, seen '' @ show_int (int_seconds silent) @ ''s ago (pod '' @ or_unknown (hb_pod hb) @
                '', v'' @ or_unknown (hb_version hb) @ '', done '' @ show_int (hb_jobs_done hb) @ '' / retried '' @
                show_int (hb_jobs_retried hb) @ '' / failed '' @ show_int (hb_jobs_failed hb) @ '', db reconnects '' @
                show_int (hb_db_reconnects hb) @ '', catch-ups '' @ show_int (hb_catchups hb) @ '')''
            else ''worker silent for '' @ show_int (silent div secs 60) @ '' min (last pod '' @ or_unknown (hb_pod hb) @
                '') '' @ em_dash @ '' check flex-query-worker.''),
         ck_gaps = None\<rparr>)"

definition cooldown_check :: "zone \<Rightarrow> CheckInput \<Rightarrow> check_item" where
  "cooldown_check z inp =
     (let none = \<lparr>ck_id = ''cooldown'', ck_ok = True, ck_detail = ''No IB throttle cooldown.'', ck_gaps = None\<rparr> in
      case cooldown_until inp of
        Some t \<Rightarrow> if t > ci_now inp
          then \<lparr>ck_id = ''cooldown'', ck_ok = False,
                ck_detail = ''IB throttle cooldown until '' @ fmt_local z (ci_tz inp) (Some t) @ '' '' @ em_dash @ '' no request before then.'',
                ck_gaps = None\<rparr>
          else none
      | None \<Rightarrow> none)"

definition min_opt :: "instant list \<Rightarrow> instant option" where
  "min_opt ts = (case ts of [] \<Rightarrow> None | t # rest \<Rightarrow> Some (fold min rest t))"

definition schedule_check :: "zone \<Rightarrow> CheckInput \<Rightarrow> check_item" where
  "schedule_check z inp =
     \<lparr>ck_id = ''schedule'', ck_ok = True,
      ck_detail = ''Trigger: Dagster research_flex_morning_schedule; next planned '' @
        fmt_local z (ci_tz inp) (min_opt (List.map_filter planned_next (ci_kinds inp))) @
        (if catchup_enabled inp then ''; worker catch-up '' @ show_int (grace_sec inp div 60) @ '' min after a missed slot''
         else ''; catch-up disabled''),
      ck_gaps = None\<rparr>"

definition data_stale :: "instant \<Rightarrow> string \<times> instant option \<Rightarrow> bool" where
  "data_stale now p = (case p of
      (_, None) \<Rightarrow> True
    | (table, Some d) \<Rightarrow> table = ''executions_raw_flex'' \<and> now - d > secs (7 * 86400))"

definition data_check :: "zone \<Rightarrow> CheckInput \<Rightarrow> check_item" where
  "data_check z inp =
     (let parts = map (\<lambda>(table, d). case d of None \<Rightarrow> table @ '': none'' | Some _ \<Rightarrow> table @ '': '' @ fmt_local z (ci_tz inp) d)
                    (data_latest inp);
          text = join ''; '' parts
      in \<lparr>ck_id = ''data'', ck_ok = \<not> list_ex (data_stale (ci_now inp)) (data_latest inp),
          ck_detail = (if text = [] then em_dash else text), ck_gaps = None\<rparr>)"

definition checks :: "zone \<Rightarrow> CheckInput \<Rightarrow> check_item list" where
  "checks z inp =
     [token_check (ci_tokens inp), worker_check (ci_now inp) (ci_heartbeat inp), cooldown_check z inp, schedule_check z inp,
      data_check z inp] @
     (if ci_coverage inp \<noteq> None \<or> the_text (coverage_error inp) \<noteq> []
      then [coverage_check (ci_coverage inp) (coverage_error inp)] else [])"

text \<open>\<open>first\<close> maps each verdict to the first kind that has it; looking up one that no kind has raises.\<close>

definition first_with :: "string \<Rightarrow> KindVerdict list \<Rightarrow> py_error + KindVerdict" where
  "first_with name vs = (case find (\<lambda>v. verdict v = name) vs of None \<Rightarrow> Inl (KeyError name) | Some v \<Rightarrow> Inr v)"

definition next_step :: "zone \<Rightarrow> string \<Rightarrow> KindVerdict list \<Rightarrow> CheckInput \<Rightarrow> py_error + string" where
  "next_step z overall vs inp =
     (let fmt = fmt_local z (ci_tz inp) in
      if overall = ''failed'' then
        bind_err (first_with ''failed'' vs) (\<lambda>v.
          if (case v_job v of None \<Rightarrow> False | Some j \<Rightarrow> the_text (jcategory j) = ''config'')
          then Inr (''Fix the configuration for '' @ v_kind v @ '' (see its action), then enqueue; nothing automatic will help.'')
          else Inr (v_kind v @ '' exhausted its attempts; enqueue it again (the next planned run will also try).''))
      else if overall = ''missed'' then
        bind_err (first_with ''missed'' vs) (\<lambda>v.
          Inr (if catchup_enabled inp then ''Enqueue '' @ v_kind v @ '' now, or wait for the worker's catch-up.''
               else ''Enqueue '' @ v_kind v @ '' now.''))
      else if overall = ''throttled'' then
        bind_err (first_with ''throttled'' vs) (\<lambda>v.
          Inr (''Do nothing until '' @ fmt (next_at v) @ ''; the worker retries by itself and every request before then fails.''))
      else if overall = ''waiting'' then
        bind_err (first_with ''waiting'' vs) (\<lambda>v.
          Inr (''The worker retries '' @ v_kind v @ '' at '' @ fmt (next_at v) @ ''; press Run now to skip the wait.''))
      else if overall = ''running'' \<or> overall = ''queued'' then Inr ''A job is in flight; refresh in a minute.''
      else (case min_opt (List.map_filter next_at vs) of
              Some t \<Rightarrow> Inr (''Nothing to do; next planned run '' @ fmt (Some t) @ ''.'')
            | None \<Rightarrow> Inr ''Nothing to do.''))"

record job_report =
  jr_id :: int
  jr_status :: string
  jr_attempts :: int
  jr_max_attempts :: int
  jr_error_category :: "string option"
  jr_not_before :: "string option"
  jr_created_at :: string
  jr_finished_at :: "string option"
  jr_error :: "string option"
  jr_manual :: bool

definition report_job :: "job \<Rightarrow> job_report" where
  "report_job j =
     \<lparr>jr_id = jid j, jr_status = status_text (jstat j), jr_attempts = jattempts j, jr_max_attempts = jmax j,
      jr_error_category = jcategory j, jr_not_before = iso_z (jnot_before j), jr_created_at = iso_z_of (jcreated j),
      jr_finished_at = iso_z (jfinished j), jr_error = or_none (short_text (job_error (Some j)) 500),
      jr_manual = truthy (dget (jpayload j) ''manual'')\<rparr>"

record kind_report =
  kr_kind :: string
  kr_verdict :: string
  kr_headline :: string
  kr_detail :: "string option"
  kr_next_at :: "string option"
  kr_next_in_seconds :: "int option"
  kr_last_success_at :: "string option"
  kr_job :: "job_report option"
  kr_actions :: "Action list"

definition report_kind :: "instant \<Rightarrow> KindVerdict \<Rightarrow> kind_report" where
  "report_kind now v =
     \<lparr>kr_kind = v_kind v, kr_verdict = verdict v, kr_headline = headline v, kr_detail = v_detail v, kr_next_at = iso_z (next_at v),
      kr_next_in_seconds = map_option (\<lambda>t. max 0 (int_seconds (t - now))) (next_at v),
      kr_last_success_at = iso_z (last_success_at v), kr_job = map_option report_job (v_job v), kr_actions = v_actions v\<rparr>"

record diagnosis =
  d_generated_at :: string
  d_timezone :: string
  d_verdict :: string
  d_next_step :: string
  d_kinds :: "kind_report list"
  d_checks :: "check_item list"

definition overall_verdict :: "KindVerdict list \<Rightarrow> check_item list \<Rightarrow> string" where
  "overall_verdict vs cs =
     (let overall = worst (map verdict vs) in
      if (overall = ''ok'' \<or> overall = ''idle'') \<and> list_ex (\<lambda>c. \<not> ck_ok c) cs then ''attention'' else overall)"

definition diagnose :: "zone \<Rightarrow> CheckInput \<Rightarrow> py_error + diagnosis" where
  "diagnose z inp =
     (let vs = map (assess_kind z inp) (ci_kinds inp); cs = checks z inp; overall = overall_verdict vs cs in
      bind_err (next_step z overall vs inp) (\<lambda>step.
      Inr \<lparr>d_generated_at = iso_z_of (ci_now inp),
           d_timezone = (if the_text (ci_tz inp) \<noteq> [] then the_text (ci_tz inp) else ''UTC''),
           d_verdict = overall, d_next_step = step, d_kinds = map (report_kind (ci_now inp)) vs, d_checks = cs\<rparr>))"

subsection \<open>Collecting the input\<close>

text \<open>\<open>ORDER BY key DESC LIMIT 1\<close>.\<close>

fun top_row :: "('a \<Rightarrow> int) \<Rightarrow> 'a list \<Rightarrow> 'a option" where
  "top_row key [] = None"
| "top_row key (x # xs) = (case top_row key xs of None \<Rightarrow> Some x | Some y \<Rightarrow> if key x < key y then Some y else Some x)"

text \<open>\<open>SELECT DISTINCT ON (kind) ... ORDER BY kind, id DESC\<close>, looked up at a kind.\<close>

definition latest_job :: "queue \<Rightarrow> string \<Rightarrow> job option" where
  "latest_job q kind = top_row jid (filter (\<lambda>j. jkind j = kind) (rows q))"

definition newest_heartbeat :: "heartbeat list \<Rightarrow> heartbeat option" where
  "newest_heartbeat hbs = top_row hb_seen_at hbs"

definition throttle_until :: "instant \<Rightarrow> queue \<Rightarrow> instant option" where
  "throttle_until now q =
     (let ts = filter (\<lambda>t. now < t) (List.map_filter jnot_before
                 (filter (\<lambda>j. jstat j = Pending \<and> jcategory j = Some ''throttled'') (rows q)))
      in if ts = [] then None else Some (Max (set ts)))"

definition DATA_TABLES :: "string list" where
  "DATA_TABLES = [''executions_raw_flex'', ''transactions'']"

definition slot_max_attempts :: "dict \<Rightarrow> string \<Rightarrow> py_error + int" where
  "slot_max_attempts cfg slot =
     bind_err (dict_of (dget cfg ''slots'')) (\<lambda>slots.
     bind_err (dict_of (dget slots slot)) (\<lambda>scfg.
     py_int (py_or (dget scfg ''max_attempts'') (PInt DEFAULT_SLOT_MAX_ATTEMPTS))))"

definition kind_input :: "tzdb \<Rightarrow> dict \<Rightarrow> instant \<Rightarrow> queue \<Rightarrow> freshness_table \<Rightarrow> string \<times> string \<Rightarrow> py_error + KindInput" where
  "kind_input db cfg now q fresh sk =
     (case sk of (slot, kind) \<Rightarrow>
        bind_err (slot_cron cfg slot) (\<lambda>cron.
        bind_err (if cron = [] then Inr None else previous_fire db cron now 14 (schedule_timezone cfg)) (\<lambda>last_o.
        bind_err (if cron = [] then Inr [] else next_fires db cron now 1 14 (schedule_timezone cfg)) (\<lambda>upcoming.
        bind_err (slot_max_attempts cfg slot) (\<lambda>maxa.
        Inr \<lparr>ki_kind = kind, ki_job = latest_job q kind, ki_freshness = find_dim fresh kind, planned_last = last_o,
             planned_next = (case upcoming of [] \<Rightarrow> None | t # _ \<Rightarrow> Some t), ki_max_attempts = maxa\<rparr>)))))"

fun kind_inputs :: "(string \<times> string \<Rightarrow> py_error + KindInput) \<Rightarrow> (string \<times> string) list \<Rightarrow> py_error + KindInput list" where
  "kind_inputs f [] = Inr []"
| "kind_inputs f (sk # sks) = bind_err (f sk) (\<lambda>k. bind_err (kind_inputs f sks) (\<lambda>ks. Inr (k # ks)))"

text \<open>What the reads outside the queue tables gave: the newest stamp of each data table (\<open>None\<close> also when the read failed)
  and the coverage read, or the type and text of its exception. \<open>poll_sec\<close> is the worker's poll interval of the
  configuration file in whole seconds.\<close>

record reads =
  r_data :: "string \<Rightarrow> instant option"
  r_coverage :: "(string \<times> string) + coverage"
  r_poll_sec :: int

definition collect_check_input ::
  "tzdb \<Rightarrow> env \<Rightarrow> dict \<Rightarrow> reads \<Rightarrow> instant \<Rightarrow> queue \<Rightarrow> freshness_table \<Rightarrow> heartbeat list \<Rightarrow> py_error + CheckInput" where
  "collect_check_input db env cfg r now q fresh hbs =
     bind_err (kind_inputs (kind_input db cfg now q fresh) SLOT_KIND) (\<lambda>ks.
     case resolve_flex_tokens env of (h, s, _) \<Rightarrow>
     Inr \<lparr>ci_now = now, ci_tz = schedule_timezone cfg, grace_sec = catchup_grace_sec cfg, ci_kinds = ks,
          ci_heartbeat = newest_heartbeat hbs,
          ci_tokens = \<lparr>tk_host = h \<noteq> [], tk_secondary = s \<noteq> [], tk_issued_at = fst (flex_tokens_issued_at env now),
                       tk_age_days = snd (flex_tokens_issued_at env now)\<rparr>,
          data_latest = map (\<lambda>t. (t, r_data r t)) DATA_TABLES, cooldown_until = throttle_until now q,
          catchup_enabled = env_text env ''FLEX_CATCHUP_DISABLED'' \<notin> {''1'', ''true'', ''yes''},
          worker_poll_sec = r_poll_sec r,
          ci_coverage = (case r_coverage r of Inr c \<Rightarrow> Some c | Inl _ \<Rightarrow> None),
          coverage_error = (case r_coverage r of Inr _ \<Rightarrow> None
            | Inl (name, msg) \<Rightarrow> let t = take 200 (join '' '' (split_ws msg)) in Some (if t = [] then name else t))\<rparr>)"

text \<open>The handler of \<open>GET /flex/ops/check\<close>, after the schema call. A zone the database does not know raises in the
  plan of the first slot with a cron; with no cron at all the code raises when it prints the first time.\<close>

definition check :: "zones \<Rightarrow> env \<Rightarrow> dict \<Rightarrow> reads \<Rightarrow> instant \<Rightarrow> queue \<Rightarrow> freshness_table \<Rightarrow> heartbeat list \<Rightarrow> py_error + diagnosis" where
  "check zs env cfg r now q fresh hbs =
     bind_err (collect_check_input (\<lambda>n. map_option z_off (zs n)) env cfg r now q fresh hbs) (\<lambda>inp.
     bind_err (resolve_zone zs (ci_tz inp)) (\<lambda>z. diagnose z inp))"

subsection \<open>Which verdicts occur\<close>

lemma kind_verdict_simps [simp]:
  "verdict (kind_verdict k v hl det nxt acts) = v" "next_at (kind_verdict k v hl det nxt acts) = nxt"
  "v_actions (kind_verdict k v hl det nxt acts) = acts"
  by (simp_all add: kind_verdict_def)

lemma verdict_branch [simp]:
  "verdict (assess_running z k inp j) = ''running''"
  "verdict (assess_failed z k inp j) = ''failed''"
  "verdict (missed_verdict z k inp tail) = ''missed''"
  "verdict (assess_done z k inp j) = (if missed_plan k inp then ''missed'' else ''ok'')"
  by (simp_all add: assess_running_def assess_failed_def missed_verdict_def assess_done_def Let_def)

lemma verdict_pending [simp]:
  "verdict (assess_pending z k inp j) =
     (case jnot_before j of None \<Rightarrow> ''queued''
      | Some nb \<Rightarrow> if nb > ci_now inp then if jcategory j = Some ''throttled'' then ''throttled'' else ''waiting'' else ''queued'')"
  by (cases "jcategory j") (simp_all add: assess_pending_def Let_def split: option.split)

lemma verdict_assess:
  "verdict (assess_kind z inp k) = (case ki_job k of
      None \<Rightarrow> if missed_plan k inp then ''missed'' else ''idle''
    | Some j \<Rightarrow> (case jstat j of Running \<Rightarrow> ''running'' | Pending \<Rightarrow> verdict (assess_pending z k inp j)
        | Failed \<Rightarrow> ''failed'' | Done \<Rightarrow> if missed_plan k inp then ''missed'' else ''ok''))"
  by (simp add: assess_kind_def split: option.split jstatus.split)

definition due_again :: "KindInput \<Rightarrow> CheckInput \<Rightarrow> bool" where
  "due_again k inp \<longleftrightarrow> (case ki_job k of None \<Rightarrow> True | Some j \<Rightarrow> jstat j = Done) \<and> missed_plan k inp"

lemma verdict_missed_iff: "verdict (assess_kind z inp k) = ''missed'' \<longleftrightarrow> due_again k inp"
  by (simp add: verdict_assess due_again_def split: option.split jstatus.split)

lemma verdict_calm_iff:
  "verdict (assess_kind z inp k) \<in> {''ok'', ''idle''} \<longleftrightarrow>
     (case ki_job k of None \<Rightarrow> True | Some j \<Rightarrow> jstat j = Done) \<and> \<not> missed_plan k inp"
  by (simp add: verdict_assess split: option.split jstatus.split)

lemma verdict_listed:
  "verdict (assess_kind z inp k) \<in> {''failed'', ''missed'', ''throttled'', ''waiting'', ''running'', ''queued'', ''ok'', ''idle''}"
  by (simp add: verdict_assess split: option.split jstatus.split)

lemma first_present_before: "first_present (pre @ rest) vs \<notin> set pre \<Longrightarrow> set pre \<inter> set vs = {}"
  by (induction pre) (auto split: if_splits)

lemma worst_mem:
  assumes "vs \<noteq> []" "set vs \<subseteq> set VERDICT_ORDER"
  shows "worst vs \<in> set vs"
proof -
  have "first_present ord vs \<in> set vs" if "set vs \<inter> set ord \<noteq> {}" for ord
    using that by (induction ord) auto
  moreover have "set vs \<inter> set VERDICT_ORDER \<noteq> {}" using assms by (cases vs) auto
  ultimately show ?thesis by (simp add: worst_def)
qed

lemma worst_calm_iff:
  assumes "set vs \<subseteq> {''failed'', ''missed'', ''throttled'', ''waiting'', ''running'', ''queued'', ''ok'', ''idle''}" "vs \<noteq> []"
  shows "worst vs = ''ok'' \<or> worst vs = ''idle'' \<longleftrightarrow> set vs \<subseteq> {''ok'', ''idle''}"
proof
  assume "set vs \<subseteq> {''ok'', ''idle''}"
  moreover have "set vs \<subseteq> set VERDICT_ORDER" by (rule subset_trans [OF assms(1)]) (simp add: VERDICT_ORDER_def)
  ultimately show "worst vs = ''ok'' \<or> worst vs = ''idle''" using worst_mem [OF assms(2)] by blast
next
  assume "worst vs = ''ok'' \<or> worst vs = ''idle''"
  then have "worst vs \<notin> set (take 6 VERDICT_ORDER)"
    by (elim disjE) (simp_all add: VERDICT_ORDER_def)
  with first_present_before [of "take 6 VERDICT_ORDER" "drop 6 VERDICT_ORDER" vs]
  have "set (take 6 VERDICT_ORDER) \<inter> set vs = {}" by (simp add: worst_def del: set_take_subset_set_take)
  then have "''failed'' \<notin> set vs" "''missed'' \<notin> set vs" "''throttled'' \<notin> set vs" "''waiting'' \<notin> set vs" "''running'' \<notin> set vs" "''queued'' \<notin> set vs"
    by (simp_all add: VERDICT_ORDER_def)
  with assms(1) show "set vs \<subseteq> {''ok'', ''idle''}" by blast
qed

lemma first_with_present: "name \<in> verdict ` set vs \<Longrightarrow> \<exists>v. first_with name vs = Inr v"
  by (auto simp: first_with_def find_None_iff split: option.splits)

lemma worst_absent: "worst vs \<in> {''failed'', ''missed'', ''throttled'', ''waiting''} \<Longrightarrow> worst vs \<in> set vs"
  by (auto simp: worst_def VERDICT_ORDER_def split: if_splits)

text \<open>The lookup in \<open>first\<close> never fails, so the self-check always answers.\<close>

lemma diagnose_total: "\<exists>d. diagnose z inp = Inr d"
proof -
  let ?vs = "map (assess_kind z inp) (ci_kinds inp)" and ?o = "overall_verdict (map (assess_kind z inp) (ci_kinds inp)) (checks z inp)"
  have "\<exists>step. next_step z ?o ?vs inp = Inr step"
  proof (cases "?o \<in> {''failed'', ''missed'', ''throttled'', ''waiting''}")
    case True
    then have "?o = worst (map verdict ?vs)" by (auto simp: overall_verdict_def Let_def split: if_splits)
    with True worst_absent [of "map verdict ?vs"] have "?o \<in> verdict ` set ?vs" by (simp only: set_map)
    with first_with_present obtain v where v: "first_with ?o ?vs = Inr v" by blast
    with True show ?thesis by (auto simp: next_step_def Let_def)
  qed (auto simp: next_step_def Let_def split: option.splits)
  then show ?thesis by (auto simp: diagnose_def Let_def)
qed

subsection \<open>A green answer\<close>

lemma overall_calm_iff:
  assumes "set (map verdict vs) \<subseteq> {''failed'', ''missed'', ''throttled'', ''waiting'', ''running'', ''queued'', ''ok'', ''idle''}" "vs \<noteq> []"
  shows "overall_verdict vs cs \<in> {''ok'', ''idle''} \<longleftrightarrow> set (map verdict vs) \<subseteq> {''ok'', ''idle''} \<and> (\<forall>c\<in>set cs. ck_ok c)"
proof -
  have "worst (map verdict vs) = ''ok'' \<or> worst (map verdict vs) = ''idle'' \<longleftrightarrow> set (map verdict vs) \<subseteq> {''ok'', ''idle''}"
    by (rule worst_calm_iff [OF assms(1)]) (simp add: assms(2))
  then show ?thesis by (simp add: overall_verdict_def Let_def list_ex_iff) blast
qed

lemma checks_ok_iff:
  "(\<forall>c\<in>set (checks z inp). ck_ok c) \<longleftrightarrow>
     (tk_host (ci_tokens inp) \<or> tk_secondary (ci_tokens inp)) \<and>
     (case tk_age_days (ci_tokens inp) of None \<Rightarrow> True | Some n \<Rightarrow> n \<le> 335) \<and>
     (\<exists>hb. ci_heartbeat inp = Some hb \<and> ci_now inp - hb_seen_at hb \<le> secs HEARTBEAT_STALE_SEC) \<and>
     (\<forall>t. cooldown_until inp = Some t \<longrightarrow> t \<le> ci_now inp) \<and>
     (\<forall>p\<in>set (data_latest inp). \<not> data_stale (ci_now inp) p) \<and>
     the_text (coverage_error inp) = [] \<and> (\<forall>c. ci_coverage inp = Some c \<longrightarrow> cov_gaps c = [])"
proof -
  have t: "ck_ok (token_check t) \<longleftrightarrow> (tk_host t \<or> tk_secondary t) \<and> (case tk_age_days t of None \<Rightarrow> True | Some n \<Rightarrow> n \<le> 335)" for t
    by (auto simp: token_check_def Let_def split: option.split)
  have w: "ck_ok (worker_check now h) \<longleftrightarrow> (\<exists>hb. h = Some hb \<and> now - hb_seen_at hb \<le> secs HEARTBEAT_STALE_SEC)" for now h
    by (simp add: worker_check_def Let_def split: option.split)
  have c: "ck_ok (cooldown_check z inp) \<longleftrightarrow> (\<forall>t. cooldown_until inp = Some t \<longrightarrow> t \<le> ci_now inp)"
    by (auto simp: cooldown_check_def Let_def split: option.split)
  have d: "ck_ok (data_check z inp) \<longleftrightarrow> (\<forall>p\<in>set (data_latest inp). \<not> data_stale (ci_now inp) p)"
    by (simp add: data_check_def Let_def list_ex_iff)
  have v: "ck_ok (coverage_check co er) \<longleftrightarrow> the_text er = [] \<and> (\<forall>c. co = Some c \<longrightarrow> cov_gaps c = [])" for co er
    by (simp add: coverage_check_def Let_def split: option.split)
  show ?thesis
    by (cases "ci_coverage inp") (auto simp: checks_def t w c d v schedule_check_def)
qed

lemma kind_inputs_all:
  "kind_inputs f xs = Inr ks \<Longrightarrow> list_all2 (\<lambda>x k. f x = Inr k) xs ks"
  by (induction xs arbitrary: ks) (auto simp: bind_err_eq_Inr)

lemma top_row_None [simp]: "top_row key xs = None \<longleftrightarrow> xs = []"
  by (cases xs) (auto split: option.splits)

lemma top_row_Some: "top_row key xs = Some y \<Longrightarrow> y \<in> set xs \<and> (\<forall>x\<in>set xs. key x \<le> key y)"
  by (induction xs arbitrary: y) (fastforce split: option.splits if_splits)+

lemma throttle_until_le:
  "(\<forall>t. throttle_until now q = Some t \<longrightarrow> t \<le> now) \<longleftrightarrow>
     \<not> (\<exists>j\<in>set (rows q). jstat j = Pending \<and> jcategory j = Some ''throttled'' \<and> (\<exists>t. jnot_before j = Some t \<and> now < t))"
proof -
  define us where "us = List.map_filter jnot_before (filter (\<lambda>j. jstat j = Pending \<and> jcategory j = Some ''throttled'') (rows q))"
  define ts where "ts = filter (\<lambda>t. now < t) us"
  have tu: "throttle_until now q = (if ts = [] then None else Some (Max (set ts)))"
    by (simp add: throttle_until_def ts_def us_def Let_def)
  have lt: "\<forall>t\<in>set ts. now < t" by (simp add: ts_def)
  have "now < Max (set ts)" if "ts \<noteq> []"
    by (rule bspec [OF lt Max_in]) (simp_all add: that)
  then have "(\<forall>t. throttle_until now q = Some t \<longrightarrow> t \<le> now) \<longleftrightarrow> ts = []"
    unfolding tu by (cases "ts = []") (simp_all add: not_le del: Max_less_iff Max_gr_iff)
  also have "\<dots> \<longleftrightarrow> \<not> (\<exists>t\<in>set us. now < t)" by (auto simp: ts_def filter_empty_conv)
  finally show ?thesis by (auto simp: us_def mem_map_filter)
qed

lemma missed_plan_iff:
  "missed_plan k inp \<longleftrightarrow> (\<exists>p. planned_last k = Some p \<and> secs (grace_sec inp) \<le> ci_now inp - p \<and> ci_now inp - p \<le> secs 86400 \<and>
     \<not> (\<exists>j. ki_job k = Some j \<and> p \<le> jcreated j))"
  by (auto simp: missed_plan_def Let_def split: option.splits)

lemma kind_input_Inr:
  assumes "kind_input db cfg now q fresh (slot, kind) = Inr k"
  shows "ki_kind k = kind" "ki_job k = latest_job q kind"
    "\<exists>cron. slot_cron cfg slot = Inr cron \<and>
       (\<forall>p. planned_last k = Some p \<longleftrightarrow> cron \<noteq> [] \<and> previous_fire db cron now 14 (schedule_timezone cfg) = Inr (Some p))"
  using assms by (auto simp: kind_input_def bind_err_eq_Inr split: if_splits)

text \<open>A planned fire of a slot that is between the grace and a day old, with no job of the kind created since.\<close>

definition fire_unanswered :: "tzdb \<Rightarrow> dict \<Rightarrow> instant \<Rightarrow> queue \<Rightarrow> string \<times> string \<Rightarrow> bool" where
  "fire_unanswered db cfg now q sk \<longleftrightarrow>
     (\<exists>cron p. slot_cron cfg (fst sk) = Inr cron \<and> cron \<noteq> [] \<and> previous_fire db cron now 14 (schedule_timezone cfg) = Inr (Some p) \<and>
        secs (catchup_grace_sec cfg) \<le> now - p \<and> now - p \<le> secs 86400 \<and>
        \<not> (\<exists>j. latest_job q (snd sk) = Some j \<and> p \<le> jcreated j))"

lemma v_kind_assess [simp]: "v_kind (assess_kind z inp k) = ki_kind k"
proof -
  have "v_kind (kind_verdict k v hl det nxt acts) = ki_kind k" for v hl det nxt acts by (simp add: kind_verdict_def)
  then show ?thesis
    by (simp add: assess_kind_def assess_running_def assess_pending_def assess_failed_def assess_done_def missed_verdict_def Let_def
        split: option.split jstatus.split)
qed

lemma list_all2_ball_iff:
  "list_all2 R xs ys \<Longrightarrow> (\<And>x y. R x y \<Longrightarrow> Q y \<longleftrightarrow> P x) \<Longrightarrow> (\<forall>y\<in>set ys. Q y) \<longleftrightarrow> (\<forall>x\<in>set xs. P x)"
  by (induction rule: list_all2_induct) auto

lemma kind_input_job: "kind_input db cfg now q fresh sk = Inr k \<Longrightarrow> ki_kind k = snd sk \<and> ki_job k = latest_job q (snd sk)"
  by (cases sk) (simp add: kind_input_Inr)

lemma missed_plan_unanswered:
  assumes "kind_input db cfg now q fresh sk = Inr k" "ci_now inp = now" "grace_sec inp = catchup_grace_sec cfg"
  shows "missed_plan k inp \<longleftrightarrow> fire_unanswered db cfg now q sk"
proof -
  obtain slot kind where sk: "sk = (slot, kind)" by (cases sk)
  note k = kind_input_Inr [OF assms(1) [unfolded sk]]
  from k(3) obtain cron where c: "slot_cron cfg slot = Inr cron"
    "\<And>p. planned_last k = Some p \<longleftrightarrow> cron \<noteq> [] \<and> previous_fire db cron now 14 (schedule_timezone cfg) = Inr (Some p)" by blast
  show ?thesis by (simp add: missed_plan_iff fire_unanswered_def sk k(2) assms(2,3) c)
qed

lemma kind_calm:
  assumes "kind_input db cfg now q fresh sk = Inr k" "ci_now inp = now" "grace_sec inp = catchup_grace_sec cfg"
  shows "verdict (assess_kind z inp k) \<in> {''ok'', ''idle''} \<longleftrightarrow>
    (case latest_job q (snd sk) of None \<Rightarrow> True | Some j \<Rightarrow> jstat j = Done) \<and> \<not> fire_unanswered db cfg now q sk"
  unfolding verdict_calm_iff missed_plan_unanswered [OF assms] kind_input_job [OF assms(1), THEN conjunct2] by (rule refl)

lemma check_Inr:
  assumes "check zs env cfg r now q fresh hbs = Inr d"
  obtains inp z where "collect_check_input (\<lambda>n. map_option z_off (zs n)) env cfg r now q fresh hbs = Inr inp" "diagnose z inp = Inr d"
  using assms by (auto simp: check_def bind_err_eq_Inr)

lemma collect_Inr:
  assumes "collect_check_input db env cfg r now q fresh hbs = Inr inp"
  shows "list_all2 (\<lambda>sk k. kind_input db cfg now q fresh sk = Inr k) SLOT_KIND (ci_kinds inp)"
    "ci_now inp = now" "grace_sec inp = catchup_grace_sec cfg" "ci_heartbeat inp = newest_heartbeat hbs"
    "data_latest inp = map (\<lambda>t. (t, r_data r t)) DATA_TABLES" "cooldown_until inp = throttle_until now q"
    "tk_host (ci_tokens inp) \<longleftrightarrow> env_text env ''FLEX_HOST_TOKEN'' \<noteq> []"
    "tk_secondary (ci_tokens inp) \<longleftrightarrow> env_text env ''FLEX_SECONDARY_TOKEN'' \<noteq> []"
    "tk_age_days (ci_tokens inp) = snd (flex_tokens_issued_at env now)"
    "ci_coverage inp = (case r_coverage r of Inr c \<Rightarrow> Some c | Inl _ \<Rightarrow> None)"
    "coverage_error inp = (case r_coverage r of Inr _ \<Rightarrow> None
            | Inl (name, msg) \<Rightarrow> let t = take 200 (join '' '' (split_ws msg)) in Some (if t = [] then name else t))"
  using assms by (auto simp: collect_check_input_def bind_err_eq_Inr resolve_flex_tokens_def Let_def dest: kind_inputs_all)

lemma diagnose_Inr:
  assumes "diagnose z inp = Inr d"
  shows "d_verdict d = overall_verdict (map (assess_kind z inp) (ci_kinds inp)) (checks z inp)"
    "d_kinds d = map (\<lambda>k. report_kind (ci_now inp) (assess_kind z inp k)) (ci_kinds inp)"
  using assms by (auto simp: diagnose_def Let_def bind_err_eq_Inr)

text \<open>C29: A green self-check means that nothing is wrong. The overall verdict is ok or idle exactly when a token is
  there and not about to expire, the worker was seen within the last 180 seconds, no job cools down from a throttle,
  executions no older than a week and cash rows are stored, the cash ledger has no gap, and for every slot the last job of
  its kind is done (or there was none) and no planned fire went unanswered.\<close>

theorem green_check_exact:
  assumes "check zs env cfg r now q fresh hbs = Inr d" and "\<forall>msg. r_coverage r \<noteq> Inl ([], msg)"
  shows "d_verdict d \<in> {''ok'', ''idle''} \<longleftrightarrow>
     (env_text env ''FLEX_HOST_TOKEN'' \<noteq> [] \<or> env_text env ''FLEX_SECONDARY_TOKEN'' \<noteq> []) \<and>
     (case snd (flex_tokens_issued_at env now) of None \<Rightarrow> True | Some n \<Rightarrow> n \<le> 335) \<and>
     (\<exists>hb\<in>set hbs. now - hb_seen_at hb \<le> secs 180) \<and>
     \<not> (\<exists>j\<in>set (rows q). jstat j = Pending \<and> jcategory j = Some ''throttled'' \<and> (\<exists>t. jnot_before j = Some t \<and> now < t)) \<and>
     (\<exists>t. r_data r ''executions_raw_flex'' = Some t \<and> now - t \<le> secs (7 * 86400)) \<and> r_data r ''transactions'' \<noteq> None \<and>
     (\<exists>c. r_coverage r = Inr c \<and> cov_gaps c = []) \<and>
     (\<forall>sk\<in>set SLOT_KIND. (case latest_job q (snd sk) of None \<Rightarrow> True | Some j \<Rightarrow> jstat j = Done) \<and>
        \<not> fire_unanswered (\<lambda>n. map_option z_off (zs n)) cfg now q sk)"
proof -
  obtain inp z where c: "collect_check_input (\<lambda>n. map_option z_off (zs n)) env cfg r now q fresh hbs = Inr inp"
    and d: "diagnose z inp = Inr d" by (rule check_Inr [OF assms(1)])
  note i = collect_Inr [OF c]
  let ?db = "\<lambda>n. map_option z_off (zs n)" and ?vs = "map (assess_kind z inp) (ci_kinds inp)"
  have ne: "ci_kinds inp \<noteq> []" using i(1) by (auto simp: SLOT_KIND_def)
  have hb: "(\<exists>hb. newest_heartbeat hbs = Some hb \<and> now - hb_seen_at hb \<le> s) \<longleftrightarrow> (\<exists>hb\<in>set hbs. now - hb_seen_at hb \<le> s)" for s
    using top_row_Some [of hb_seen_at hbs] by (cases "top_row hb_seen_at hbs") (force simp: newest_heartbeat_def)+
  have cov: "the_text (coverage_error inp) = [] \<and> (\<forall>c. ci_coverage inp = Some c \<longrightarrow> cov_gaps c = []) \<longleftrightarrow>
      (\<exists>c. r_coverage r = Inr c \<and> cov_gaps c = [])"
    using assms(2) by (auto simp: i(10,11) Let_def split: sum.splits)
  have "set (map verdict ?vs) \<subseteq> {''ok'', ''idle''} \<longleftrightarrow> (\<forall>k\<in>set (ci_kinds inp). verdict (assess_kind z inp k) \<in> {''ok'', ''idle''})" by auto
  also have "\<dots> \<longleftrightarrow> (\<forall>sk\<in>set SLOT_KIND. (case latest_job q (snd sk) of None \<Rightarrow> True | Some j \<Rightarrow> jstat j = Done) \<and> \<not> fire_unanswered ?db cfg now q sk)"
    using i(1) by (rule list_all2_ball_iff) (rule kind_calm [OF _ i(2,3)])
  finally have kinds: "set (map verdict ?vs) \<subseteq> {''ok'', ''idle''} \<longleftrightarrow> \<dots>" .
  have data: "(\<forall>p\<in>set (data_latest inp). \<not> data_stale now p) \<longleftrightarrow>
      (\<exists>t. r_data r ''executions_raw_flex'' = Some t \<and> now - t \<le> secs (7 * 86400)) \<and> r_data r ''transactions'' \<noteq> None"
    by (auto simp: i(5) DATA_TABLES_def data_stale_def split: option.splits)
  have all: "set (map verdict ?vs) \<subseteq> {''failed'', ''missed'', ''throttled'', ''waiting'', ''running'', ''queued'', ''ok'', ''idle''}"
    using verdict_listed by fastforce
  have "d_verdict d \<in> {''ok'', ''idle''} \<longleftrightarrow> set (map verdict ?vs) \<subseteq> {''ok'', ''idle''} \<and> (\<forall>c\<in>set (checks z inp). ck_ok c)"
    unfolding diagnose_Inr(1) [OF d] by (rule overall_calm_iff [OF all]) (simp add: ne)
  then show ?thesis
    unfolding kinds checks_ok_iff data i(2,4,6-9) throttle_until_le hb HEARTBEAT_STALE_SEC_def using cov by blast
qed

definition sample_heartbeat :: heartbeat where
  "sample_heartbeat = \<lparr>hb_worker = WORKER_KEY, hb_pod = ''w-1'', hb_version = ''0.6.1'', hb_seen_at = 0, hb_started_at = 0,
     hb_jobs_done = 3, hb_jobs_failed = 0, hb_jobs_retried = 0, hb_catchups = 0, hb_db_reconnects = 0, hb_stale_reclaimed = 0,
     hb_last_error = None, hb_last_error_category = None\<rparr>"

definition sample_reads :: reads where
  "sample_reads = \<lparr>r_data = (\<lambda>_. Some 0), r_coverage = Inr \<lparr>cov_accounts = [], cov_gaps = []\<rparr>, r_poll_sec = 5\<rparr>"

lemma sample_slot_cron: "slot_cron [] slot = Inr []"
  by (simp add: slot_cron_def dget_def dict_of_def text_or_empty_def)

lemma sample_check: "\<exists>d. check (\<lambda>_. None) env [] r now q fresh hbs = Inr d"
proof -
  have tz: "schedule_timezone [] = None" by (simp add: schedule_timezone_def dget_def text_or_empty_def strip_def)
  have "kind_input db [] now q fresh (slot, kind) = Inr \<lparr>ki_kind = kind, ki_job = latest_job q kind, ki_freshness = find_dim fresh kind,
      planned_last = None, planned_next = None, ki_max_attempts = DEFAULT_SLOT_MAX_ATTEMPTS\<rparr>" for db slot kind
    by (simp add: kind_input_def sample_slot_cron slot_max_attempts_def dget_def dict_of_def py_or_def py_int_def)
  then show ?thesis
    using diagnose_total by (simp add: check_def collect_check_input_def SLOT_KIND_def tz resolve_zone_def resolve_flex_tokens_def Let_def)
qed

theorem green_check_exact_witness:
  "\<exists>d. check (\<lambda>_. None) (\<lambda>n. if n = ''FLEX_HOST_TOKEN'' then Some ''tok'' else None) [] sample_reads (secs 60) empty_queue [] [sample_heartbeat]
      = Inr d \<and> d_verdict d \<in> {''ok'', ''idle''}"
proof -
  let ?env = "\<lambda>n. if n = ''FLEX_HOST_TOKEN'' then Some ''tok'' else None"
  obtain d where d: "check (\<lambda>_. None) ?env [] sample_reads (secs 60) empty_queue [] [sample_heartbeat] = Inr d"
    using sample_check by blast
  have cov: "\<forall>msg. r_coverage sample_reads \<noteq> Inl ([], msg)" by (simp add: sample_reads_def)
  have tok: "env_text ?env ''FLEX_HOST_TOKEN'' \<noteq> []" "env_text ?env ''FLEX_TOKENS_ISSUED_AT'' = []" by code_simp+
  have "d_verdict d \<in> {''ok'', ''idle''}"
    unfolding green_check_exact [OF d cov]
    using tok by (simp add: flex_tokens_issued_at_def sample_heartbeat_def empty_queue_def latest_job_def fire_unanswered_def
        sample_slot_cron sample_reads_def secs_def usec_def)
  with d show ?thesis by blast
qed

subsection \<open>Self-check and catch-up agree\<close>

lemma newest_is_latest:
  assumes "\<And>i j. i \<in> set (rows q) \<Longrightarrow> j \<in> set (rows q) \<Longrightarrow> jid i \<le> jid j \<Longrightarrow> jcreated i \<le> jcreated j"
  shows "newest_job_per_kind q kind = map_option jcreated (latest_job q kind)"
proof (cases "latest_job q kind")
  case None
  then show ?thesis by (simp add: latest_job_def newest_job_per_kind_def)
next
  case (Some j)
  note top = top_row_Some [OF Some [unfolded latest_job_def]]
  then obtain t ts where ts: "map jcreated (filter (\<lambda>j. jkind j = kind) (rows q)) = t # ts"
    by (cases "filter (\<lambda>j. jkind j = kind) (rows q)") auto
  have "fold max ts t = Max (set (t # ts))" by (rule Max.set_eq_fold [symmetric])
  also have "\<dots> = jcreated j"
  proof (rule Max_eqI)
    show "jcreated j \<in> set (t # ts)" unfolding ts [symmetric] using top by force
    show "y \<le> jcreated j" if "y \<in> set (t # ts)" for y
      using that top assms unfolding ts [symmetric] by auto
  qed simp
  finally show ?thesis using Some by (simp add: newest_job_per_kind_def ts)
qed

lemma missed_slot_Inr:
  assumes "missed_slot db cfg now (catchup_grace_sec cfg) (newest_job_per_kind q) (slot, kind) = Inr m_o"
    and "newest_job_per_kind q kind = map_option jcreated (latest_job q kind)"
  shows "m_o \<noteq> None \<longleftrightarrow> fire_unanswered db cfg now q (slot, kind)" "m_o = Some m \<Longrightarrow> m_kind m = kind"
proof -
  from assms(1) obtain cron where c: "slot_cron cfg slot = Inr cron" by (auto simp: missed_slot_def bind_err_eq_Inr)
  show "m_o \<noteq> None \<longleftrightarrow> fire_unanswered db cfg now q (slot, kind)"
  proof (cases "cron = []")
    case True
    then show ?thesis using assms(1) by (simp add: missed_slot_def fire_unanswered_def c)
  next
    case False
    with assms(1) obtain p_o where p: "previous_fire db cron now 14 (schedule_timezone cfg) = Inr p_o"
      by (auto simp: missed_slot_def c bind_err_eq_Inr)
    with False assms show ?thesis
      by (cases p_o; cases "latest_job q kind")
        (auto simp: missed_slot_def missed_at_def fire_unanswered_def c bind_err_eq_Inr not_le split: if_splits)
  qed
  have "m_kind m = kind" if "missed_at db cfg now g js slot kind p = Inr (Some m)" for g js p
    using that by (auto simp: missed_at_def bind_err_eq_Inr split: if_splits)
  then show "m_o = Some m \<Longrightarrow> m_kind m = kind"
    using assms(1) by (auto simp: missed_slot_def c bind_err_eq_Inr split: if_splits option.splits)
qed

lemma SLOT_KIND_distinct: "(s, k) \<in> set SLOT_KIND \<Longrightarrow> s = k"
  by (auto simp: SLOT_KIND_def SLOT_NAMES_def)

lemma missed_slots_unanswered:
  assumes "missed_slots db cfg now (catchup_grace_sec cfg) (newest_job_per_kind q) = Inr ms" "(slot, kind) \<in> set SLOT_KIND"
    and "\<And>k. newest_job_per_kind q k = map_option jcreated (latest_job q k)"
  shows "(\<exists>m\<in>set ms. m_kind m = kind) \<longleftrightarrow> fire_unanswered db cfg now q (slot, kind)"
proof -
  let ?f = "missed_slot db cfg now (catchup_grace_sec cfg) (newest_job_per_kind q)"
  note c = collect_missed_Inr [OF assms(1) [unfolded missed_slots_def]]
  from c assms(2) obtain m_o where m: "?f (slot, kind) = Inr m_o" by blast
  have "(\<exists>m\<in>set ms. m_kind m = kind) \<longleftrightarrow> (\<exists>m. ?f (slot, kind) = Inr (Some m))"
  proof
    assume "\<exists>m\<in>set ms. m_kind m = kind"
    then obtain m' x where x: "x \<in> set SLOT_KIND" "?f x = Inr (Some m')" "m_kind m' = kind" using c by blast
    obtain s k where sk: "x = (s, k)" by (cases x)
    have "k = kind" using missed_slot_Inr(2) [OF x(2) [unfolded sk] assms(3) refl] x(3) by simp
    with x(1,2) sk SLOT_KIND_distinct assms(2) show "\<exists>m. ?f (slot, kind) = Inr (Some m)" by blast
  next
    assume "\<exists>m. ?f (slot, kind) = Inr (Some m)"
    then obtain m' where m': "?f (slot, kind) = Inr (Some m')" by blast
    then have "m' \<in> set ms" using c assms(2) by blast
    with missed_slot_Inr(2) [OF m' assms(3) refl] show "\<exists>m\<in>set ms. m_kind m = kind" by blast
  qed
  with missed_slot_Inr(1) [OF m assms(3)] m show ?thesis by auto
qed

text \<open>C30: The self-check and the worker's catch-up agree on a missed slot. When ids and creation times of the jobs are in the
  same order, a kind is reported missed exactly when the catch-up run at the same moment would enqueue it and no job of the
  kind is in flight or failed last.\<close>

theorem missed_verdict_agrees:
  assumes "check zs env cfg r now q fresh hbs = Inr d"
    and "missed_slots (\<lambda>n. map_option z_off (zs n)) cfg now (catchup_grace_sec cfg) (newest_job_per_kind q) = Inr ms"
    and "\<And>i j. i \<in> set (rows q) \<Longrightarrow> j \<in> set (rows q) \<Longrightarrow> jid i \<le> jid j \<Longrightarrow> jcreated i \<le> jcreated j"
    and "(slot, kind) \<in> set SLOT_KIND"
  shows "(\<exists>kr\<in>set (d_kinds d). kr_kind kr = kind \<and> kr_verdict kr = ''missed'') \<longleftrightarrow>
    (\<exists>m\<in>set ms. m_kind m = kind) \<and> (case latest_job q kind of None \<Rightarrow> True | Some j \<Rightarrow> jstat j = Done)"
proof -
  obtain inp z where c: "collect_check_input (\<lambda>n. map_option z_off (zs n)) env cfg r now q fresh hbs = Inr inp"
    and d: "diagnose z inp = Inr d" by (rule check_Inr [OF assms(1)])
  note i = collect_Inr [OF c]
  let ?db = "\<lambda>n. map_option z_off (zs n)"
  let ?missed = "\<lambda>sk. fire_unanswered ?db cfg now q sk \<and> (case latest_job q (snd sk) of None \<Rightarrow> True | Some j \<Rightarrow> jstat j = Done)"
  have kr: "kr_kind (report_kind t (assess_kind z inp k)) = ki_kind k" "kr_verdict (report_kind t (assess_kind z inp k)) = verdict (assess_kind z inp k)" for t k
    by (simp_all add: report_kind_def)
  have "(\<forall>k\<in>set (ci_kinds inp). \<not> (ki_kind k = kind \<and> verdict (assess_kind z inp k) = ''missed'')) \<longleftrightarrow>
      (\<forall>sk\<in>set SLOT_KIND. \<not> (snd sk = kind \<and> ?missed sk))"
    using i(1) by (rule list_all2_ball_iff)
      (use kind_input_job missed_plan_unanswered [OF _ i(2,3)] in \<open>auto simp: verdict_missed_iff due_again_def\<close>)
  then have "(\<exists>kr\<in>set (d_kinds d). kr_kind kr = kind \<and> kr_verdict kr = ''missed'') \<longleftrightarrow> (\<exists>sk\<in>set SLOT_KIND. snd sk = kind \<and> ?missed sk)"
    by (auto simp: diagnose_Inr(2) [OF d] kr)
  also have "\<dots> \<longleftrightarrow> ?missed (slot, kind)"
    using assms(4) SLOT_KIND_distinct by (metis prod.collapse snd_conv)
  finally show ?thesis
    using missed_slots_unanswered [OF assms(2,4) newest_is_latest [OF assms(3)]] by simp
qed

definition sample_late :: instant where
  "sample_late = secs 23400 + secs 2760"

lemma sample_schedule_simps:
  "schedule_timezone sample_schedule = None"
  "slot_cron sample_schedule ''flex-trades'' = Inr ''30 6 * * 1-6''" "slot_cron sample_schedule ''flex-transactions'' = Inr []"
  "slot_max_attempts sample_schedule ''flex-trades'' = Inr 8" "slot_max_attempts sample_schedule ''flex-transactions'' = Inr DEFAULT_SLOT_MAX_ATTEMPTS"
  "catchup_grace_sec sample_schedule = 2700"
  by (simp_all add: schedule_timezone_def slot_cron_def slot_max_attempts_def catchup_grace_sec_def sample_schedule_def dget_def dict_of_def
      text_or_empty_def strip_def py_or_def py_int_def DEFAULT_CATCHUP_GRACE_SEC_def Let_def)

lemma sample_parse: "parse_cron ''30 6 * * 1-6'' = Inr (Some [30], Some [6], Some [1, 2, 3, 4, 5, 6])"
  by code_simp

lemma sample_previous_fire: "previous_fire (\<lambda>_. None) ''30 6 * * 1-6'' sample_late 14 None = Inr (Some (secs 23400))"
proof -
  let ?due = "due (\<lambda>_. None) ''30 6 * * 1-6'' None"
  have no: "t = secs 23400" if "?due t" "secs 23400 \<le> t" "t < sample_late" for t
  proof -
    from that(1) obtain k where k: "t = minute * k" by (auto simp: due_def)
    have "local_minute t = 30" using that(1) by (simp add: due_def sample_parse zone_of_def matches_def local_time_def)
    then have "k mod 60 = 30" by (simp add: k local_minute_def minute_def secs_def usec_def)
    moreover have "390 \<le> k" "k < 436" using that(2,3) by (simp_all add: k sample_late_def minute_def secs_def usec_def)
    ultimately have "k = 390" by presburger
    then show ?thesis by (simp add: k minute_def secs_def usec_def)
  qed
  obtain r where r: "previous_fire (\<lambda>_. None) ''30 6 * * 1-6'' sample_late 14 None = Inr r"
    using sample_parse by (auto simp: previous_fire_def iter_cron_fires_def zone_of_def Let_def)
  have lt: "secs 23400 < sample_late" "sample_late - secs (86400 * 14) \<le> secs 23400" by (simp_all add: sample_late_def secs_def usec_def)
  show ?thesis
  proof (cases r)
    case None
    with previous_fire_None [OF r [unfolded None] sample_due(1) lt(1)] lt(2) show ?thesis by simp
  next
    case (Some p)
    note s = previous_fire_Some [OF r [unfolded Some]]
    have "p = secs 23400" by (rule no [OF s(1) s(4) [OF sample_due(1) lt(1)] s(3)])
    with r Some show ?thesis by simp
  qed
qed

lemma sample_missed_check:
  "\<exists>d. check (\<lambda>_. None) (\<lambda>_. None) sample_schedule sample_reads sample_late empty_queue [] [] = Inr d"
  "missed_slots (\<lambda>_. None) sample_schedule sample_late 2700 (newest_job_per_kind empty_queue) =
     Inr [\<lparr>m_slot = ''flex-trades'', m_kind = ''flex-trades'', m_planned = secs 23400, m_as_of = isoformat (local_date (secs 23400))\<rparr>]"
proof -
  obtain fs where fs: "next_fires (\<lambda>_. None) ''30 6 * * 1-6'' sample_late 1 14 None = Inr fs"
    using sample_parse by (auto simp: next_fires_def iter_cron_fires_def zone_of_def Let_def)
  show "\<exists>d. check (\<lambda>_. None) (\<lambda>_. None) sample_schedule sample_reads sample_late empty_queue [] [] = Inr d"
    using diagnose_total
    by (simp add: check_def collect_check_input_def SLOT_KIND_def kind_input_def sample_schedule_simps sample_previous_fire fs
        resolve_zone_def resolve_flex_tokens_def Let_def)
  show "missed_slots (\<lambda>_. None) sample_schedule sample_late 2700 (newest_job_per_kind empty_queue) =
     Inr [\<lparr>m_slot = ''flex-trades'', m_kind = ''flex-trades'', m_planned = secs 23400, m_as_of = isoformat (local_date (secs 23400))\<rparr>]"
    by (simp add: missed_slots_def SLOT_KIND_def missed_slot_def missed_at_def sample_schedule_simps sample_previous_fire newest_job_per_kind_def
        empty_queue_def zone_of_def local_time_def) (simp add: sample_late_def secs_def usec_def)
qed

theorem missed_verdict_agrees_witness:
  "\<exists>d. check (\<lambda>_. None) (\<lambda>_. None) sample_schedule sample_reads sample_late empty_queue [] [] = Inr d \<and>
     (\<exists>kr\<in>set (d_kinds d). kr_kind kr = ''flex-trades'' \<and> kr_verdict kr = ''missed'')"
proof -
  obtain d where d: "check (\<lambda>_. None) (\<lambda>_. None) sample_schedule sample_reads sample_late empty_queue [] [] = Inr d"
    using sample_missed_check(1) by blast
  have q: "rows empty_queue = []" by (simp add: empty_queue_def)
  have "(\<exists>kr\<in>set (d_kinds d). kr_kind kr = ''flex-trades'' \<and> kr_verdict kr = ''missed'')"
    by (subst missed_verdict_agrees [OF d, of "[\<lparr>m_slot = ''flex-trades'', m_kind = ''flex-trades'', m_planned = secs 23400,
            m_as_of = isoformat (local_date (secs 23400))\<rparr>]" "''flex-trades''"])
      (simp_all add: sample_missed_check(2) sample_schedule_simps q SLOT_KIND_def latest_job_def)
  with d show ?thesis by blast
qed

subsection \<open>Where the answers differ\<close>

text \<open>An overall verdict of attention (a failed check with every kind in order) still comes with nothing to do.\<close>

lemma attention_has_no_step:
  "\<exists>rest. next_step z ''attention'' vs inp = Inr (''Nothing to do'' @ rest)"
  by (auto simp: next_step_def Let_def split: option.split)

text \<open>While the token cools down, a job deferred by the queue-wide cooldown is offered an enabled \<open>run_now\<close>: the job's own
  category decides, not \<open>cooldown_until\<close>.\<close>

lemma run_now_offered_in_cooldown:
  assumes "ki_job k = Some j" "jstat j = Pending" "jcategory j \<noteq> Some ''throttled''" "jnot_before j = Some nb" "ci_now inp < nb"
  shows "v_actions (assess_kind z inp k) = [run_now_action j]"
proof -
  have "the_text (jcategory j) \<noteq> ''throttled''" using assms(3) by (cases "jcategory j") auto
  with assms show ?thesis by (simp add: assess_kind_def assess_pending_def Let_def)
qed

end
