(* ===== verification/Exposition.thy ===== *)
theory Exposition
  imports Py_Float
begin

text \<open>
  The Prometheus text both metrics modules write by hand: \<open>_label\<close>, \<open>_line\<close> and \<open>head\<close> of \<^verbatim>\<open>api/metrics.py\<close>, \<open>_escape\<close> and
  \<open>_labels\<close> of \<^verbatim>\<open>api/http_metrics.py\<close>. A document is a list of heads and samples; a reference reader takes the
  text apart again.
\<close>

subsection \<open>Writing\<close>

text \<open>\<open>s.replace(c, r)\<close> for a single character.\<close>

definition replace_char :: "char \<Rightarrow> string \<Rightarrow> string \<Rightarrow> string" where
  "replace_char c r s = concat (map (\<lambda>x. if x = c then r else [x]) s)"

definition escape :: "string \<Rightarrow> string" where
  "escape v = replace_char (CHR 0x0A) '' '' (replace_char (CHR 0x22) [CHR 0x5C, CHR 0x22] (replace_char (CHR 0x5C) [CHR 0x5C, CHR 0x5C] v))"

type_synonym labels = "(string \<times> string) list"

definition labels_text :: "labels \<Rightarrow> string" where
  "labels_text pairs = join '','' (map (\<lambda>(k, v). k @ [CHR ''='', CHR 0x22] @ escape v @ [CHR 0x22]) pairs)"

definition line_text :: "string \<Rightarrow> string \<Rightarrow> labels \<Rightarrow> string" where
  "line_text name v lbls =
     (if lbls \<noteq> [] then name @ ''{'' @ labels_text lbls @ ''} '' @ v else name @ '' '' @ v)"

datatype expo = Head string string string | Sample string string labels

fun expo_lines :: "expo \<Rightarrow> string list" where
  "expo_lines (Head name kind help) = [''# HELP '' @ name @ '' '' @ help, ''# TYPE '' @ name @ '' '' @ kind]"
| "expo_lines (Sample name v lbls) = [line_text name v lbls]"

text \<open>\<open>"\n".join(out) + "\n"\<close>.\<close>

definition expo_text :: "expo list \<Rightarrow> string" where
  "expo_text es = concat (map (\<lambda>l. l @ [CHR 0x0A]) (concat (map expo_lines es)))"

subsection \<open>Reading\<close>

fun read_value :: "string \<Rightarrow> (string \<times> string) option" where
  "read_value [] = None"
| "read_value (c # cs) =
     (if c = CHR 0x22 then Some ([], cs)
      else if c = CHR 0x5C then
        (case cs of [] \<Rightarrow> None | d # ds \<Rightarrow> map_option (\<lambda>(v, rest). (d # v, rest)) (read_value ds))
      else map_option (\<lambda>(v, rest). (c # v, rest)) (read_value cs))"

lemma read_value_shorter: "read_value s = Some (v, rest) \<Longrightarrow> length rest < length s"
proof (induction s arbitrary: v rule: read_value.induct)
  case (2 c cs)
  then show ?case by (fastforce split: if_splits list.splits simp: less_SucI)
qed simp

definition until :: "char \<Rightarrow> string \<Rightarrow> (string \<times> string) option" where
  "until c s = (case dropWhile (\<lambda>x. x \<noteq> c) s of [] \<Rightarrow> None | _ # rest \<Rightarrow> Some (takeWhile (\<lambda>x. x \<noteq> c) s, rest))"

lemma until_shorter: "until c s = Some (a, rest) \<Longrightarrow> length rest < length s"
proof -
  assume "until c s = Some (a, rest)"
  then obtain x where "dropWhile (\<lambda>x. x \<noteq> c) s = x # rest" by (auto simp: until_def split: list.splits)
  then have "length (x # rest) \<le> length s" by (metis length_dropWhile_le)
  then show ?thesis by simp
qed

text \<open>Labels up to the closing brace.\<close>

function read_labels :: "string \<Rightarrow> (labels \<times> string) option" where
  "read_labels s =
     (case until (CHR ''='') s of
        Some (k, q # s1) \<Rightarrow>
          if q = CHR 0x22 then
            (case read_value s1 of
               Some (v, c # s2) \<Rightarrow>
                 if c = CHR ''}'' then Some ([(k, v)], s2)
                 else if c = CHR '','' then map_option (\<lambda>(ls, rest). ((k, v) # ls, rest)) (read_labels s2)
                 else None
             | _ \<Rightarrow> None)
          else None
      | _ \<Rightarrow> None)"
  by pat_completeness auto
termination
proof (relation "measure length", goal_cases)
  case (2 s p k t q s1 p' v t' c s2)
  then show ?case by (auto dest!: until_shorter read_value_shorter)
qed simp

declare read_labels.simps [simp del]

definition read_sample :: "string \<Rightarrow> (string \<times> string \<times> labels) option" where
  "read_sample s =
     (let name = takeWhile (\<lambda>c. c \<noteq> CHR ''{'' \<and> c \<noteq> CHR '' '') s in
      case drop (length name) s of
        [] \<Rightarrow> None
      | c # rest \<Rightarrow>
          if c = CHR '' '' then Some (name, rest, [])
          else (case read_labels rest of
                  Some (ls, b # v) \<Rightarrow> if b = CHR '' '' then Some (name, v, ls) else None
                | _ \<Rightarrow> None))"

definition read_expo :: "string \<Rightarrow> (string \<times> string \<times> labels) option list" where
  "read_expo doc = map read_sample (filter (\<lambda>l. l \<noteq> [] \<and> hd l \<noteq> CHR ''#'') (split_on (CHR 0x0A) doc))"

subsection \<open>What is written is read\<close>

definition blanked :: "string \<Rightarrow> string" where
  "blanked v = map (\<lambda>c. if c = CHR 0x0A then CHR '' '' else c) v"

definition escape_char :: "char \<Rightarrow> string" where
  "escape_char c =
     (if c = CHR 0x5C then [CHR 0x5C, CHR 0x5C] else if c = CHR 0x22 then [CHR 0x5C, CHR 0x22]
      else if c = CHR 0x0A then '' '' else [c])"

lemma replace_char_simps:
  "replace_char c r [] = []" "replace_char c r (x # s) = (if x = c then r else [x]) @ replace_char c r s"
  "replace_char c r (a @ b) = replace_char c r a @ replace_char c r b"
  by (simp_all add: replace_char_def)

lemma escape_simps: "escape [] = []" "escape (c # v) = escape_char c @ escape v"
  by (simp_all add: escape_def escape_char_def replace_char_simps)

lemma read_value_escape: "read_value (escape v @ CHR 0x22 # rest) = Some (blanked v, rest)"
  by (induction v) (simp_all add: escape_simps escape_char_def blanked_def)

lemma no_newline_escape: "CHR 0x0A \<notin> set (escape v)"
  by (induction v) (auto simp: escape_simps escape_char_def)

lemma until_append: "c \<notin> set k \<Longrightarrow> until c (k @ c # rest) = Some (k, rest)"
  by (simp add: until_def dropWhile_append takeWhile_append)

lemma read_labels_text:
  assumes "lbls \<noteq> []" "\<forall>(k, v)\<in>set lbls. CHR ''='' \<notin> set k"
  shows "read_labels (labels_text lbls @ CHR ''}'' # rest) = Some (map (\<lambda>(k, v). (k, blanked v)) lbls, rest)"
  using assms
proof (induction lbls)
  case (Cons kv lbls)
  obtain k v where kv: "kv = (k, v)" by (cases kv)
  have k: "CHR ''='' \<notin> set k" using Cons.prems(2) by (simp add: kv)
  show ?case
  proof (cases lbls)
    case Nil
    then show ?thesis
      using k by (simp add: kv labels_text_def until_append read_value_escape read_labels.simps [of "k @ _"])
  next
    case (Cons kv' lbls')
    then have "labels_text (kv # lbls) = k @ CHR ''='' # CHR 0x22 # escape v @ CHR 0x22 # CHR '','' # labels_text lbls"
      by (simp add: labels_text_def kv split: prod.splits)
    moreover have "read_labels (labels_text lbls @ CHR ''}'' # rest) = Some (map (\<lambda>(k, v). (k, blanked v)) lbls, rest)"
      using Cons.IH Cons Cons.prems(2) by simp
    ultimately show ?thesis
      using k by (simp add: kv until_append read_value_escape read_labels.simps [of "k @ _"])
  qed
qed simp

fun expo_ok :: "expo \<Rightarrow> bool" where
  "expo_ok (Head name kind help) \<longleftrightarrow> CHR 0x0A \<notin> set name \<and> CHR 0x0A \<notin> set kind \<and> CHR 0x0A \<notin> set help"
| "expo_ok (Sample name v lbls) \<longleftrightarrow>
     name \<noteq> [] \<and> hd name \<noteq> CHR ''#'' \<and> set name \<inter> {CHR ''{'', CHR '' '', CHR 0x0A} = {} \<and> CHR 0x0A \<notin> set v \<and>
     (\<forall>(k, x)\<in>set lbls. set k \<inter> {CHR ''='', CHR 0x0A} = {})"

lemma read_sample_line:
  assumes "expo_ok (Sample name v lbls)"
  shows "read_sample (line_text name v lbls) = Some (name, v, map (\<lambda>(k, x). (k, blanked x)) lbls)"
proof -
  have n: "takeWhile (\<lambda>c. c \<noteq> CHR ''{'' \<and> c \<noteq> CHR '' '') (name @ c # rest) = name" if "c = CHR ''{'' \<or> c = CHR '' ''" for c rest
    using assms that by (auto simp: takeWhile_append)
  have "read_labels (labels_text lbls @ CHR ''}'' # CHR '' '' # v) = Some (map (\<lambda>(k, x). (k, blanked x)) lbls, CHR '' '' # v)" if "lbls \<noteq> []"
    using assms that by (intro read_labels_text) auto
  then show ?thesis by (auto simp: read_sample_def line_text_def n Let_def)
qed

lemma no_newline_labels:
  assumes "\<forall>(k, x)\<in>set lbls. CHR 0x0A \<notin> set k"
  shows "CHR 0x0A \<notin> set (labels_text lbls)"
proof -
  have "CHR 0x0A \<notin> set (join '','' ws)" if "\<forall>w\<in>set ws. CHR 0x0A \<notin> set w" for ws
    using that by (induction "'',''" ws rule: join.induct) auto
  moreover have "\<forall>w\<in>set (map (\<lambda>(k, v). k @ [CHR ''='', CHR 0x22] @ escape v @ [CHR 0x22]) lbls). CHR 0x0A \<notin> set w"
    using assms no_newline_escape by auto
  ultimately show ?thesis unfolding labels_text_def by blast
qed

lemma expo_lines_ok: "expo_ok e \<Longrightarrow> l \<in> set (expo_lines e) \<Longrightarrow> CHR 0x0A \<notin> set l"
proof (cases e)
  case (Sample name v lbls)
  assume "expo_ok e" "l \<in> set (expo_lines e)"
  moreover from this Sample have "CHR 0x0A \<notin> set (labels_text lbls)" by (intro no_newline_labels) auto
  ultimately show ?thesis using Sample by (auto simp: line_text_def)
qed auto

lemma split_on_lines:
  "\<forall>l\<in>set ls. c \<notin> set l \<Longrightarrow> split_on c (concat (map (\<lambda>l. l @ [c]) ls)) = ls @ [[]]"
proof (induction ls)
  case (Cons l ls)
  have "split_on c (w @ c # rest) = w # split_on c rest" if "c \<notin> set w" for w rest
    using that by (induction w) (auto split: list.splits)
  with Cons show ?case by simp
qed simp

text \<open>The samples of a document, as the reader gives them.\<close>

definition samples :: "expo list \<Rightarrow> (string \<times> string \<times> labels) list" where
  "samples es = concat (map (\<lambda>e. case e of Head _ _ _ \<Rightarrow> [] | Sample n v ls \<Rightarrow> [(n, v, map (\<lambda>(k, x). (k, blanked x)) ls)]) es)"

lemma read_expo_text:
  assumes "\<forall>e\<in>set es. expo_ok e"
  shows "read_expo (expo_text es) = map Some (samples es)"
proof -
  have "\<forall>l\<in>set (concat (map expo_lines es)). CHR 0x0A \<notin> set l" using assms expo_lines_ok by fastforce
  from split_on_lines [OF this]
  have "read_expo (expo_text es) = map read_sample (filter (\<lambda>l. l \<noteq> [] \<and> hd l \<noteq> CHR ''#'') (concat (map expo_lines es)))"
    by (simp add: read_expo_def expo_text_def)
  also have "\<dots> = map Some (samples es)"
    using assms
  proof (induction es)
    case (Cons e es)
    show ?case
    proof (cases e)
      case (Sample name v lbls)
      with Cons.prems have "line_text name v lbls \<noteq> []" "hd (line_text name v lbls) \<noteq> CHR ''#''" by (auto simp: line_text_def)
      with Cons Sample show ?thesis by (simp add: samples_def read_sample_line)
    qed (use Cons in \<open>simp add: samples_def\<close>)
  qed (simp add: samples_def)
  finally show ?thesis .
qed

subsection \<open>Numbers have no line breaks\<close>

lemma digit_not_newline: "list_all is_digit s \<Longrightarrow> CHR 0x0A \<notin> set s"
  by (auto simp: list_all_iff is_digit_def)

lemma no_newline_show_nat [simp]: "CHR 0x0A \<notin> set (show_nat n)"
  by (rule digit_not_newline [OF list_all_digit_show_nat])

lemma no_newline_show_int [simp]: "CHR 0x0A \<notin> set (show_int n)"
  by (simp add: show_int_def)

lemma no_newline_float_str [simp]: "CHR 0x0A \<notin> set (float_str x)"
proof -
  have r: "set (rstrip_zeros s) \<subseteq> set s" for s using set_dropWhileD by (fastforce simp: rstrip_zeros_def)
  have p: "CHR 0x0A \<notin> set (pad w n)" for w n by (rule digit_not_newline) simp
  have "CHR 0x0A \<notin> set (layout_digits ds k)" if "CHR 0x0A \<notin> set ds" for ds k
    using that p by (auto simp: layout_digits_def Let_def dest: in_set_takeD in_set_dropD)
  then have "CHR 0x0A \<notin> set (layout_digits (rstrip_zeros (show_nat n)) k)" for n k
    using r no_newline_show_nat by blast
  then show ?thesis by (cases x) (auto simp: Let_def split: prod.splits option.splits)
qed

end
