(* ===== verification/Http_Metrics.thy ===== *)
theory Http_Metrics
  imports Exposition "HOL-Library.AList" "HOL-Library.Product_Lexorder"
begin

text \<open>
  \<^verbatim>\<open>api/http_metrics.py\<close>: the request counters and latency histograms of the API, and the ASGI middleware that feeds
  them. A dictionary is an association list in insertion order; \<open>d[k] = v\<close> is \<open>AList.update\<close>. Seconds are binary64
  numbers. The lock makes each call of \<open>observe\<close> one step, so a run of the process is a list of calls.
\<close>

subsection \<open>Floats\<close>

text \<open>\<open>x <= y\<close> and \<open>x + y\<close> on binary64 numbers: the exact values are compared, the exact sum is rounded once.\<close>

definition float_frac :: "bool \<Rightarrow> int \<Rightarrow> int \<Rightarrow> int \<times> int" where
  "float_frac neg m e = (case scale 2 m 1 (- e) of (n, d) \<Rightarrow> (if neg then - n else n, d))"

fun float_le :: "pyfloat \<Rightarrow> pyfloat \<Rightarrow> bool" where
  "float_le (PFin s m e) (PFin s' m' e') =
     (case (float_frac s m e, float_frac s' m' e') of ((n, d), (n', d')) \<Rightarrow> n * d' \<le> n' * d)"
| "float_le PNan y = False"
| "float_le x PNan = False"
| "float_le (PInf s) y = (s \<or> y = PInf False)"
| "float_le x (PInf s) = (\<not> s)"

fun float_add :: "pyfloat \<Rightarrow> pyfloat \<Rightarrow> pyfloat" where
  "float_add (PFin s m e) (PFin s' m' e') =
     (case (float_frac s m e, float_frac s' m' e') of ((n, d), (n', d')) \<Rightarrow>
        let k = n * d' + n' * d in
        if k = 0 then PFin (s \<and> s') 0 0 else round64 (k < 0) \<bar>k\<bar> (d * d'))"
| "float_add PNan y = PNan"
| "float_add x PNan = PNan"
| "float_add (PInf s) (PInf s') = (if s = s' then PInf s else PNan)"
| "float_add (PInf s) y = PInf s"
| "float_add x (PInf s) = PInf s"

text \<open>A float literal of the source.\<close>

definition lit :: "string \<Rightarrow> pyfloat" where
  "lit s = (case float_literal s of Some x \<Rightarrow> x | None \<Rightarrow> PNan)"

subsection \<open>Histograms\<close>

record histogram =
  h_bounds :: "pyfloat list"
  h_counts :: "int list"
  h_total :: pyfloat
  h_n :: int

definition new_histogram :: "pyfloat list \<Rightarrow> histogram" where
  "new_histogram bounds = \<lparr>h_bounds = bounds, h_counts = replicate (length bounds) 0, h_total = lit ''0.0'', h_n = 0\<rparr>"

fun bump_first :: "pyfloat \<Rightarrow> pyfloat list \<Rightarrow> int list \<Rightarrow> int list" where
  "bump_first s (b # bs) (c # cs) = (if float_le s b then (c + 1) # cs else c # bump_first s bs cs)"
| "bump_first s bs cs = cs"

definition observe_seconds :: "pyfloat \<Rightarrow> histogram \<Rightarrow> histogram" where
  "observe_seconds s h =
     h\<lparr>h_counts := bump_first s (h_bounds h) (h_counts h), h_total := float_add (h_total h) s, h_n := h_n h + 1\<rparr>"

fun bucket_lines :: "string \<Rightarrow> labels \<Rightarrow> int \<Rightarrow> (pyfloat \<times> int) list \<Rightarrow> expo list" where
  "bucket_lines name pairs running [] = []"
| "bucket_lines name pairs running ((bound, cnt) # rest) =
     Sample (name @ ''_bucket'') (show_int (running + cnt)) (pairs @ [(''le'', float_str bound)]) #
     bucket_lines name pairs (running + cnt) rest"

definition render_histogram :: "string \<Rightarrow> labels \<Rightarrow> histogram \<Rightarrow> expo list" where
  "render_histogram name pairs h =
     bucket_lines name pairs 0 (zip (h_bounds h) (h_counts h)) @
     [Sample (name @ ''_bucket'') (show_int (h_n h)) (pairs @ [(''le'', ''+Inf'')]),
      Sample (name @ ''_sum'') (float_str (h_total h)) pairs,
      Sample (name @ ''_count'') (show_int (h_n h)) pairs]"

subsection \<open>Counters\<close>

definition UNRECORDED_HANDLERS :: "string list" where
  "UNRECORDED_HANDLERS = [''/metrics'']"

definition UNTIMED_HANDLERS :: "string list" where
  "UNTIMED_HANDLERS = [''/metrics'', ''/health'']"

definition DURATION_BUCKETS :: "pyfloat list" where
  "DURATION_BUCKETS = map lit [''0.1'', ''0.5'', ''1.0'']"

definition HIGHR_BUCKETS :: "pyfloat list" where
  "HIGHR_BUCKETS = map lit [''0.01'', ''0.025'', ''0.05'', ''0.075'', ''0.1'', ''0.25'', ''0.5'', ''0.75'', ''1.0'', ''1.5'',
     ''2.0'', ''2.5'', ''3.0'', ''3.5'', ''4.0'', ''4.5'', ''5.0'', ''7.5'', ''10.0'', ''30.0'', ''60.0'']"

definition METHODS :: "string list" where
  "METHODS = [''GET'', ''HEAD'', ''POST'', ''PUT'', ''PATCH'', ''DELETE'', ''OPTIONS'']"

record http_metrics =
  hm_requests :: "((string \<times> string \<times> string) \<times> int) list"
  hm_duration :: "((string \<times> string) \<times> histogram) list"
  hm_highr :: histogram

definition reset :: http_metrics where
  "reset = \<lparr>hm_requests = [], hm_duration = [], hm_highr = new_histogram HIGHR_BUCKETS\<rparr>"

definition fold_method :: "string \<Rightarrow> string" where
  "fold_method m = (if m \<in> set METHODS then m else ''OTHER'')"

definition status_class :: "int \<Rightarrow> string" where
  "status_class code = show_int (code div 100) @ ''xx''"

definition get_or :: "'v \<Rightarrow> ('k \<times> 'v) list \<Rightarrow> 'k \<Rightarrow> 'v" where
  "get_or v d k = (case map_of d k of None \<Rightarrow> v | Some x \<Rightarrow> x)"

definition observe :: "string \<Rightarrow> string \<Rightarrow> int \<Rightarrow> pyfloat \<Rightarrow> http_metrics \<Rightarrow> http_metrics" where
  "observe handler meth0 code s hm =
     (if handler \<in> set UNRECORDED_HANDLERS then hm
      else
        let meth = fold_method meth0; key = (handler, meth, status_class code);
            hm1 = hm\<lparr>hm_requests := AList.update key (get_or 0 (hm_requests hm) key + 1) (hm_requests hm)\<rparr>
        in if handler \<in> set UNTIMED_HANDLERS then hm1
           else
             let hist = get_or (new_histogram DURATION_BUCKETS) (hm_duration hm1) (handler, meth) in
             hm1\<lparr>hm_duration := AList.update (handler, meth) (observe_seconds s hist) (hm_duration hm1),
                 hm_highr := observe_seconds s (hm_highr hm1)\<rparr>)"

definition render_http :: "http_metrics \<Rightarrow> expo list" where
  "render_http hm =
     [Head ''http_requests_total'' ''counter'' ''Total number of requests by method, status and handler.''] @
     map (\<lambda>((handler, meth, status), n).
            Sample ''http_requests_total'' (show_int n) [(''handler'', handler), (''method'', meth), (''status'', status)])
       (sort_key fst (hm_requests hm)) @
     [Head ''http_request_duration_seconds'' ''histogram'' ''Latency with only few buckets by handler.''] @
     concat (map (\<lambda>((handler, meth), hist). render_histogram ''http_request_duration_seconds'' [(''handler'', handler), (''method'', meth)] hist)
       (sort_key fst (hm_duration hm))) @
     [Head ''http_request_duration_highr_seconds'' ''histogram'' ''Latency with many buckets but no API specific labels.''] @
     render_histogram ''http_request_duration_highr_seconds'' [] (hm_highr hm)"

subsection \<open>The middleware\<close>

text \<open>What the wrapped application does with one request: the messages it sends, each with the seconds since the start, and how it
  ends (a cancellation is no \<open>Exception\<close>). \<open>sc_route\<close> is the route template, \<open>None\<close> when no route matched.\<close>

datatype asgi_message = ResponseStart int | OtherMessage

datatype ending = Returned | Raised pyfloat | Cancelled

record scope =
  sc_type :: string
  sc_route :: "string option"
  sc_method :: string

record request =
  rq_scope :: scope
  rq_messages :: "(asgi_message \<times> pyfloat) list"
  rq_ending :: ending

definition record_request :: "scope \<Rightarrow> int \<Rightarrow> pyfloat \<Rightarrow> http_metrics \<Rightarrow> http_metrics" where
  "record_request sc code s hm = (case sc_route sc of None \<Rightarrow> hm | Some handler \<Rightarrow> observe handler (sc_method sc) code s hm)"

fun send_and_record :: "scope \<Rightarrow> bool \<times> http_metrics \<Rightarrow> asgi_message \<times> pyfloat \<Rightarrow> bool \<times> http_metrics" where
  "send_and_record sc (started, hm) (ResponseStart code, s) =
     (if started then (started, hm) else (True, record_request sc code s hm))"
| "send_and_record sc (started, hm) (OtherMessage, s) = (started, hm)"

definition middleware :: "request \<Rightarrow> http_metrics \<Rightarrow> http_metrics" where
  "middleware rq hm =
     (if sc_type (rq_scope rq) \<noteq> ''http'' then hm
      else
        case foldl (send_and_record (rq_scope rq)) (False, hm) (rq_messages rq) of
          (started, hm1) \<Rightarrow>
            (case rq_ending rq of
               Raised s \<Rightarrow> if started then hm1 else record_request (rq_scope rq) 500 s hm1
             | _ \<Rightarrow> hm1))"

subsection \<open>Each request is recorded once\<close>

text \<open>The reference: what one request adds. The first response start decides; without one, an exception counts as 500.\<close>

fun first_start :: "(asgi_message \<times> pyfloat) list \<Rightarrow> (int \<times> pyfloat) option" where
  "first_start [] = None"
| "first_start ((ResponseStart code, s) # ms) = Some (code, s)"
| "first_start ((OtherMessage, s) # ms) = first_start ms"

record answered =
  an_handler :: string
  an_method :: string
  an_status :: string
  an_seconds :: pyfloat

definition answered_of :: "request \<Rightarrow> answered option" where
  "answered_of rq =
     (let sc = rq_scope rq;
          code_s = (case first_start (rq_messages rq) of
                      Some cs \<Rightarrow> Some cs
                    | None \<Rightarrow> (case rq_ending rq of Raised s \<Rightarrow> Some (500, s) | _ \<Rightarrow> None))
      in case (code_s, sc_route sc) of
           (Some (code, s), Some handler) \<Rightarrow>
             if sc_type sc = ''http'' \<and> handler \<notin> set UNRECORDED_HANDLERS
             then Some \<lparr>an_handler = handler, an_method = fold_method (sc_method sc), an_status = status_class code, an_seconds = s\<rparr>
             else None
         | _ \<Rightarrow> None)"

definition serve :: "request list \<Rightarrow> http_metrics" where
  "serve rqs = foldl (\<lambda>hm rq. middleware rq hm) reset rqs"

definition timed :: "answered \<Rightarrow> bool" where
  "timed a \<longleftrightarrow> an_handler a \<notin> set UNTIMED_HANDLERS"

definition count_answer :: "answered \<Rightarrow> http_metrics \<Rightarrow> http_metrics" where
  "count_answer a hm =
     (let key = (an_handler a, an_method a, an_status a);
          hm1 = hm\<lparr>hm_requests := AList.update key (get_or 0 (hm_requests hm) key + 1) (hm_requests hm)\<rparr>;
          hist = get_or (new_histogram DURATION_BUCKETS) (hm_duration hm) (an_handler a, an_method a)
      in if timed a
         then hm1\<lparr>hm_duration := AList.update (an_handler a, an_method a) (observe_seconds (an_seconds a) hist) (hm_duration hm),
                  hm_highr := observe_seconds (an_seconds a) (hm_highr hm)\<rparr>
         else hm1)"

lemma send_all:
  "foldl (send_and_record sc) (started, hm) ms =
     (if started then (True, hm)
      else case first_start ms of None \<Rightarrow> (False, hm) | Some (code, s) \<Rightarrow> (True, record_request sc code s hm))"
proof (induction ms arbitrary: started hm)
  case (Cons m ms)
  obtain msg s where m: "m = (msg, s)" by (cases m)
  show ?case using Cons.IH by (cases msg) (auto simp: m split: option.splits)
qed auto

lemma observe_counted:
  "observe handler meth code s hm =
     (if handler \<in> set UNRECORDED_HANDLERS then hm
      else count_answer \<lparr>an_handler = handler, an_method = fold_method meth, an_status = status_class code, an_seconds = s\<rparr> hm)"
  by (simp add: observe_def count_answer_def timed_def Let_def)

lemma middleware_counted:
  "middleware rq hm = (case answered_of rq of None \<Rightarrow> hm | Some a \<Rightarrow> count_answer a hm)"
  by (cases "first_start (rq_messages rq)"; cases "rq_ending rq"; cases "sc_route (rq_scope rq)")
    (auto simp: middleware_def send_all answered_of_def record_request_def observe_counted Let_def split: option.splits)

lemma serve_snoc: "serve (rqs @ [rq]) = middleware rq (serve rqs)"
  by (simp add: serve_def)

definition answers :: "request list \<Rightarrow> answered list" where
  "answers rqs = List.map_filter answered_of rqs"

lemma answers_snoc: "answers (rqs @ [rq]) = answers rqs @ (case answered_of rq of None \<Rightarrow> [] | Some a \<Rightarrow> [a])"
  by (simp add: answers_def List.map_filter_def split: option.splits)

lemma serve_counts: "serve rqs = foldl (\<lambda>hm a. count_answer a hm) reset (answers rqs)"
  by (induction rqs rule: rev_induct) (simp_all add: serve_snoc answers_snoc middleware_counted serve_def answers_def List.map_filter_def split: option.splits)

lemma map_of_AList_update: "map_of (AList.update k v d) k' = (if k' = k then Some v else map_of d k')"
  by (simp add: update_conv')

lemma count_requests:
  "map_of (hm_requests (foldl (\<lambda>hm a. count_answer a hm) reset as)) (h, m, c) =
     (let n = length (filter (\<lambda>a. an_handler a = h \<and> an_method a = m \<and> an_status a = c) as) in
      if n = 0 then None else Some (int n))"
proof (induction as rule: rev_induct)
  case (snoc a as)
  then show ?case
    by (simp add: count_answer_def map_of_AList_update get_or_def Let_def)
qed (simp add: reset_def)

text \<open>C36: Every request is counted exactly once. After any run of the API the request counter of a handler, method and status
  class is the number of requests whose first response start - or the exception, when there was none - had that class; a request
  that matches no route, another protocol, \<open>/metrics\<close> and a cancelled request without a response are not counted.\<close>

theorem requests_counted_once:
  "map_of (hm_requests (serve rqs)) (h, m, c) =
     (let n = length (filter (\<lambda>rq. \<exists>s. answered_of rq = Some \<lparr>an_handler = h, an_method = m, an_status = c, an_seconds = s\<rparr>) rqs) in
      if n = 0 then None else Some (int n))"
proof -
  have "length (filter (\<lambda>a. an_handler a = h \<and> an_method a = m \<and> an_status a = c) (answers rqs)) =
      length (filter (\<lambda>rq. \<exists>s. answered_of rq = Some \<lparr>an_handler = h, an_method = m, an_status = c, an_seconds = s\<rparr>) rqs)"
  proof (induction rqs)
    case (Cons rq rqs)
    have "(an_handler a = h \<and> an_method a = m \<and> an_status a = c) \<longleftrightarrow>
        (\<exists>s. a = \<lparr>an_handler = h, an_method = m, an_status = c, an_seconds = s\<rparr>)" for a
      by (cases a) auto
    with Cons show ?case by (cases "answered_of rq") (auto simp: answers_def List.map_filter_def)
  qed (simp add: answers_def List.map_filter_def)
  then show ?thesis by (simp add: serve_counts count_requests)
qed

subsection \<open>Buckets\<close>

lemma float_frac_pos: "0 < snd (float_frac s m e)"
  by (simp add: float_frac_def scale_def)

lemma float_le_trans: "float_le x y \<Longrightarrow> float_le y z \<Longrightarrow> float_le x z"
proof (cases "\<exists>s m e s' m' e' s'' m'' e''. x = PFin s m e \<and> y = PFin s' m' e' \<and> z = PFin s'' m'' e''")
  case True
  assume le: "float_le x y" "float_le y z"
  from True obtain s m e s' m' e' s'' m'' e'' where xyz: "x = PFin s m e" "y = PFin s' m' e'" "z = PFin s'' m'' e''" by blast
  obtain n d n' d' n'' d'' where f: "float_frac s m e = (n, d)" "float_frac s' m' e' = (n', d')" "float_frac s'' m'' e'' = (n'', d'')"
    by (metis surj_pair)
  have pos: "0 < d" "0 < d'" "0 < d''"
    using float_frac_pos [of s m e] float_frac_pos [of s' m' e'] float_frac_pos [of s'' m'' e''] by (simp_all add: f)
  have 1: "n * d' \<le> n' * d" and 2: "n' * d'' \<le> n'' * d'" using le by (simp_all add: xyz f)
  have "(n * d'') * d' = (n * d') * d''" by simp
  also have "\<dots> \<le> (n' * d) * d''" using mult_right_mono [OF 1, of d''] pos by simp
  also have "\<dots> = (n' * d'') * d" by simp
  also have "\<dots> \<le> (n'' * d') * d" using mult_right_mono [OF 2, of d] pos by simp
  also have "\<dots> = (n'' * d) * d'" by simp
  finally have "n * d'' \<le> n'' * d" using pos mult_right_le_imp_le by blast
  then show ?thesis by (simp add: xyz f)
next
  case False
  assume "float_le x y" "float_le y z"
  with False show ?thesis by (cases x; cases y; cases z) auto
qed

definition rising :: "pyfloat list \<Rightarrow> bool" where
  "rising bs \<longleftrightarrow> sorted_wrt float_le bs"

lemma rising_reach:
  assumes "rising bs" "i < length bs"
  shows "(\<exists>j\<le>i. float_le s (bs ! j)) \<longleftrightarrow> float_le s (bs ! i)"
proof
  assume "\<exists>j\<le>i. float_le s (bs ! j)"
  then obtain j where j: "j \<le> i" "float_le s (bs ! j)" by blast
  show "float_le s (bs ! i)"
  proof (cases "j = i")
    case False
    with j(1) assms(1,2) have "float_le (bs ! j) (bs ! i)" by (simp add: rising_def sorted_wrt_iff_nth_less)
    with j(2) show ?thesis by (rule float_le_trans)
  qed (use j in simp)
qed blast

lemma bump_first_prefix:
  assumes "length cs = length bs" "i < length bs"
  shows "sum_list (take (Suc i) (bump_first s bs cs)) = sum_list (take (Suc i) cs) + (if \<exists>j\<le>i. float_le s (bs ! j) then 1 else 0)"
  using assms
proof (induction s bs cs arbitrary: i rule: bump_first.induct)
  case (1 s b bs c cs)
  show ?case
  proof (cases i)
    case 0
    then show ?thesis by simp
  next
    case (Suc k)
    have "(\<exists>j\<le>Suc k. float_le s ((b # bs) ! j)) \<longleftrightarrow> float_le s b \<or> (\<exists>j\<le>k. float_le s (bs ! j))"
      by (simp add: Ex_less_Suc2 flip: less_Suc_eq_le)
    then show ?thesis using 1 Suc by simp
  qed
qed auto

lemma bump_first_length: "length (bump_first s bs cs) = length cs"
  by (induction s bs cs rule: bump_first.induct) auto

definition hist_of :: "pyfloat list \<Rightarrow> pyfloat list \<Rightarrow> histogram" where
  "hist_of bounds ss = foldl (\<lambda>h s. observe_seconds s h) (new_histogram bounds) ss"

lemma hist_of_fields:
  "h_bounds (hist_of bounds ss) = bounds" "h_n (hist_of bounds ss) = int (length ss)" "length (h_counts (hist_of bounds ss)) = length bounds"
  by (induction ss rule: rev_induct) (simp_all add: hist_of_def new_histogram_def observe_seconds_def bump_first_length)

lemma hist_of_prefix:
  assumes "rising bounds" "i < length bounds"
  shows "sum_list (take (Suc i) (h_counts (hist_of bounds ss))) = int (length (filter (\<lambda>s. float_le s (bounds ! i)) ss))"
proof (induction ss rule: rev_induct)
  case Nil
  then show ?case by (simp add: hist_of_def new_histogram_def sum_list_replicate take_replicate)
next
  case (snoc s ss)
  have "hist_of bounds (ss @ [s]) = observe_seconds s (hist_of bounds ss)" by (simp add: hist_of_def)
  with snoc show ?case
    using assms bump_first_prefix [of "h_counts (hist_of bounds ss)" bounds i s] rising_reach [OF assms]
    by (simp add: observe_seconds_def hist_of_fields)
qed

lemma count_durations:
  "map_of (hm_duration (foldl (\<lambda>hm a. count_answer a hm) reset as)) (h, m) =
     (let ss = map an_seconds (filter (\<lambda>a. timed a \<and> an_handler a = h \<and> an_method a = m) as) in
      if ss = [] then None else Some (hist_of DURATION_BUCKETS ss))"
proof (induction as rule: rev_induct)
  case (snoc a as)
  have "hist_of bs (ss @ [s]) = observe_seconds s (hist_of bs ss)" "hist_of bs [] = new_histogram bs" for bs ss s
    by (simp_all add: hist_of_def)
  moreover define hm where "hm = foldl (\<lambda>hm a. count_answer a hm) reset as"
  moreover have "map_of (hm_duration (count_answer a hm)) (h, m) =
      (if timed a \<and> an_handler a = h \<and> an_method a = m
       then Some (observe_seconds (an_seconds a) (get_or (new_histogram DURATION_BUCKETS) (hm_duration hm) (h, m)))
       else map_of (hm_duration hm) (h, m))"
    by (auto simp: count_answer_def map_of_AList_update Let_def)
  ultimately show ?case
    using snoc by (simp add: get_or_def Let_def flip: hm_def)
qed (simp add: reset_def)

lemma count_highr:
  "hm_highr (foldl (\<lambda>hm a. count_answer a hm) reset as) = hist_of HIGHR_BUCKETS (map an_seconds (filter timed as))"
  by (induction as rule: rev_induct) (simp_all add: reset_def hist_of_def count_answer_def Let_def)

lemma bucket_lines_nth:
  "i < length zs \<Longrightarrow> bucket_lines name pairs r zs ! i =
     Sample (name @ ''_bucket'') (show_int (r + sum_list (map snd (take (Suc i) zs)))) (pairs @ [(''le'', float_str (fst (zs ! i)))])"
proof (induction name pairs r zs arbitrary: i rule: bucket_lines.induct)
  case (2 name pairs running bound cnt rest)
  then show ?case by (cases i) (simp_all add: add.assoc)
qed simp

lemma bucket_lines_length: "length (bucket_lines name pairs r zs) = length zs"
  by (induction name pairs r zs rule: bucket_lines.induct) simp_all

lemma rendered_bucket:
  assumes "rising bounds" "i < length bounds"
  shows "render_histogram name pairs (hist_of bounds ss) ! i =
    Sample (name @ ''_bucket'') (show_int (int (length (filter (\<lambda>s. float_le s (bounds ! i)) ss)))) (pairs @ [(''le'', float_str (bounds ! i))])"
proof -
  let ?zs = "zip (h_bounds (hist_of bounds ss)) (h_counts (hist_of bounds ss))"
  have l: "i < length ?zs" using assms(2) by (simp add: hist_of_fields)
  have "map snd (take (Suc i) ?zs) = take (Suc i) (h_counts (hist_of bounds ss))"
    by (simp add: hist_of_fields flip: take_map)
  then have "bucket_lines name pairs 0 ?zs ! i =
      Sample (name @ ''_bucket'') (show_int (int (length (filter (\<lambda>s. float_le s (bounds ! i)) ss)))) (pairs @ [(''le'', float_str (bounds ! i))])"
    using bucket_lines_nth [OF l] hist_of_prefix [OF assms] assms(2) by (simp add: hist_of_fields)
  then show ?thesis
    using l by (simp add: render_histogram_def Let_def nth_append bucket_lines_length)
qed

lemma buckets_rising: "rising DURATION_BUCKETS" "rising HIGHR_BUCKETS"
  unfolding rising_def by code_simp+

definition coarse_seconds :: "request list \<Rightarrow> string \<Rightarrow> string \<Rightarrow> pyfloat list" where
  "coarse_seconds rqs h m = map an_seconds (filter (\<lambda>a. timed a \<and> an_handler a = h \<and> an_method a = m) (answers rqs))"

definition fine_seconds :: "request list \<Rightarrow> pyfloat list" where
  "fine_seconds rqs = map an_seconds (filter timed (answers rqs))"

definition within :: "pyfloat \<Rightarrow> pyfloat list \<Rightarrow> int" where
  "within b ss = int (length (filter (\<lambda>s. float_le s b) ss))"

text \<open>The lines of one histogram, said by the seconds of the requests in it: the cumulative buckets, the bucket of all, the sum and the count.\<close>

definition latency_lines :: "string \<Rightarrow> labels \<Rightarrow> pyfloat list \<Rightarrow> pyfloat list \<Rightarrow> expo list" where
  "latency_lines name lbls bounds ss =
     map (\<lambda>b. Sample (name @ ''_bucket'') (show_int (within b ss)) (lbls @ [(''le'', float_str b)])) bounds @
     [Sample (name @ ''_bucket'') (show_int (int (length ss))) (lbls @ [(''le'', ''+Inf'')]),
      Sample (name @ ''_sum'') (float_str (foldl float_add (lit ''0.0'') ss)) lbls,
      Sample (name @ ''_count'') (show_int (int (length ss))) lbls]"

text \<open>The lines of a document that belong to a histogram with these labels.\<close>

fun histogram_line :: "string \<Rightarrow> labels \<Rightarrow> expo \<Rightarrow> bool" where
  "histogram_line name lbls (Head n kind help) = False"
| "histogram_line name lbls (Sample n v ls) = (n \<in> {name @ ''_bucket'', name @ ''_sum'', name @ ''_count''} \<and> prefix lbls ls)"

lemma hist_of_total: "h_total (hist_of bounds ss) = foldl float_add (lit ''0.0'') ss"
  by (induction ss rule: rev_induct) (simp_all add: hist_of_def new_histogram_def observe_seconds_def)

lemma rendered_lines:
  assumes "rising bounds"
  shows "render_histogram name pairs (hist_of bounds ss) = latency_lines name pairs bounds ss"
proof -
  let ?zs = "zip (h_bounds (hist_of bounds ss)) (h_counts (hist_of bounds ss))"
  have "bucket_lines name pairs 0 ?zs = map (\<lambda>b. Sample (name @ ''_bucket'') (show_int (within b ss)) (pairs @ [(''le'', float_str b)])) bounds"
  proof (rule nth_equalityI)
    fix i assume i: "i < length (bucket_lines name pairs 0 ?zs)"
    then have "i < length bounds" by (simp add: bucket_lines_length hist_of_fields)
    with rendered_bucket [OF assms, of i name pairs ss] i
    show "bucket_lines name pairs 0 ?zs ! i = map (\<lambda>b. Sample (name @ ''_bucket'') (show_int (within b ss)) (pairs @ [(''le'', float_str b)])) bounds ! i"
      by (simp add: render_histogram_def nth_append within_def)
  qed (simp add: bucket_lines_length hist_of_fields)
  then show ?thesis by (simp add: render_histogram_def latency_lines_def hist_of_fields hist_of_total)
qed

lemma histogram_lines_own:
  "filter (histogram_line name lbls) (latency_lines name pairs bounds ss) = (if prefix lbls pairs then latency_lines name pairs bounds ss else [])"
  if "\<forall>x. prefix lbls (pairs @ x) \<longleftrightarrow> prefix lbls pairs"
proof -
  have "histogram_line name lbls e \<longleftrightarrow> prefix lbls pairs" if "e \<in> set (latency_lines name pairs bounds ss)" for e
    using that \<open>\<forall>x. prefix lbls (pairs @ x) \<longleftrightarrow> prefix lbls pairs\<close> by (auto simp: latency_lines_def)
  then show ?thesis by (auto simp: filter_id_conv filter_empty_conv)
qed

lemma histogram_lines_other:
  "{name @ ''_bucket'', name @ ''_sum'', name @ ''_count''} \<inter> {name' @ ''_bucket'', name' @ ''_sum'', name' @ ''_count''} = {} \<Longrightarrow>
     filter (histogram_line name lbls) (latency_lines name' pairs bounds ss) = []"
  by (auto simp: latency_lines_def filter_empty_conv)

lemma concat_at_key:
  assumes "distinct (map fst xs)"
  shows "concat (map (\<lambda>(k, v). if k = k0 then f v else []) xs) = (case map_of xs k0 of None \<Rightarrow> [] | Some v \<Rightarrow> f v)"
  using assms
proof (induction xs)
  case (Cons x xs)
  have none: "k0 \<notin> fst ` set xs \<Longrightarrow> concat (map (\<lambda>(k, v). if k = k0 then f v else []) xs) = []" by (force simp: concat_eq_Nil_conv)
  show ?case
  proof (cases x)
    case (Pair k v)
    with Cons none show ?thesis by auto
  qed
qed simp

lemma durations_distinct: "distinct (map fst (hm_duration (foldl (\<lambda>hm a. count_answer a hm) reset as)))"
  by (induction as rule: rev_induct) (simp_all add: reset_def count_answer_def Let_def distinct_update)

lemma sort_key_map_of:
  assumes "distinct (map fst xs)"
  shows "distinct (map fst (sort_key fst xs))" "map_of (sort_key fst xs) = map_of xs"
proof -
  show d: "distinct (map fst (sort_key fst xs))" using assms by (simp add: distinct_map)
  show "map_of (sort_key fst xs) = map_of xs"
    by (rule map_of_eqI) (use d assms in \<open>auto simp: map_of_eq_Some_iff\<close>)
qed

text \<open>C37: The latency histograms are exact. After any run of the API the document has, for a handler and a method, the lines of one histogram under
  exactly these two labels - one bucket for each bound, with the number of timed requests of that handler and method that took at most that long, then
  the bucket \<^verbatim>\<open>+Inf\<close> and the count with the number of all of them, however long, and their sum - and no such line when there was none; and one
  histogram without labels over all timed requests on the finer bounds. Each line occurs once and in this order.\<close>

theorem latency_buckets_exact:
  "filter (histogram_line ''http_request_duration_seconds'' [(''handler'', h), (''method'', m)]) (render_http (serve rqs)) =
     (if coarse_seconds rqs h m = [] then []
      else latency_lines ''http_request_duration_seconds'' [(''handler'', h), (''method'', m)] DURATION_BUCKETS (coarse_seconds rqs h m)) \<and>
   filter (histogram_line ''http_request_duration_highr_seconds'' []) (render_http (serve rqs)) =
     latency_lines ''http_request_duration_highr_seconds'' [] HIGHR_BUCKETS (fine_seconds rqs)"
proof
  let ?hm = "serve rqs" and ?name = "''http_request_duration_seconds''" and ?fine = "''http_request_duration_highr_seconds''"
  let ?lbls = "[(''handler'', h), (''method'', m)]"
  have fine: "render_histogram ?fine [] (hm_highr ?hm) = latency_lines ?fine [] HIGHR_BUCKETS (fine_seconds rqs)"
    by (simp add: serve_counts count_highr fine_seconds_def rendered_lines [OF buckets_rising(2)])
  have coarse: "render_histogram ?name pairs v = latency_lines ?name pairs DURATION_BUCKETS (coarse_seconds rqs h' m')"
    if "((h', m'), v) \<in> set (hm_duration ?hm)" for h' m' v pairs
  proof -
    have "map_of (hm_duration ?hm) (h', m') = Some v" using that durations_distinct [of "answers rqs"] by (simp add: serve_counts)
    then have "v = hist_of DURATION_BUCKETS (coarse_seconds rqs h' m')"
      by (auto simp: serve_counts count_durations coarse_seconds_def Let_def split: if_splits)
    then show ?thesis by (simp add: rendered_lines [OF buckets_rising(1)])
  qed
  note names = histogram_lines_other [of ?name ?fine] histogram_lines_other [of ?fine ?name]
  have reqs: "filter (histogram_line n ls) (map (\<lambda>x. Sample ''http_requests_total'' (f x) (g x)) xs) = []" if "n \<in> {?name, ?fine}"
    for n ls f g and xs :: "((string \<times> string \<times> string) \<times> int) list"
    using that by (auto simp: filter_empty_conv)
  let ?all = "sort_key fst (hm_duration ?hm)"
  have at: "filter (histogram_line ?name ?lbls) (case kv of ((h', m'), v) \<Rightarrow> render_histogram ?name [(''handler'', h'), (''method'', m')] v) =
      (case kv of (k, v) \<Rightarrow> if k = (h, m) then latency_lines ?name ?lbls DURATION_BUCKETS (coarse_seconds rqs h m) else [])"
    if "kv \<in> set ?all" for kv
  proof -
    obtain h' m' v where kv: "kv = ((h', m'), v)" by (metis surj_pair)
    with that have "render_histogram ?name [(''handler'', h'), (''method'', m')] v =
        latency_lines ?name [(''handler'', h'), (''method'', m')] DURATION_BUCKETS (coarse_seconds rqs h' m')"
      by (intro coarse) simp
    then show ?thesis by (auto simp: kv histogram_lines_own)
  qed
  have "filter (histogram_line ?name ?lbls) (render_http ?hm) =
      concat (map (\<lambda>kv. filter (histogram_line ?name ?lbls) (case kv of ((h', m'), v) \<Rightarrow> render_histogram ?name [(''handler'', h'), (''method'', m')] v)) ?all)"
    by (simp add: render_http_def fine names filter_concat comp_def reqs split_def)
  also have "\<dots> = concat (map (\<lambda>(k, v). if k = (h, m) then latency_lines ?name ?lbls DURATION_BUCKETS (coarse_seconds rqs h m) else []) ?all)"
    using at by (intro arg_cong [where f = concat] map_cong) auto
  also have "\<dots> = (case map_of (hm_duration ?hm) (h, m) of None \<Rightarrow> []
      | Some v \<Rightarrow> latency_lines ?name ?lbls DURATION_BUCKETS (coarse_seconds rqs h m))"
    using sort_key_map_of [OF durations_distinct [of "answers rqs"]] by (simp add: concat_at_key serve_counts)
  also have "\<dots> = (if coarse_seconds rqs h m = [] then [] else latency_lines ?name ?lbls DURATION_BUCKETS (coarse_seconds rqs h m))"
    by (auto simp: serve_counts count_durations coarse_seconds_def Let_def)
  finally show "filter (histogram_line ?name ?lbls) (render_http ?hm) = \<dots>" .
  have "filter (histogram_line ?fine []) (render_http ?hm) = filter (histogram_line ?fine []) (render_histogram ?fine [] (hm_highr ?hm))"
    using coarse names by (auto simp: render_http_def filter_concat filter_empty_conv concat_eq_Nil_conv comp_def)
  then show "filter (histogram_line ?fine []) (render_http ?hm) = latency_lines ?fine [] HIGHR_BUCKETS (fine_seconds rqs)"
    by (simp add: fine histogram_lines_own)
qed

definition sample_request :: "string \<Rightarrow> string \<Rightarrow> request" where
  "sample_request route secs_text =
     \<lparr>rq_scope = \<lparr>sc_type = ''http'', sc_route = Some route, sc_method = ''GET''\<rparr>,
      rq_messages = [(ResponseStart 200, lit secs_text), (OtherMessage, lit ''3.0'')], rq_ending = Returned\<rparr>"

lemma sample_coarse:
  "coarse_seconds [sample_request ''/flex/ops/check'' ''0.3'', sample_request ''/health'' ''0.2''] ''/flex/ops/check'' ''GET'' = [lit ''0.3'']"
  by (simp add: coarse_seconds_def answers_def List.map_filter_def answered_of_def sample_request_def Let_def timed_def fold_method_def METHODS_def
      UNRECORDED_HANDLERS_def UNTIMED_HANDLERS_def)

theorem latency_buckets_exact_witness:
  "Sample ''http_request_duration_seconds_bucket'' ''1'' [(''handler'', ''/flex/ops/check''), (''method'', ''GET''), (''le'', ''+Inf'')]
     \<in> set (render_http (serve [sample_request ''/flex/ops/check'' ''0.3'', sample_request ''/health'' ''0.2'']))"
proof -
  let ?rqs = "[sample_request ''/flex/ops/check'' ''0.3'', sample_request ''/health'' ''0.2'']"
  have "show_int 1 = ''1''" by code_simp
  then have "Sample ''http_request_duration_seconds_bucket'' ''1'' [(''handler'', ''/flex/ops/check''), (''method'', ''GET''), (''le'', ''+Inf'')]
      \<in> set (filter (histogram_line ''http_request_duration_seconds'' [(''handler'', ''/flex/ops/check''), (''method'', ''GET'')]) (render_http (serve ?rqs)))"
    unfolding latency_buckets_exact [THEN conjunct1] by (simp add: sample_coarse latency_lines_def)
  then show ?thesis by simp
qed

text \<open>The number of series is bounded by the route templates, not by the requests: a key has a known method and the class of a status.\<close>

lemma series_bounded:
  assumes "map_of (hm_requests (serve rqs)) (h, m, c) = Some n"
  shows "h \<in> {r. \<exists>rq\<in>set rqs. sc_route (rq_scope rq) = Some r}" "m \<in> insert ''OTHER'' (set METHODS)" "\<exists>code. c = status_class code"
proof -
  have "\<exists>a. a \<in> set (answers rqs) \<and> an_handler a = h \<and> an_method a = m \<and> an_status a = c"
    using assms unfolding serve_counts count_requests by (auto simp: Let_def filter_empty_conv split: if_splits)
  then obtain a rq where a: "rq \<in> set rqs" "answered_of rq = Some a" "an_handler a = h" "an_method a = m" "an_status a = c"
    by (auto simp: answers_def mem_map_filter)
  from a(2) obtain r code s where "sc_route (rq_scope rq) = Some r"
    "a = \<lparr>an_handler = r, an_method = fold_method (sc_method (rq_scope rq)), an_status = status_class code, an_seconds = s\<rparr>"
    by (auto simp: answered_of_def Let_def split: option.splits if_splits)
  with a show "h \<in> {r. \<exists>rq\<in>set rqs. sc_route (rq_scope rq) = Some r}" "m \<in> insert ''OTHER'' (set METHODS)" "\<exists>code. c = status_class code"
    by (auto simp: fold_method_def)
qed

lemma bucket_lines_ok:
  assumes "e \<in> set (bucket_lines name pairs r zs)" "expo_ok (Sample (name @ ''_bucket'') [] pairs)"
  shows "expo_ok e"
  using assms by (induction name pairs r zs rule: bucket_lines.induct) auto

lemma render_histogram_ok:
  assumes "name \<noteq> []" "hd name \<noteq> CHR ''#''" "set name \<inter> {CHR ''{'', CHR '' '', CHR 0x0A} = {}"
    "\<forall>(k, x)\<in>set pairs. set k \<inter> {CHR ''='', CHR 0x0A} = {}" "e \<in> set (render_histogram name pairs h)"
  shows "expo_ok e"
proof -
  have "expo_ok (Sample (name @ ''_bucket'') [] pairs)" using assms(1-4) by auto
  then show ?thesis
    using assms(5) bucket_lines_ok assms(1-4) by (auto simp: render_histogram_def)
qed

lemma render_http_ok: "\<forall>e\<in>set (render_http hm). expo_ok e"
proof -
  have "expo_ok e" if "e \<in> set (render_histogram ''http_request_duration_seconds'' [(''handler'', h), (''method'', m)] hist)" for h m hist e
    by (rule render_histogram_ok [OF _ _ _ _ that]) simp_all
  moreover have "expo_ok e" if "e \<in> set (render_histogram ''http_request_duration_highr_seconds'' [] hist)" for hist e
    by (rule render_histogram_ok [OF _ _ _ _ that]) simp_all
  ultimately show ?thesis by (auto simp: render_http_def)
qed

end
