(* ===== verification/Ops_Metrics.thy ===== *)
theory Ops_Metrics
  imports Self_Check Http_Metrics
begin

text \<open>
  \<^verbatim>\<open>api/metrics.py\<close>: the snapshot of queue, freshness, plan, data, coverage, heartbeat and tokens, and the Prometheus document
  written from it. Time stamps are the binary64 numbers \<open>datetime.timestamp\<close> gives.
\<close>

subsection \<open>The snapshot\<close>

record planned_slot =
  pl_slot :: string
  pl_last :: "instant option"
  pl_next :: "instant option"

record snapshot =
  sn_version :: string
  sn_freshness :: "freshness list"
  sn_last_jobs :: "job list"
  sn_counts :: "(string \<times> int) list"
  sn_heartbeat :: "heartbeat option"
  sn_data :: "(string \<times> instant option) list"
  sn_coverage :: "coverage option"
  sn_planned :: "planned_slot list"
  sn_tokens :: "(string \<times> bool) list"
  sn_token_age_seconds :: "int option"

definition JOB_STATUSES :: "string list" where
  "JOB_STATUSES = [''pending'', ''running'', ''done'', ''failed'']"

definition ts_text :: "instant \<Rightarrow> string" where
  "ts_text t = float_str (round64 (t < 0) \<bar>t\<bar> 1000000)"

text \<open>\<open>SELECT status, count(*) ... GROUP BY status\<close> and \<open>DISTINCT ON (kind) ... ORDER BY kind, id DESC\<close>.\<close>

definition status_counts :: "queue \<Rightarrow> (string \<times> int) list" where
  "status_counts q =
     (let sts = map (status_text \<circ> jstat) (rows q) in map (\<lambda>st. (st, int (count_list sts st))) (remdups sts))"

definition last_jobs :: "queue \<Rightarrow> job list" where
  "last_jobs q = List.map_filter (latest_job q) (sort (remdups (map jkind (rows q))))"

definition planned_slot_of :: "tzdb \<Rightarrow> dict \<Rightarrow> instant \<Rightarrow> string \<Rightarrow> py_error + planned_slot option" where
  "planned_slot_of db cfg now slot =
     bind_err (slot_cron cfg slot) (\<lambda>cron.
     if cron = [] then Inr None
     else
       bind_err (next_fires db cron now 1 14 (schedule_timezone cfg)) (\<lambda>upcoming.
       bind_err (previous_fire db cron now 14 (schedule_timezone cfg)) (\<lambda>last_o.
       Inr (Some \<lparr>pl_slot = slot, pl_last = last_o, pl_next = (case upcoming of [] \<Rightarrow> None | t # _ \<Rightarrow> Some t)\<rparr>))))"

text \<open>The reads outside the queue tables: a table whose read failed is left out, a failed coverage read is \<open>None\<close>.\<close>

record metric_reads =
  mr_data :: "string \<Rightarrow> py_error + instant option"
  mr_coverage :: "py_error + coverage"

definition data_reads :: "(string \<Rightarrow> py_error + instant option) \<Rightarrow> (string \<times> instant option) list" where
  "data_reads rd = List.map_filter (\<lambda>t. case rd t of Inr d \<Rightarrow> Some (t, d) | Inl _ \<Rightarrow> None) DATA_TABLES"

definition collect_metrics ::
  "string \<Rightarrow> tzdb \<Rightarrow> env \<Rightarrow> dict \<Rightarrow> metric_reads \<Rightarrow> instant \<Rightarrow> queue \<Rightarrow> freshness_table \<Rightarrow> heartbeat list \<Rightarrow> py_error + snapshot" where
  "collect_metrics version db env cfg r now q fresh hbs =
     bind_err (collect_missed (planned_slot_of db cfg now) (map fst SLOT_KIND)) (\<lambda>planned.
     case resolve_flex_tokens env of (h, s, _) \<Rightarrow>
     Inr \<lparr>sn_version = version, sn_freshness = sort_key dimension fresh, sn_last_jobs = last_jobs q, sn_counts = status_counts q,
          sn_heartbeat = newest_heartbeat hbs, sn_data = data_reads (mr_data r),
          sn_coverage = (case mr_coverage r of Inr c \<Rightarrow> Some c | Inl _ \<Rightarrow> None), sn_planned = planned,
          sn_tokens = [(''host'', h \<noteq> []), (''secondary'', s \<noteq> [])],
          sn_token_age_seconds = map_option (\<lambda>d. d * 86400) (snd (flex_tokens_issued_at env now))\<rparr>)"

subsection \<open>The document\<close>

definition gauge :: "string \<Rightarrow> string \<Rightarrow> expo" where
  "gauge name help = Head name ''gauge'' help"

text \<open>A sample that is written only for a value that is there.\<close>

definition when_some :: "string \<Rightarrow> labels \<Rightarrow> string option \<Rightarrow> expo list" where
  "when_some name lbls v = (case v of None \<Rightarrow> [] | Some x \<Rightarrow> [Sample name x lbls])"

definition zero_one :: "bool \<Rightarrow> string" where
  "zero_one b = (if b then ''1'' else ''0'')"

definition info_part :: "snapshot \<Rightarrow> expo list" where
  "info_part sn = [gauge ''bifrost_flex_plugin_info'' ''Flex Query plugin version.'',
     Sample ''bifrost_flex_plugin_info'' ''1'' [(''version'', sn_version sn)]]"

definition freshness_row_part :: "freshness \<Rightarrow> expo list" where
  "freshness_row_part r =
     (let k = [(''kind'', dimension r)] in
      when_some ''bifrost_flex_ingest_last_success_timestamp_seconds'' k (map_option ts_text (latest_ts r)) @
      when_some ''bifrost_flex_ingest_last_attempt_ok'' k (map_option zero_one (last_ok r)) @
      when_some ''bifrost_flex_ingest_last_processed_rows'' k (map_option show_int (processed_rows r)) @
      when_some ''bifrost_flex_ingest_last_new_rows'' k (map_option show_int (new_rows r)))"

definition freshness_part :: "snapshot \<Rightarrow> expo list" where
  "freshness_part sn =
     [gauge ''bifrost_flex_ingest_last_success_timestamp_seconds'' ''When this kind last completed a run.'',
      gauge ''bifrost_flex_ingest_last_attempt_ok'' ''1 if the most recent attempt of this kind succeeded.'',
      gauge ''bifrost_flex_ingest_last_processed_rows'' ''Rows upserted by the last successful run.'',
      gauge ''bifrost_flex_ingest_last_new_rows'' ''Rows the last successful run added that did not exist before.''] @
     concat (map freshness_row_part (sn_freshness sn))"

definition last_job_row_part :: "job \<Rightarrow> expo list" where
  "last_job_row_part j =
     map (\<lambda>st. Sample ''bifrost_flex_ingest_last_job_status'' (zero_one (status_text (jstat j) = st)) [(''kind'', jkind j), (''status'', st)])
       JOB_STATUSES @
     (if the_text (jcategory j) \<noteq> [] then
        [Sample ''bifrost_flex_ingest_last_job_category'' ''1'' [(''kind'', jkind j), (''category'', the_text (jcategory j))]] else []) @
     (if jstat j = Pending
      then when_some ''bifrost_flex_ingest_next_retry_timestamp_seconds'' [(''kind'', jkind j)] (map_option ts_text (jnot_before j)) else [])"

definition last_job_part :: "snapshot \<Rightarrow> expo list" where
  "last_job_part sn =
     [gauge ''bifrost_flex_ingest_last_job_status'' ''1 for the status of the newest job of this kind.'',
      gauge ''bifrost_flex_ingest_last_job_category'' ''1 for the error category of the newest job of this kind.'',
      gauge ''bifrost_flex_ingest_next_retry_timestamp_seconds'' ''When the newest job of this kind may run again (pending with not_before).''] @
     concat (map last_job_row_part (sn_last_jobs sn))"

definition counts_part :: "snapshot \<Rightarrow> expo list" where
  "counts_part sn =
     gauge ''bifrost_flex_ingest_jobs'' ''Jobs in the queue by status.'' #
     map (\<lambda>st. Sample ''bifrost_flex_ingest_jobs'' (show_int (get_or 0 (sn_counts sn) st)) [(''status'', st)]) JOB_STATUSES"

definition planned_row_part :: "planned_slot \<Rightarrow> expo list" where
  "planned_row_part p =
     when_some ''bifrost_flex_planned_last_timestamp_seconds'' [(''slot'', pl_slot p)] (map_option ts_text (pl_last p)) @
     when_some ''bifrost_flex_planned_next_timestamp_seconds'' [(''slot'', pl_slot p)] (map_option ts_text (pl_next p))"

definition planned_part :: "snapshot \<Rightarrow> expo list" where
  "planned_part sn =
     [gauge ''bifrost_flex_planned_last_timestamp_seconds'' ''Most recent planned fire of the slot.'',
      gauge ''bifrost_flex_planned_next_timestamp_seconds'' ''Next planned fire of the slot.''] @
     concat (map planned_row_part (sn_planned sn))"

definition data_part :: "snapshot \<Rightarrow> expo list" where
  "data_part sn =
     gauge ''bifrost_flex_data_latest_timestamp_seconds'' ''Newest row timestamp in the landed data.'' #
     concat (map (\<lambda>(t, d). when_some ''bifrost_flex_data_latest_timestamp_seconds'' [(''table'', t)] (map_option ts_text d)) (sn_data sn))"

definition coverage_part :: "snapshot \<Rightarrow> expo list" where
  "coverage_part sn = (case sn_coverage sn of
      None \<Rightarrow> []
    | Some cov \<Rightarrow>
        gauge ''bifrost_flex_coverage_gap_months'' ''Closed months with Flex executions but no cash transactions, per account (should be 0).'' #
        map (\<lambda>(acct, n). Sample ''bifrost_flex_coverage_gap_months'' (show_int n) [(''account'', acct)]) (sort_key fst (gap_months_by_account cov)))"

definition worker_part :: "snapshot \<Rightarrow> expo list" where
  "worker_part sn = (case sn_heartbeat sn of
      None \<Rightarrow> []
    | Some hb \<Rightarrow>
        [gauge ''bifrost_flex_worker_last_seen_timestamp_seconds'' ''When the worker last reported in.'',
         Sample ''bifrost_flex_worker_last_seen_timestamp_seconds'' (ts_text (hb_seen_at hb)) [],
         gauge ''bifrost_flex_worker_counter'' ''Worker counters since its last start.''] @
        map (\<lambda>(key, n). Sample ''bifrost_flex_worker_counter'' (show_int n) [(''name'', key)])
          [(''jobs_done'', hb_jobs_done hb), (''jobs_failed'', hb_jobs_failed hb), (''jobs_retried'', hb_jobs_retried hb),
           (''catchups'', hb_catchups hb), (''db_reconnects'', hb_db_reconnects hb), (''stale_reclaimed'', hb_stale_reclaimed hb)])"

definition token_part :: "snapshot \<Rightarrow> expo list" where
  "token_part sn =
     [gauge ''bifrost_flex_token_configured'' ''1 when a Flex token is present for the side.''] @
     map (\<lambda>(side, present). Sample ''bifrost_flex_token_configured'' (zero_one present) [(''side'', side)]) (sn_tokens sn) @
     (case sn_token_age_seconds sn of
        None \<Rightarrow> []
      | Some age \<Rightarrow>
          [gauge ''bifrost_flex_token_age_seconds'' ''Seconds since the Flex tokens were issued (IB expires them after a year).'',
           Sample ''bifrost_flex_token_age_seconds'' (show_int age) []])"

definition render_metrics :: "snapshot \<Rightarrow> expo list" where
  "render_metrics sn =
     info_part sn @ freshness_part sn @ last_job_part sn @ counts_part sn @ planned_part sn @ data_part sn @ coverage_part sn @
     worker_part sn @ token_part sn"

text \<open>The handler of \<open>GET /metrics\<close>, after the schema call.\<close>

definition metrics ::
  "string \<Rightarrow> tzdb \<Rightarrow> env \<Rightarrow> dict \<Rightarrow> metric_reads \<Rightarrow> instant \<Rightarrow> queue \<Rightarrow> freshness_table \<Rightarrow> heartbeat list \<Rightarrow> http_metrics \<Rightarrow> py_error + string" where
  "metrics version db env cfg r now q fresh hbs hm =
     bind_err (collect_metrics version db env cfg r now q fresh hbs) (\<lambda>sn.
     Inr (expo_text (render_metrics sn @ render_http hm)))"

subsection \<open>The document is well formed\<close>

lemma no_newline_ts_text [simp]: "CHR 0x0A \<notin> set (ts_text t)"
  by (simp add: ts_text_def)

lemma no_newline_zero_one [simp]: "CHR 0x0A \<notin> set (zero_one b)"
  by (simp add: zero_one_def)

lemma gauge_ok [simp]: "expo_ok (gauge name help) \<longleftrightarrow> CHR 0x0A \<notin> set name \<and> CHR 0x0A \<notin> set help"
  by (simp add: gauge_def)

lemma when_some_ok:
  assumes "e \<in> set (when_some name lbls v)" "\<And>x. v = Some x \<Longrightarrow> expo_ok (Sample name x lbls)"
  shows "expo_ok e"
  using assms by (auto simp: when_some_def split: option.splits)

lemma parts_ok:
  "\<forall>e\<in>set (info_part sn). expo_ok e" "\<forall>e\<in>set (counts_part sn). expo_ok e" "\<forall>e\<in>set (coverage_part sn). expo_ok e"
  "\<forall>e\<in>set (worker_part sn). expo_ok e" "\<forall>e\<in>set (token_part sn). expo_ok e"
  by (auto simp: info_part_def counts_part_def coverage_part_def worker_part_def token_part_def JOB_STATUSES_def split: option.splits)

lemma row_parts_ok:
  "\<forall>e\<in>set (freshness_row_part r). expo_ok e" "\<forall>e\<in>set (last_job_row_part j). expo_ok e" "\<forall>e\<in>set (planned_row_part p). expo_ok e"
  by (auto simp: freshness_row_part_def last_job_row_part_def planned_row_part_def JOB_STATUSES_def Let_def elim!: when_some_ok split: if_splits)

lemma list_parts_ok:
  "\<forall>e\<in>set (freshness_part sn). expo_ok e" "\<forall>e\<in>set (last_job_part sn). expo_ok e" "\<forall>e\<in>set (planned_part sn). expo_ok e"
  "\<forall>e\<in>set (data_part sn). expo_ok e"
  using row_parts_ok by (auto simp: freshness_part_def last_job_part_def planned_part_def data_part_def elim!: when_some_ok)

lemma document_ok: "\<forall>e\<in>set (render_metrics sn @ render_http hm). expo_ok e"
  unfolding render_metrics_def set_append ball_Un
  by (intro conjI parts_ok list_parts_ok render_http_ok)

subsection \<open>What the document says of the queue\<close>

lemma samples_mem: "(n, v, ls) \<in> set (samples es) \<longleftrightarrow> (\<exists>ls'. Sample n v ls' \<in> set es \<and> ls = map (\<lambda>(k, x). (k, blanked x)) ls')"
  by (induction es) (auto simp: samples_def split: expo.splits)

lemma when_some_mem [simp]: "Sample n v ls \<in> set (when_some name lbls x) \<longleftrightarrow> n = name \<and> ls = lbls \<and> x = Some v"
  by (auto simp: when_some_def split: option.split)

lemma gauge_not_sample [simp]: "Sample n v ls \<noteq> gauge name help" "gauge name help \<noteq> Sample n v ls"
  by (simp_all add: gauge_def)

lemma bucket_lines_names: "Sample n v ls \<in> set (bucket_lines name pairs r zs) \<Longrightarrow> n = name @ ''_bucket''"
  by (induction name pairs r zs rule: bucket_lines.induct) auto

lemma http_names: "Sample n v ls \<in> set (render_http hm) \<Longrightarrow> take 5 n = ''http_''"
  by (auto simp: render_http_def render_histogram_def dest!: bucket_lines_names)

definition other_parts :: "snapshot \<Rightarrow> expo list" where
  "other_parts sn = info_part sn @ freshness_part sn @ planned_part sn @ data_part sn @ coverage_part sn @ worker_part sn @ token_part sn"

lemma other_parts_names:
  "Sample n v ls \<in> set (other_parts sn) \<Longrightarrow> n \<noteq> ''bifrost_flex_ingest_jobs'' \<and> n \<noteq> ''bifrost_flex_ingest_last_job_status''"
  unfolding other_parts_def set_append Un_iff
  by (elim disjE; auto simp: info_part_def freshness_part_def freshness_row_part_def planned_part_def planned_row_part_def data_part_def
      coverage_part_def worker_part_def token_part_def Let_def split: option.splits)

lemma status_text_inj [simp]: "status_text a = status_text b \<longleftrightarrow> a = b"
  by (cases a; cases b) (simp_all add: status_text_def)

lemma status_counts_get: "get_or 0 (status_counts q) (status_text s) = int (length (filter (\<lambda>j. jstat j = s) (rows q)))"
proof -
  have c: "count_list (map (status_text \<circ> jstat) js) (status_text s) = length (filter (\<lambda>j. jstat j = s) js)" for js
    by (induction js) auto
  have m: "map_of (map (\<lambda>x. (x, f x)) ks) x = (if x \<in> set ks then Some (f x) else None)" for ks :: "string list" and f :: "string \<Rightarrow> int" and x
    by (induction ks) auto
  show ?thesis
    using c [of "rows q"] by (auto simp: status_counts_def get_or_def Let_def m filter_empty_conv)
qed

lemma collect_metrics_Inr:
  assumes "collect_metrics version db env cfg r now q fresh hbs = Inr sn"
  shows "sn_counts sn = status_counts q" "sn_last_jobs sn = last_jobs q"
  using assms by (auto simp: collect_metrics_def bind_err_eq_Inr resolve_flex_tokens_def Let_def)

lemma other_part_names:
  "Sample ''bifrost_flex_ingest_jobs'' v ls \<notin> set (last_job_part sn)" "Sample ''bifrost_flex_ingest_last_job_status'' v ls \<notin> set (counts_part sn)"
  by (auto simp: last_job_part_def last_job_row_part_def counts_part_def)

text \<open>The samples of one gauge, in the order of the document.\<close>

definition samples_of :: "string \<Rightarrow> (string \<times> string \<times> labels) list \<Rightarrow> (string \<times> labels) list" where
  "samples_of name ss = map snd (filter (\<lambda>x. fst x = name) ss)"

lemma samples_of_append [simp]: "samples_of name (xs @ ys) = samples_of name xs @ samples_of name ys"
  by (simp add: samples_of_def)

lemma samples_append [simp]: "samples (xs @ ys) = samples xs @ samples ys"
  by (simp add: samples_def)

lemma samples_of_none: "(\<And>v ls. Sample name v ls \<notin> set es) \<Longrightarrow> samples_of name (samples es) = []"
  by (auto simp: samples_of_def filter_empty_conv samples_mem)

lemma document_samples:
  assumes "n = ''bifrost_flex_ingest_jobs'' \<or> n = ''bifrost_flex_ingest_last_job_status''"
  shows "samples_of n (samples (render_metrics sn @ render_http hm)) = samples_of n (samples (last_job_part sn)) @ samples_of n (samples (counts_part sn))"
proof -
  have "samples_of n (samples (render_http hm)) = []"
    by (rule samples_of_none) (use assms http_names in fastforce)
  moreover have none: "samples_of n (samples es) = []" if "set es \<subseteq> set (other_parts sn)" for es
    by (rule samples_of_none) (use that assms other_parts_names in blast)
  have "samples_of n (samples (info_part sn)) = []" "samples_of n (samples (freshness_part sn)) = []"
    "samples_of n (samples (planned_part sn)) = []" "samples_of n (samples (data_part sn)) = []"
    "samples_of n (samples (coverage_part sn)) = []" "samples_of n (samples (worker_part sn)) = []"
    "samples_of n (samples (token_part sn)) = []"
    by (rule none, force simp only: other_parts_def set_append)+
  ultimately show ?thesis by (simp add: render_metrics_def)
qed

definition ALL_STATUSES :: "jstatus list" where
  "ALL_STATUSES = [Pending, Running, Done, Failed]"

lemma JOB_STATUSES_text: "JOB_STATUSES = map status_text ALL_STATUSES"
  by (simp add: JOB_STATUSES_def status_text_def ALL_STATUSES_def)

lemma blanked_texts [simp]: "blanked (status_text s) = status_text s"
  by (simp add: blanked_def status_text_def split: jstatus.split)

lemma counts_samples:
  "samples_of ''bifrost_flex_ingest_jobs'' (samples (counts_part sn)) =
     map (\<lambda>s. (show_int (get_or 0 (sn_counts sn) (status_text s)), [(''status'', status_text s)])) ALL_STATUSES"
  by (simp add: counts_part_def samples_def gauge_def samples_of_def JOB_STATUSES_text ALL_STATUSES_def)

lemma last_job_samples:
  "samples_of ''bifrost_flex_ingest_last_job_status'' (samples (last_job_part sn)) =
     concat (map (\<lambda>j. map (\<lambda>s. (zero_one (jstat j = s), [(''kind'', blanked (jkind j)), (''status'', status_text s)])) ALL_STATUSES) (sn_last_jobs sn))"
proof -
  let ?n = "''bifrost_flex_ingest_last_job_status''"
  have row: "samples_of ?n (samples (last_job_row_part j)) =
      map (\<lambda>s. (zero_one (jstat j = s), [(''kind'', blanked (jkind j)), (''status'', status_text s)])) ALL_STATUSES" for j
    by (auto simp: last_job_row_part_def samples_def samples_of_def JOB_STATUSES_text ALL_STATUSES_def when_some_def split: option.split)
  have "samples_of ?n (samples (concat (map last_job_row_part js))) = concat (map (\<lambda>j. samples_of ?n (samples (last_job_row_part j))) js)" for js
    by (induction js) (simp_all add: samples_def samples_of_def)
  then show ?thesis by (simp add: last_job_part_def row) (simp add: samples_def gauge_def samples_of_def)
qed

lemma last_jobs_by_kind:
  "\<exists>ks. distinct ks \<and> set ks = jkind ` set (rows q) \<and> last_jobs q = map (\<lambda>k. the (latest_job q k)) ks \<and>
     (\<forall>k \<in> set ks. \<exists>j. latest_job q k = Some j \<and> jkind j = k)"
proof -
  have ex: "\<exists>j. latest_job q k = Some j \<and> jkind j = k" if "k \<in> jkind ` set (rows q)" for k
  proof -
    from that have "filter (\<lambda>j. jkind j = k) (rows q) \<noteq> []" by (auto simp: filter_empty_conv)
    then obtain j where "latest_job q k = Some j"
      unfolding latest_job_def by (metis option.exhaust top_row_None)
    with top_row_Some [OF this [unfolded latest_job_def]] show ?thesis by auto
  qed
  let ?ks = "sort (remdups (map jkind (rows q)))"
  have mf: "List.map_filter (latest_job q) ks = map (\<lambda>k. the (latest_job q k)) ks" if "set ks \<subseteq> jkind ` set (rows q)" for ks
    using that by (induction ks) (use ex in \<open>force simp: List.map_filter_simps\<close>)+
  have "set ?ks = jkind ` set (rows q)" by simp
  with mf [of ?ks] ex show ?thesis by (intro exI [of _ ?ks]) (simp add: last_jobs_def)
qed

text \<open>C38: The metrics text says what is in the queue. Whatever kinds, accounts, routes or error categories are stored, every
  line of the answer that is no comment reads back as one sample. The samples of the job gauge are exactly four, one per
  status with the number of jobs in it; those of the last-job gauge are exactly four per kind of the queue, one per status, with 1 at the
  status of the kind's newest job and 0 elsewhere. (A newline in a kind is written as a blank, so two kinds that differ in nothing else
  read back under one label, four samples each.)\<close>

theorem metrics_report_queue:
  assumes "metrics version db env cfg r now q fresh hbs hm = Inr doc"
  shows "\<exists>ss ks. read_expo doc = map Some ss \<and>
    samples_of ''bifrost_flex_ingest_jobs'' ss =
      map (\<lambda>s. (show_int (int (length (filter (\<lambda>j. jstat j = s) (rows q)))), [(''status'', status_text s)])) [Pending, Running, Done, Failed] \<and>
    distinct ks \<and> set ks = jkind ` set (rows q) \<and>
    samples_of ''bifrost_flex_ingest_last_job_status'' ss =
      concat (map (\<lambda>k. map (\<lambda>s. (if \<exists>j. latest_job q k = Some j \<and> jstat j = s then ''1'' else ''0'',
          [(''kind'', blanked k), (''status'', status_text s)])) [Pending, Running, Done, Failed]) ks)"
proof -
  from assms obtain sn where sn: "collect_metrics version db env cfg r now q fresh hbs = Inr sn"
    and doc: "doc = expo_text (render_metrics sn @ render_http hm)" by (auto simp: metrics_def bind_err_eq_Inr)
  note c = collect_metrics_Inr [OF sn]
  obtain ks where ks: "distinct ks" "set ks = jkind ` set (rows q)" "last_jobs q = map (\<lambda>k. the (latest_job q k)) ks"
    "\<forall>k \<in> set ks. \<exists>j. latest_job q k = Some j \<and> jkind j = k" using last_jobs_by_kind by blast
  let ?ss = "samples (render_metrics sn @ render_http hm)"
  have none: "samples_of ''bifrost_flex_ingest_jobs'' (samples (last_job_part sn)) = []"
    "samples_of ''bifrost_flex_ingest_last_job_status'' (samples (counts_part sn)) = []"
    by (rule samples_of_none, rule other_part_names)+
  have "samples_of ''bifrost_flex_ingest_jobs'' ?ss =
      map (\<lambda>s. (show_int (int (length (filter (\<lambda>j. jstat j = s) (rows q)))), [(''status'', status_text s)])) [Pending, Running, Done, Failed]"
    by (subst document_samples) (simp_all only: none counts_samples c status_counts_get ALL_STATUSES_def append_Nil simp_thms)
  moreover have "samples_of ''bifrost_flex_ingest_last_job_status'' ?ss =
      concat (map (\<lambda>k. map (\<lambda>s. (if \<exists>j. latest_job q k = Some j \<and> jstat j = s then ''1'' else ''0'',
          [(''kind'', blanked k), (''status'', status_text s)])) [Pending, Running, Done, Failed]) ks)"
  proof -
    have "samples_of ''bifrost_flex_ingest_last_job_status'' ?ss =
        concat (map (\<lambda>j. map (\<lambda>s. (zero_one (jstat j = s), [(''kind'', blanked (jkind j)), (''status'', status_text s)])) ALL_STATUSES) (last_jobs q))"
      by (subst document_samples) (simp_all only: none last_job_samples c append_Nil2 simp_thms)
    also have "\<dots> = concat (map (\<lambda>k. map (\<lambda>s. (if \<exists>j. latest_job q k = Some j \<and> jstat j = s then ''1'' else ''0'',
          [(''kind'', blanked k), (''status'', status_text s)])) ALL_STATUSES) ks)"
      unfolding ks(3) map_map comp_def
      by (intro arg_cong [where f = concat] map_cong refl) (use ks(4) in \<open>fastforce simp: zero_one_def\<close>)
    finally show ?thesis by (simp only: ALL_STATUSES_def)
  qed
  ultimately show ?thesis
    using ks(1,2) read_expo_text [OF document_ok, of sn hm] unfolding doc by blast
qed

theorem metrics_report_queue_witness:
  "\<exists>doc ss. metrics ''0.13.2'' (\<lambda>_. None) (\<lambda>_. None) [] \<lparr>mr_data = (\<lambda>_. Inr None), mr_coverage = Inl (OSError ''gone'')\<rparr> 0 empty_queue [] [] reset = Inr doc \<and>
     read_expo doc = map Some ss \<and> samples_of ''bifrost_flex_ingest_jobs'' ss = [(''0'', [(''status'', ''pending'')]), (''0'', [(''status'', ''running'')]),
       (''0'', [(''status'', ''done'')]), (''0'', [(''status'', ''failed'')])]"
proof -
  have tz: "schedule_timezone [] = None" by (simp add: schedule_timezone_def dget_def text_or_empty_def strip_def)
  have "\<exists>doc. metrics ''0.13.2'' (\<lambda>_. None) (\<lambda>_. None) [] \<lparr>mr_data = (\<lambda>_. Inr None), mr_coverage = Inl (OSError ''gone'')\<rparr> 0 empty_queue [] [] reset = Inr doc"
    by (simp add: metrics_def collect_metrics_def SLOT_KIND_def planned_slot_of_def sample_slot_cron resolve_flex_tokens_def Let_def)
  then obtain doc where t: "metrics ''0.13.2'' (\<lambda>_. None) (\<lambda>_. None) [] \<lparr>mr_data = (\<lambda>_. Inr None), mr_coverage = Inl (OSError ''gone'')\<rparr> 0 empty_queue [] [] reset = Inr doc"
    by blast
  have "show_int 0 = ''0''" by code_simp
  moreover obtain ss where "read_expo doc = map Some ss" "samples_of ''bifrost_flex_ingest_jobs'' ss =
      map (\<lambda>s. (show_int (int (length (filter (\<lambda>j. jstat j = s) (rows empty_queue)))), [(''status'', status_text s)])) [Pending, Running, Done, Failed]"
    using metrics_report_queue [OF t] by blast
  ultimately show ?thesis
    using t by (intro exI [of _ doc] exI [of _ ss]) (simp add: empty_queue_def status_text_def)
qed

end
