(* ===== verification/Dashboards.thy ===== *)
theory Dashboards
  imports Ops_Metrics
begin

text \<open>
  The read-only views of the Console: \<^verbatim>\<open>api/freshness_kpis.py\<close> (ages of the last sync, run and rows, the next planned
  run) and \<^verbatim>\<open>api/ingest_dashboard.py\<close> (plan against jobs). A time difference is kept in exact microseconds. Every call of
  \<open>datetime.now\<close> reads the clock anew: \<open>clk k\<close> is the \<open>k\<close>-th reading of a request.
\<close>

subsection \<open>Ages and labels\<close>

definition age_seconds :: "instant \<Rightarrow> instant option \<Rightarrow> int option" where
  "age_seconds now ts = map_option (\<lambda>t. max 0 (now - t)) ts"

definition two_parts :: "int \<Rightarrow> string \<Rightarrow> int \<Rightarrow> string \<Rightarrow> string" where
  "two_parts a ua b ub = show_int a @ ua @ (if b \<noteq> 0 then '' '' @ show_int b @ ub else [])"

definition age_label :: "int option \<Rightarrow> string" where
  "age_label s_o = (case s_o of
      None \<Rightarrow> em_dash
    | Some s \<Rightarrow>
        if s < secs 60 then show_int (int_seconds s) @ ''s ago''
        else if s < secs 3600 then show_int (s div secs 60) @ ''m ago''
        else if s < secs 86400 then two_parts (s div secs 3600) ''h'' (s mod secs 3600 div secs 60) ''m'' @ '' ago''
        else two_parts (s div secs 86400) ''d'' (s mod secs 86400 div secs 3600) ''h'' @ '' ago'')"

definition until_label :: "int option \<Rightarrow> string" where
  "until_label s_o = (case s_o of
      None \<Rightarrow> em_dash
    | Some s \<Rightarrow>
        if s \<le> 0 then ''overdue''
        else if s < secs 3600 then ''in '' @ show_int (s div secs 60) @ ''m''
        else if s < secs 86400 then ''in '' @ two_parts (s div secs 3600) ''h'' (s mod secs 3600 div secs 60) ''m''
        else ''in '' @ two_parts (s div secs 86400) ''d'' (s mod secs 86400 div secs 3600) ''h'')"

subsection \<open>Freshness figures\<close>

record stamp_view =
  sv_at :: "string option"
  sv_age :: "int option"
  sv_label :: string

text \<open>A time stamp, its age and the age's label, each age from its own clock reading.\<close>

definition stamp_view_of :: "instant \<Rightarrow> instant \<Rightarrow> instant option \<Rightarrow> stamp_view" where
  "stamp_view_of t1 t2 ts = \<lparr>sv_at = iso_z ts, sv_age = age_seconds t1 ts, sv_label = age_label (age_seconds t2 ts)\<rparr>"

definition newer :: "instant option \<Rightarrow> instant option \<Rightarrow> instant option" where
  "newer acc ts = (case ts of
      None \<Rightarrow> acc
    | Some t \<Rightarrow> (case acc of None \<Rightarrow> Some t | Some a \<Rightarrow> if a < t then Some t else acc))"

text \<open>The newest success of the freshness rows, else the last finish of a done job.\<close>

definition last_success :: "queue \<Rightarrow> freshness_table \<Rightarrow> instant option" where
  "last_success q fresh =
     (case fold (\<lambda>r acc. newer acc (latest_ts r)) (sort_key dimension fresh) None of
        Some t \<Rightarrow> Some t
      | None \<Rightarrow> fold (\<lambda>t acc. newer acc (Some t)) (List.map_filter jfinished (filter (\<lambda>j. jstat j = Done) (rows q))) None)"

record run_view =
  rv_at :: "instant option"
  rv_status :: "string option"
  rv_kind :: "string option"
  rv_error :: "string option"
  rv_category :: "string option"
  rv_retry_at :: "instant option"

definition or_else :: "'a option \<Rightarrow> 'a option \<Rightarrow> 'a option" where
  "or_else a b = (case a of None \<Rightarrow> b | Some x \<Rightarrow> Some x)"

text \<open>The newest job row, whatever it did.\<close>

definition last_run :: "queue \<Rightarrow> run_view" where
  "last_run q = (case top_row jid (rows q) of
      None \<Rightarrow> \<lparr>rv_at = None, rv_status = None, rv_kind = None, rv_error = None, rv_category = None, rv_retry_at = None\<rparr>
    | Some j \<Rightarrow>
        \<lparr>rv_at = or_else (jfinished j) (or_else (jstarted j) (Some (jcreated j))), rv_status = Some (status_text (jstat j)),
         rv_kind = Some (jkind j),
         rv_error = (case jresult j of None \<Rightarrow> None
           | Some res \<Rightarrow> if truthy (dget res ''error'') then Some (take 500 (py_str (dget res ''error''))) else None),
         rv_category = jcategory j, rv_retry_at = (if jstat j = Pending then jnot_before j else None)\<rparr>)"

fun next_run :: "tzdb \<Rightarrow> dict \<Rightarrow> instant \<Rightarrow> string list \<Rightarrow> (instant \<times> string) option \<Rightarrow> py_error + (instant \<times> string) option" where
  "next_run db cfg now [] best = Inr best"
| "next_run db cfg now (slot # slots) best =
     bind_err (slot_cron cfg slot) (\<lambda>cron.
     if cron = [] then next_run db cfg now slots best
     else
       bind_err (next_fires db cron now 1 14 (schedule_timezone cfg)) (\<lambda>upcoming.
       next_run db cfg now slots (case upcoming of
           [] \<Rightarrow> best
         | t # _ \<Rightarrow> (case best of None \<Rightarrow> Some (t, slot) | Some (b, _) \<Rightarrow> if t < b then Some (t, slot) else best))))"

fun last_planned :: "tzdb \<Rightarrow> dict \<Rightarrow> instant \<Rightarrow> string list \<Rightarrow> instant option \<Rightarrow> py_error + instant option" where
  "last_planned db cfg now [] best = Inr best"
| "last_planned db cfg now (slot # slots) best =
     bind_err (slot_cron cfg slot) (\<lambda>cron.
     if cron = [] then last_planned db cfg now slots best
     else
       bind_err (previous_fire db cron now 14 (schedule_timezone cfg)) (\<lambda>prev.
       last_planned db cfg now slots (newer best prev)))"

record dimension_view =
  dv_kind :: string
  dv_last_success_at :: "string option"
  dv_last_ok :: "bool option"
  dv_last_error :: "string option"
  dv_processed_rows :: "int option"
  dv_new_rows :: "int option"
  dv_last_job_id :: "int option"
  dv_last_finished_at :: "string option"

definition dimension_view_of :: "freshness \<Rightarrow> dimension_view" where
  "dimension_view_of r =
     \<lparr>dv_kind = dimension r, dv_last_success_at = iso_z (latest_ts r), dv_last_ok = last_ok r, dv_last_error = last_error r,
      dv_processed_rows = processed_rows r, dv_new_rows = new_rows r, dv_last_job_id = last_job_id r,
      dv_last_finished_at = iso_z (last_finished_at r)\<rparr>"

record kpis =
  k_generated_at :: "string option"
  k_last_success :: stamp_view
  k_last_run :: stamp_view
  k_run :: run_view
  k_retry_at :: "string option"
  k_dimensions :: "dimension_view list"
  k_timezone :: string
  k_execution :: stamp_view
  k_exec_rows :: "int option"
  k_transaction :: stamp_view
  k_txn_rows :: "int option"
  k_next_at :: "string option"
  k_next_until :: "int option"
  k_next_label :: string
  k_next_slot :: "string option"
  k_last_planned :: stamp_view

text \<open>The newest stamp and the row count of a landed table; a failed read shows neither.\<close>

definition table_read :: "py_error + instant option \<times> int \<Rightarrow> instant option \<times> int option" where
  "table_read r = (case r of Inl _ \<Rightarrow> (None, None) | Inr (ts, n) \<Rightarrow> (ts, Some n))"

definition zone_or_utc :: "dict \<Rightarrow> string" where
  "zone_or_utc cfg = (case schedule_timezone cfg of None \<Rightarrow> ''UTC'' | Some z \<Rightarrow> z)"

text \<open>The handler of \<open>GET /flex/dashboard/freshness-kpis\<close>, after the schema call.\<close>

definition freshness_kpis ::
  "tzdb \<Rightarrow> dict \<Rightarrow> (py_error + instant option \<times> int) \<Rightarrow> (py_error + instant option \<times> int) \<Rightarrow> (nat \<Rightarrow> instant) \<Rightarrow> queue \<Rightarrow> freshness_table
     \<Rightarrow> py_error + kpis" where
  "freshness_kpis db cfg execs txns clk q fresh =
     (let now = clk 0; (exec_ts, exec_n) = table_read execs; (txn_ts, txn_n) = table_read txns; run = last_run q in
      bind_err (next_run db cfg now (map fst SLOT_KIND) None) (\<lambda>nxt.
      bind_err (last_planned db cfg now (map fst SLOT_KIND) None) (\<lambda>planned.
      let until = map_option (\<lambda>(t, _). t - now) nxt in
      Inr \<lparr>k_generated_at = iso_z (Some now), k_last_success = stamp_view_of (clk 1) (clk 1) (last_success q fresh),
           k_last_run = stamp_view_of (clk 2) (clk 2) (rv_at run), k_run = run, k_retry_at = iso_z (rv_retry_at run),
           k_dimensions = map dimension_view_of (sort_key dimension fresh), k_timezone = zone_or_utc cfg,
           k_execution = stamp_view_of (clk 3) (clk 3) exec_ts, k_exec_rows = exec_n,
           k_transaction = stamp_view_of (clk 4) (clk 4) txn_ts, k_txn_rows = txn_n,
           k_next_at = iso_z (map_option fst nxt), k_next_until = until, k_next_label = until_label until,
           k_next_slot = map_option snd nxt, k_last_planned = stamp_view_of (clk 5) (clk 6) planned\<rparr>)))"

subsection \<open>Plan against jobs\<close>

definition adherence :: "instant \<Rightarrow> instant option \<Rightarrow> job option \<Rightarrow> string" where
  "adherence now planned job_o = (case planned of
      None \<Rightarrow> ''on_plan''
    | Some p \<Rightarrow>
        if now > p + secs 7200
        then (case job_o of None \<Rightarrow> ''no_data'' | Some j \<Rightarrow> if jcreated j < p then ''late'' else ''on_plan'')
        else ''on_plan'')"

record slot_plan =
  sp_slot :: string
  sp_kind :: string
  sp_cron :: string
  sp_timezone :: string
  sp_max_attempts :: pyval
  sp_last_planned_at :: "string option"
  sp_next_fires :: "string list"
  sp_last_job :: "job option"
  sp_job_not_before :: "string option"
  sp_pending :: int
  sp_next_retry_at :: "string option"
  sp_late :: bool
  sp_adherence :: string

definition pending_of :: "queue \<Rightarrow> string \<Rightarrow> job list" where
  "pending_of q kind = filter (\<lambda>j. jkind j = kind \<and> jstat j = Pending) (rows q)"

text \<open>One slot. The last job is shown as its row, its \<open>not_before\<close> as text.\<close>

definition slot_plan_of :: "tzdb \<Rightarrow> dict \<Rightarrow> instant \<Rightarrow> queue \<Rightarrow> string \<times> string \<Rightarrow> py_error + slot_plan" where
  "slot_plan_of db cfg now q sk =
     (case sk of (slot, kind) \<Rightarrow>
        bind_err (dict_of (dget cfg ''slots'')) (\<lambda>slots.
        bind_err (dict_of (dget slots slot)) (\<lambda>scfg.
        let cron = text_or_empty (dget scfg ''cron'') in
        bind_err (if cron = [] then Inr None else previous_fire db cron now 14 (schedule_timezone cfg)) (\<lambda>planned.
        bind_err (if cron = [] then Inr [] else next_fires db cron now 3 14 (schedule_timezone cfg)) (\<lambda>upcoming.
        let job_o = latest_job q kind; pend = pending_of q kind; a = adherence now planned job_o in
        Inr \<lparr>sp_slot = slot, sp_kind = kind, sp_cron = cron, sp_timezone = zone_or_utc cfg,
             sp_max_attempts = dget scfg ''max_attempts'', sp_last_planned_at = iso_z planned, sp_next_fires = map iso_z_of upcoming,
             sp_last_job = job_o, sp_job_not_before = iso_z (Option.bind job_o jnot_before), sp_pending = int (length pend),
             sp_next_retry_at = iso_z (min_opt (List.map_filter jnot_before pend)), sp_late = (a = ''late''), sp_adherence = a\<rparr>)))))"

fun slot_plans :: "(string \<times> string \<Rightarrow> py_error + slot_plan) \<Rightarrow> (string \<times> string) list \<Rightarrow> py_error + slot_plan list" where
  "slot_plans f [] = Inr []"
| "slot_plans f (sk # sks) = bind_err (f sk) (\<lambda>p. bind_err (slot_plans f sks) (\<lambda>ps. Inr (p # ps)))"

record queue_view =
  qv_now :: "string option"
  qv_timezone :: string
  qv_counts :: "(string \<times> int) list"
  qv_slots :: "slot_plan list"

text \<open>The handler of \<open>GET /flex/ingest/queue-dashboard\<close>.\<close>

definition queue_dashboard :: "tzdb \<Rightarrow> dict \<Rightarrow> instant \<Rightarrow> queue \<Rightarrow> py_error + queue_view" where
  "queue_dashboard db cfg now q =
     bind_err (slot_plans (slot_plan_of db cfg now q) SLOT_KIND) (\<lambda>plans.
     Inr \<lparr>qv_now = iso_z (Some now), qv_timezone = zone_or_utc cfg,
          qv_counts = map (\<lambda>st. (st, get_or 0 (status_counts q) st)) JOB_STATUSES, qv_slots = plans\<rparr>)"

subsection \<open>What the figures are\<close>

text \<open>The minutes from \<open>lo\<close> and before \<open>hi\<close> at which some slot is planned.\<close>

definition planned_minutes :: "tzdb \<Rightarrow> dict \<Rightarrow> string list \<Rightarrow> instant \<Rightarrow> instant \<Rightarrow> instant set" where
  "planned_minutes db cfg slots lo hi = {t. lo \<le> t \<and> t < hi \<and>
     (\<exists>slot\<in>set slots. \<exists>cron. slot_cron cfg slot = Inr cron \<and> cron \<noteq> [] \<and> due db cron (schedule_timezone cfg) t)}"

lemma planned_minutes_Nil [simp]: "planned_minutes db cfg [] lo hi = {}"
  by (simp add: planned_minutes_def)

lemma planned_minutes_Cons:
  "slot_cron cfg slot = Inr cron \<Longrightarrow> planned_minutes db cfg (slot # slots) lo hi =
     (if cron = [] then {} else {t. lo \<le> t \<and> t < hi \<and> due db cron (schedule_timezone cfg) t}) \<union> planned_minutes db cfg slots lo hi"
  by (auto simp: planned_minutes_def)

lemma greatest_newer: "greatest_of A a \<Longrightarrow> greatest_of B b \<Longrightarrow> greatest_of (A \<union> B) (newer a b)"
  by (auto simp: greatest_of_def newer_def split: option.splits)

lemma greatest_fold_newer:
  "greatest_of A acc \<Longrightarrow> greatest_of (A \<union> {t. \<exists>x\<in>set xs. f x = Some t}) (fold (\<lambda>x acc. newer acc (f x)) xs acc)"
proof (induction xs arbitrary: A acc)
  case (Cons x xs)
  have "greatest_of (A \<union> {t. f x = Some t}) (newer acc (f x))"
    by (rule greatest_newer [OF Cons.prems]) (auto simp: greatest_of_def split: option.splits)
  from Cons.IH [OF this] show ?case by (simp add: Un_assoc Collect_disj_eq [symmetric] bex_simps(5) disj_commute)
qed simp

lemma last_success_cases:
  "let A = {t. \<exists>r\<in>set fresh. latest_ts r = Some t} in
   greatest_of (if A \<noteq> {} then A else {t. \<exists>j\<in>set (rows q). jstat j = Done \<and> jfinished j = Some t}) (last_success q fresh)"
proof -
  let ?A = "{t. \<exists>r\<in>set fresh. latest_ts r = Some t}" and ?ts = "List.map_filter jfinished (filter (\<lambda>j. jstat j = Done) (rows q))"
  have n: "greatest_of {} None" by (simp add: greatest_of_def)
  have a: "greatest_of ?A (fold (\<lambda>r acc. newer acc (latest_ts r)) (sort_key dimension fresh) None)"
    using greatest_fold_newer [OF n, of "sort_key dimension fresh" latest_ts] by simp
  have "greatest_of {t. \<exists>x\<in>set ?ts. Some x = Some t} (fold (\<lambda>t acc. newer acc (Some t)) ?ts None)"
    using greatest_fold_newer [OF n, of ?ts Some] by simp
  moreover have "{t. \<exists>x\<in>set ?ts. Some x = Some t} = {t. \<exists>j\<in>set (rows q). jstat j = Done \<and> jfinished j = Some t}"
    by (auto simp: mem_map_filter)
  ultimately have b: "greatest_of {t. \<exists>j\<in>set (rows q). jstat j = Done \<and> jfinished j = Some t} (fold (\<lambda>t acc. newer acc (Some t)) ?ts None)"
    by simp
  show ?thesis
    using a b unfolding last_success_def by (auto simp: greatest_of_def Let_def split: option.splits)
qed

lemma next_run_least:
  assumes "next_run db cfg now slots best = Inr r" "least_of A (map_option fst best)"
  shows "least_of (A \<union> planned_minutes db cfg slots (now + minute) (now + secs (86400 * 14))) (map_option fst r)"
  using assms
proof (induction slots arbitrary: best A)
  case (Cons slot slots)
  let ?B = "\<lambda>cron. {t. now + minute \<le> t \<and> t < now + secs (86400 * 14) \<and> due db cron (schedule_timezone cfg) t}"
  from Cons.prems(1) obtain cron where c: "slot_cron cfg slot = Inr cron" by (auto simp: bind_err_eq_Inr)
  show ?case
  proof (cases "cron = []")
    case True
    with Cons c show ?thesis by (simp add: planned_minutes_Cons)
  next
    case False
    with Cons.prems(1) c obtain up where up: "next_fires db cron now 1 14 (schedule_timezone cfg) = Inr up"
      and r: "next_run db cfg now slots (case up of [] \<Rightarrow> best | t # _ \<Rightarrow>
          (case best of None \<Rightarrow> Some (t, slot) | Some (b, _) \<Rightarrow> if t < b then Some (t, slot) else best)) = Inr r"
      by (auto simp: bind_err_eq_Inr)
    have "least_of (A \<union> ?B cron) (map_option fst (case up of [] \<Rightarrow> best | t # _ \<Rightarrow>
          (case best of None \<Rightarrow> Some (t, slot) | Some (b, _) \<Rightarrow> if t < b then Some (t, slot) else best)))"
      using cal.upcoming_first [OF up] Cons.prems(2)
      by (auto simp: least_of_def first_opt_def split: list.splits option.splits)
    from Cons.IH [OF r this] show ?thesis by (simp add: planned_minutes_Cons [OF c] False Un_assoc)
  qed
qed simp

lemma last_planned_greatest:
  assumes "last_planned db cfg now slots best = Inr r" "greatest_of A best"
  shows "greatest_of (A \<union> planned_minutes db cfg slots (now - secs (86400 * 14)) now) r"
  using assms
proof (induction slots arbitrary: best A)
  case (Cons slot slots)
  from Cons.prems(1) obtain cron where c: "slot_cron cfg slot = Inr cron" by (auto simp: bind_err_eq_Inr)
  show ?case
  proof (cases "cron = []")
    case True
    with Cons c show ?thesis by (simp add: planned_minutes_Cons)
  next
    case False
    with Cons.prems(1) c obtain prev where p: "previous_fire db cron now 14 (schedule_timezone cfg) = Inr prev"
      and r: "last_planned db cfg now slots (newer best prev) = Inr r"
      by (auto simp: bind_err_eq_Inr)
    from Cons.IH [OF r greatest_newer [OF Cons.prems(2) cal.previous_last [OF p]]] show ?thesis by (simp add: planned_minutes_Cons [OF c] False Un_assoc)
  qed
qed simp

text \<open>C39: The Overview figures are what they say. The last successful sync is the newest success of the freshness rows, or the last
  finish of a done job when no row has one; the last run is the job row with the highest id; the next run is the earliest minute
  any slot is planned at, at least one whole minute and less than fourteen days ahead, so it is never shown as overdue; the last
  planned run is the latest planned minute of the past fourteen days.\<close>

theorem kpis_exact:
  assumes "freshness_kpis db cfg execs txns clk q fresh = Inr k"
  shows "\<exists>success nxt planned.
     k_last_success k = stamp_view_of (clk 1) (clk 1) success \<and>
     (let A = {t. \<exists>r\<in>set fresh. latest_ts r = Some t} in
      greatest_of (if A \<noteq> {} then A else {t. \<exists>j\<in>set (rows q). jstat j = Done \<and> jfinished j = Some t}) success) \<and>
     (if rows q = [] then rv_kind (k_run k) = None
      else \<exists>j\<in>set (rows q). (\<forall>i\<in>set (rows q). jid i \<le> jid j) \<and> rv_kind (k_run k) = Some (jkind j) \<and>
             rv_status (k_run k) = Some (status_text (jstat j)) \<and> (rv_retry_at (k_run k) \<noteq> None \<longrightarrow> jstat j = Pending)) \<and>
     k_next_at k = iso_z nxt \<and> k_next_until k = map_option (\<lambda>t. t - clk 0) nxt \<and>
     least_of (planned_minutes db cfg (map fst SLOT_KIND) (clk 0 + minute) (clk 0 + secs (86400 * 14))) nxt \<and>
     k_next_label k \<noteq> ''overdue'' \<and>
     k_last_planned k = stamp_view_of (clk 5) (clk 6) planned \<and>
     greatest_of (planned_minutes db cfg (map fst SLOT_KIND) (clk 0 - secs (86400 * 14)) (clk 0)) planned"
proof -
  from assms obtain nxt planned where n: "next_run db cfg (clk 0) (map fst SLOT_KIND) None = Inr nxt"
    and p: "last_planned db cfg (clk 0) (map fst SLOT_KIND) None = Inr planned"
    and k: "k_last_success k = stamp_view_of (clk 1) (clk 1) (last_success q fresh)" "k_run k = last_run q"
      "k_next_at k = iso_z (map_option fst nxt)" "k_next_until k = map_option (\<lambda>(t, _). t - clk 0) nxt"
      "k_next_label k = until_label (map_option (\<lambda>(t, _). t - clk 0) nxt)" "k_last_planned k = stamp_view_of (clk 5) (clk 6) planned"
    by (auto simp: freshness_kpis_def bind_err_eq_Inr Let_def split: prod.splits)
  have least: "least_of (planned_minutes db cfg (map fst SLOT_KIND) (clk 0 + minute) (clk 0 + secs (86400 * 14))) (map_option fst nxt)"
    using next_run_least [OF n, of "{}"] by (simp add: least_of_def)
  moreover have "greatest_of (planned_minutes db cfg (map fst SLOT_KIND) (clk 0 - secs (86400 * 14)) (clk 0)) planned"
    using last_planned_greatest [OF p, of "{}"] by (simp add: greatest_of_def)
  moreover have "k_next_label k \<noteq> ''overdue''"
  proof (cases nxt)
    case (Some ts)
    obtain t s where ts: "ts = (t, s)" by (cases ts)
    with Some least have "clk 0 + minute \<le> t" by (auto simp: least_of_def planned_minutes_def)
    with minute_pos have "0 < t - clk 0" by linarith
    with Some k(5) ts show ?thesis by (simp add: until_label_def)
  qed (simp add: k(5) until_label_def em_dash_def)
  moreover have "if rows q = [] then rv_kind (k_run k) = None
      else \<exists>j\<in>set (rows q). (\<forall>i\<in>set (rows q). jid i \<le> jid j) \<and> rv_kind (k_run k) = Some (jkind j) \<and>
             rv_status (k_run k) = Some (status_text (jstat j)) \<and> (rv_retry_at (k_run k) \<noteq> None \<longrightarrow> jstat j = Pending)"
    by (auto simp: k(2) last_run_def top_row_None dest!: top_row_Some split: option.splits)
  moreover have "k_next_until k = map_option (\<lambda>t. t - clk 0) (map_option fst nxt)"
    using k(4) by (cases nxt) auto
  moreover note last_success_cases [of fresh q]
  ultimately show ?thesis using k(1,3,6) by blast
qed

theorem kpis_exact_witness:
  "\<exists>k. freshness_kpis (\<lambda>_. None) sample_schedule (Inr (None, 0)) (Inl (OSError ''gone'')) (\<lambda>i. sample_late + int i) sample_queue [] = Inr k \<and>
     rv_kind (k_run k) = Some ''flex-trades'' \<and> k_next_label k \<noteq> ''overdue'' \<and> k_last_planned k = stamp_view_of (sample_late + 5) (sample_late + 6) (Some (secs 23400))"
proof -
  let ?db = "\<lambda>_. None" and ?clk = "\<lambda>i. sample_late + int i"
  obtain up where up: "next_fires ?db ''30 6 * * 1-6'' sample_late 1 14 None = Inr up"
    using sample_parse by (auto simp: next_fires_def iter_cron_fires_def zone_of_def Let_def)
  have pl: "last_planned ?db sample_schedule sample_late (map fst SLOT_KIND) None = Inr (Some (secs 23400))"
    by (simp add: SLOT_KIND_def sample_schedule_simps sample_previous_fire newer_def)
  have "\<exists>k. freshness_kpis ?db sample_schedule (Inr (None, 0)) (Inl (OSError ''gone'')) ?clk sample_queue [] = Inr k"
    by (simp add: freshness_kpis_def Let_def table_read_def pl) (simp add: SLOT_KIND_def sample_schedule_simps up)
  then obtain k where k: "freshness_kpis ?db sample_schedule (Inr (None, 0)) (Inl (OSError ''gone'')) ?clk sample_queue [] = Inr k" by blast
  have "k_last_planned k = stamp_view_of (sample_late + 5) (sample_late + 6) (Some (secs 23400))"
    using k by (auto simp: freshness_kpis_def Let_def bind_err_eq_Inr pl table_read_def)
  moreover have "rv_kind (k_run k) = Some ''flex-trades''" "k_next_label k \<noteq> ''overdue''"
    using kpis_exact [OF k] by (auto simp: sample_queue_def new_job_def)
  ultimately show ?thesis using k by blast
qed

subsection \<open>Labels\<close>

definition unit_secs :: "char \<Rightarrow> int" where
  "unit_secs c = (if c = CHR ''d'' then 86400 else if c = CHR ''h'' then 3600 else if c = CHR ''m'' then 60 else 1)"

text \<open>The seconds a label names, read independently: one number with its unit, and a second one when there is one.\<close>

definition read_label :: "string \<Rightarrow> int" where
  "read_label l =
     (case dropWhile is_digit l of
        u # _ # r \<Rightarrow>
          int (digits_val (takeWhile is_digit l)) * unit_secs u +
          (case dropWhile is_digit r of
             v # _ \<Rightarrow> int (digits_val (takeWhile is_digit r)) * unit_secs v
           | [] \<Rightarrow> 0)
      | [u] \<Rightarrow> int (digits_val (takeWhile is_digit l)) * unit_secs u
      | [] \<Rightarrow> 0)"

lemma digits_stop:
  assumes "0 \<le> n" "\<not> is_digit c"
  shows "takeWhile is_digit (show_int n @ c # r) = show_nat (nat n)" "dropWhile is_digit (show_int n @ c # r) = c # r"
proof -
  have d: "\<And>x. x \<in> set (show_nat (nat n)) \<Longrightarrow> is_digit x"
    using list_all_digit_show_nat [of "nat n"] by (simp add: list_all_iff)
  have "takeWhile is_digit (show_nat (nat n) @ c # r) = show_nat (nat n) @ takeWhile is_digit (c # r)"
    "dropWhile is_digit (show_nat (nat n) @ c # r) = dropWhile is_digit (c # r)"
    by (simp_all add: d)
  with assms show "takeWhile is_digit (show_int n @ c # r) = show_nat (nat n)" "dropWhile is_digit (show_int n @ c # r) = c # r"
    by (simp_all add: show_int_def)
qed

lemma read_two_parts:
  assumes "0 \<le> a" "0 \<le> b" "ua \<in> {CHR ''d'', CHR ''h''}" "ub \<in> {CHR ''h'', CHR ''m''}" "rest = [] \<or> rest = '' ago''"
  shows "read_label (two_parts a [ua] b [ub] @ rest) = a * unit_secs ua + b * unit_secs ub"
proof -
  have nd: "\<not> is_digit ua" "\<not> is_digit ub" "\<not> is_digit (CHR ''a'')" using assms(3,4) by (auto simp: is_digit_def)
  show ?thesis
    using assms(1,2,5) nd by (auto simp: read_label_def two_parts_def digits_stop)
qed

lemma read_one_part:
  assumes "0 \<le> n" "u \<in> {CHR ''s'', CHR ''m''}" "rest = [] \<or> rest = '' ago''"
  shows "read_label (show_int n @ u # rest) = n * unit_secs u"
proof -
  have nd: "\<not> is_digit u" "\<not> is_digit (CHR ''a'')" using assms(2) by (auto simp: is_digit_def)
  show ?thesis
    using assms(1,3) nd by (auto simp: read_label_def digits_stop)
qed

lemma floor_parts:
  fixes s :: int
  assumes "0 < b"
  shows "s div a * a + s mod a div b * b \<le> s" "s < s div a * a + s mod a div b * b + b"
  using div_mult_mod_eq [of s a] div_mult_mod_eq [of "s mod a" b] pos_mod_bound [OF assms, of "s mod a"] pos_mod_sign [OF assms, of "s mod a"]
  by linarith+

lemma floor_part:
  fixes s :: int
  shows "0 < b \<Longrightarrow> s div b * b \<le> s" "0 < b \<Longrightarrow> s < s div b * b + b"
  using div_mult_mod_eq [of s b] pos_mod_bound [of b s] pos_mod_sign [of b s] by linarith+

lemma secs_add: "secs (a + b) = secs a + secs b"
  by (simp add: secs_def algebra_simps)

lemma secs_mult: "secs (n * k) = n * secs k"
  by (simp add: secs_def)

lemma secs_pos: "0 < n \<Longrightarrow> 0 < secs n"
  by (simp add: secs_def usec_def)

text \<open>The step of a label: seconds below a minute, minutes below a day, hours from there on.\<close>

definition label_step :: "int \<Rightarrow> int" where
  "label_step s = (if s < secs 60 then secs 1 else if s < secs 86400 then secs 60 else secs 3600)"

lemma read_age_label:
  assumes "0 \<le> s"
  shows "secs (read_label (age_label (Some s))) \<le> s \<and> s < secs (read_label (age_label (Some s))) + label_step s"
proof -
  have nn: "0 \<le> s div secs n" "0 \<le> s mod secs k div secs n" if "0 < n" "0 < k" for n k
    using assms that secs_pos by (simp_all add: pos_imp_zdiv_nonneg_iff)
  consider "s < secs 60" | "secs 60 \<le> s" "s < secs 3600" | "secs 3600 \<le> s" "s < secs 86400" | "secs 86400 \<le> s" by linarith
  then show ?thesis
  proof cases
    case 1
    have "secs 1 = usec" by (simp add: secs_def)
    with 1 assms floor_part [of usec s] show ?thesis
      by (simp add: age_label_def read_one_part int_seconds_def label_step_def unit_secs_def pos_imp_zdiv_nonneg_iff usec_def secs_def)
  next
    case 2
    then have "\<not> s < secs 60" "s < secs 86400" by (simp_all add: secs_def usec_def)
    with 2 nn(1) [of 60 1] floor_part [of "secs 60" s] show ?thesis
      by (simp add: age_label_def read_one_part label_step_def unit_secs_def secs_mult secs_pos)
  next
    case 3
    then have "\<not> s < secs 60" by (simp_all add: secs_def usec_def)
    with 3 nn(1) [of 3600 1] nn(2) [of 60 3600] floor_parts [of "secs 60" s "secs 3600"] show ?thesis
      by (simp add: age_label_def read_two_parts label_step_def unit_secs_def secs_add secs_mult secs_pos)
  next
    case 4
    then have "\<not> s < secs 60" "\<not> s < secs 3600" by (simp_all add: secs_def usec_def)
    with 4 nn(1) [of 86400 1] nn(2) [of 3600 86400] floor_parts [of "secs 3600" s "secs 86400"] show ?thesis
      by (simp add: age_label_def read_two_parts label_step_def unit_secs_def secs_add secs_mult secs_pos)
  qed
qed

lemma read_until_label:
  assumes "0 < s"
  shows "secs (read_label (drop 3 (until_label (Some s)))) \<le> s \<and>
    s < secs (read_label (drop 3 (until_label (Some s)))) + max (secs 60) (label_step s)"
proof -
  have nn: "0 \<le> s div secs n" "0 \<le> s mod secs k div secs n" if "0 < n" "0 < k" for n k
    using assms that secs_pos by (simp_all add: pos_imp_zdiv_nonneg_iff)
  have step: "max (secs 60) (label_step s) = (if s < secs 86400 then secs 60 else secs 3600)"
    by (simp add: label_step_def secs_def usec_def)
  consider "s < secs 3600" | "secs 3600 \<le> s" "s < secs 86400" | "secs 86400 \<le> s" by linarith
  then show ?thesis
  proof cases
    case 1
    then have "s < secs 86400" by (simp add: secs_def usec_def)
    with 1 assms nn(1) [of 60 1] floor_part [of "secs 60" s] show ?thesis
      by (simp add: until_label_def read_one_part step unit_secs_def secs_mult secs_pos)
  next
    case 2
    with assms nn(1) [of 3600 1] nn(2) [of 60 3600] floor_parts [of "secs 60" s "secs 3600"]
      read_two_parts [of "s div secs 3600" "s mod secs 3600 div secs 60" "CHR ''h''" "CHR ''m''" "[]"] show ?thesis
      by (simp add: until_label_def step unit_secs_def secs_add secs_mult secs_pos)
  next
    case 3
    then have "\<not> s < secs 3600" by (simp add: secs_def usec_def)
    with 3 assms nn(1) [of 86400 1] nn(2) [of 3600 86400] floor_parts [of "secs 3600" s "secs 86400"]
      read_two_parts [of "s div secs 86400" "s mod secs 86400 div secs 3600" "CHR ''d''" "CHR ''h''" "[]"] show ?thesis
      by (simp add: until_label_def step unit_secs_def secs_add secs_mult secs_pos)
  qed
qed

text \<open>A label never overstates and loses less than its last unit. Read back, the label of an age names at most that age and
  less than one step too little (a second below a minute, a minute below a day, an hour above); the label of a coming run does the same, with steps of
  no less than a minute.\<close>

lemma labels_truncate:
  assumes "0 < s"
  shows "secs (read_label (age_label (Some s))) \<le> s \<and> s < secs (read_label (age_label (Some s))) + label_step s \<and>
    secs (read_label (drop 3 (until_label (Some s)))) \<le> s \<and>
    s < secs (read_label (drop 3 (until_label (Some s)))) + max (secs 60) (label_step s)"
  using read_age_label [of s] read_until_label [OF assms] assms by simp

subsection \<open>Which slots are on plan\<close>

text \<open>The last planned fire of a slot, with no newest job of its kind created since.\<close>

definition unanswered_fire :: "tzdb \<Rightarrow> dict \<Rightarrow> instant \<Rightarrow> queue \<Rightarrow> string \<times> string \<Rightarrow> instant \<Rightarrow> bool" where
  "unanswered_fire db cfg now q sk p \<longleftrightarrow>
     (\<exists>cron. slot_cron cfg (fst sk) = Inr cron \<and> cron \<noteq> [] \<and> previous_fire db cron now 14 (schedule_timezone cfg) = Inr (Some p)) \<and>
     \<not> (\<exists>j. latest_job q (snd sk) = Some j \<and> p \<le> jcreated j)"

lemma fire_unanswered_iff:
  "fire_unanswered db cfg now q sk \<longleftrightarrow>
     (\<exists>p. unanswered_fire db cfg now q sk p \<and> secs (catchup_grace_sec cfg) \<le> now - p \<and> now - p \<le> secs 86400)"
  by (auto simp: fire_unanswered_def unanswered_fire_def)

lemma unanswered_fire_unique: "unanswered_fire db cfg now q sk p \<Longrightarrow> unanswered_fire db cfg now q sk p' \<Longrightarrow> p = p'"
  for sk :: "string \<times> string"
  by (auto simp: unanswered_fire_def)

lemma slot_plans_all: "slot_plans f sks = Inr ps \<Longrightarrow> list_all2 (\<lambda>sk p. f sk = Inr p) sks ps"
  by (induction sks arbitrary: ps) (auto simp: bind_err_eq_Inr)

lemma adherence_iff:
  "adherence now planned job_o = (case planned of
     Some p \<Rightarrow> if secs 7200 < now - p \<and> \<not> (\<exists>j. job_o = Some j \<and> p \<le> jcreated j) then (if job_o = None then ''no_data'' else ''late'') else ''on_plan''
   | None \<Rightarrow> ''on_plan'')"
  by (auto simp: adherence_def split: option.splits)

lemma slot_plan_of_Inr:
  assumes "slot_plan_of db cfg now q sk = Inr sp"
  shows "sp_slot sp = fst sk \<and> sp_kind sp = snd sk \<and> sp_pending sp = int (length (pending_of q (snd sk))) \<and>
    sp_late sp = (sp_adherence sp = ''late'') \<and>
    sp_adherence sp = (if \<exists>p. unanswered_fire db cfg now q sk p \<and> secs 7200 < now - p
                       then (if latest_job q (snd sk) = None then ''no_data'' else ''late'') else ''on_plan'')"
proof -
  obtain slot kind where sk: "sk = (slot, kind)" by (cases sk)
  from assms[unfolded sk] obtain slots scfg planned upcoming where r: "dict_of (dget cfg ''slots'') = Inr slots" "dict_of (dget slots slot) = Inr scfg"
      "(if text_or_empty (dget scfg ''cron'') = [] then Inr None
        else previous_fire db (text_or_empty (dget scfg ''cron'')) now 14 (schedule_timezone cfg)) = Inr planned"
    and sp: "sp_slot sp = slot" "sp_kind sp = kind" "sp_pending sp = int (length (pending_of q kind))"
      "sp_adherence sp = adherence now planned (latest_job q kind)" "sp_late sp = (sp_adherence sp = ''late'')"
    by (auto simp: slot_plan_of_def bind_err_eq_Inr Let_def)
  have "unanswered_fire db cfg now q sk p \<longleftrightarrow> planned = Some p \<and> \<not> (\<exists>j. latest_job q kind = Some j \<and> p \<le> jcreated j)" for p
    using r(3) by (auto simp: unanswered_fire_def slot_cron_def sk r(1,2) split: if_splits)
  with sp show ?thesis by (cases planned) (auto simp: adherence_iff sk)
qed

text \<open>A catch-up that goes through leaves an active job for every fire it calls missed.\<close>

lemma catchup_answers:
  assumes "catchup_missed_slots sha db cfg now (catchup_grace_sec cfg) q = (Inr ds, q')" "sk \<in> set SLOT_KIND"
    and "\<And>i j. i \<in> set (rows q) \<Longrightarrow> j \<in> set (rows q) \<Longrightarrow> jid i \<le> jid j \<Longrightarrow> jcreated i \<le> jcreated j"
    and "unanswered_fire db cfg now q sk p" "secs (catchup_grace_sec cfg) \<le> now - p" "now - p \<le> secs 86400"
  shows "\<exists>off. zone_of db (schedule_timezone cfg) = Inr off \<and> (\<exists>j \<in> set (rows q'). active j \<and> jkind j = snd sk \<and>
    jhash j = Some (payload_hash sha (catchup_identity (isoformat (local_date (local_time off p))))))"
proof -
  obtain slot kind where sk: "sk = (slot, kind)" by (cases sk)
  with assms(2) have same: "slot = kind" "(kind, kind) \<in> set SLOT_KIND" using SLOT_KIND_distinct by blast+
  from assms(1) obtain ms where ms: "missed_slots db cfg now (catchup_grace_sec cfg) (newest_job_per_kind q) = Inr ms"
    and e: "enqueue_missed sha now cfg ms q = (Inr ds, q')"
    by (auto simp: catchup_missed_slots_def split: sum.splits)
  have "fire_unanswered db cfg now q (kind, kind)"
    using assms(4-6) by (auto simp: fire_unanswered_iff sk same)
  with missed_slots_unanswered [OF ms same(2) newest_is_latest [OF assms(3)]] obtain m where m: "m \<in> set ms" "m_kind m = kind" by blast
  then obtain k where k: "k \<in> set SLOT_NAMES" "missed_slot db cfg now (catchup_grace_sec cfg) (newest_job_per_kind q) (k, k) = Inr (Some m)"
    using missed_slots_mem [OF ms] by blast
  note f = missed_slot_Some [OF k(2)]
  have "k = kind" using f(2) m(2) by simp
  with f(3) assms(4) have "m_planned m = p" by (auto simp: unanswered_fire_def sk same)
  with f(7) obtain off where off: "zone_of db (schedule_timezone cfg) = Inr off" "m_as_of m = isoformat (local_date (local_time off p))" by blast
  with enqueue_missed_active [OF e m(1)] f(1) \<open>k = kind\<close> slot_name_lower [OF k(1)] show ?thesis by (auto simp: sk)
qed

text \<open>C35: The queue dashboard flags exactly the slots that missed their plan. A slot's last planned fire, more than two hours old and
  with no job of its kind created since, is shown as late, or as without data when the kind never ran; every other slot is on plan. With
  a catch-up grace of at most two hours, ids in the order of creation and a fire at most a day old, a flag is something the worker acts
  on: after a catch-up that goes through at the same moment the queue has a pending or running job of that kind for the local day of the
  fire. The status counts and the pending jobs of each kind are those of the queue.\<close>

theorem plan_adherence_exact:
  assumes "queue_dashboard db cfg now q = Inr v"
  shows "list_all2 (\<lambda>sk sp. sp_slot sp = fst sk \<and> sp_kind sp = snd sk \<and>
       sp_adherence sp = (if \<exists>p. unanswered_fire db cfg now q sk p \<and> secs 7200 < now - p
                          then (if latest_job q (snd sk) = None then ''no_data'' else ''late'') else ''on_plan'') \<and>
       (\<forall>sha ds q' p. sp_adherence sp \<noteq> ''on_plan'' \<longrightarrow> unanswered_fire db cfg now q sk p \<longrightarrow> now - p \<le> secs 86400 \<longrightarrow>
          catchup_grace_sec cfg \<le> 7200 \<longrightarrow> (\<forall>i \<in> set (rows q). \<forall>j \<in> set (rows q). jid i \<le> jid j \<longrightarrow> jcreated i \<le> jcreated j) \<longrightarrow>
          catchup_missed_slots sha db cfg now (catchup_grace_sec cfg) q = (Inr ds, q') \<longrightarrow>
          (\<exists>off. zone_of db (schedule_timezone cfg) = Inr off \<and> (\<exists>j \<in> set (rows q'). active j \<and> jkind j = snd sk \<and>
             jhash j = Some (payload_hash sha (catchup_identity (isoformat (local_date (local_time off p)))))))) \<and>
       sp_pending sp = int (length (filter (\<lambda>j. jkind j = snd sk \<and> jstat j = Pending) (rows q)))) SLOT_KIND (qv_slots v) \<and>
     qv_counts v = map (\<lambda>s. (status_text s, int (length (filter (\<lambda>j. jstat j = s) (rows q))))) [Pending, Running, Done, Failed]"
    (is "list_all2 ?R _ _ \<and> _")
proof -
  from assms obtain plans where p: "slot_plans (slot_plan_of db cfg now q) SLOT_KIND = Inr plans" "qv_slots v = plans"
    and c: "qv_counts v = map (\<lambda>st. (st, get_or 0 (status_counts q) st)) JOB_STATUSES"
    by (auto simp: queue_dashboard_def bind_err_eq_Inr)
  have le: "secs (catchup_grace_sec cfg) \<le> x" if "catchup_grace_sec cfg \<le> 7200" "secs 7200 < x" for x
    using that by (simp add: secs_def usec_def)
  have rel: "?R sk sp" if sp: "slot_plan_of db cfg now q sk = Inr sp" and sk: "sk \<in> set SLOT_KIND" for sk sp
  proof -
    note s = slot_plan_of_Inr [OF sp]
    have late: "secs 7200 < now - p" if "sp_adherence sp \<noteq> ''on_plan''" "unanswered_fire db cfg now q sk p" for p
    proof -
      have "\<exists>p'. unanswered_fire db cfg now q sk p' \<and> secs 7200 < now - p'"
      proof (rule ccontr)
        assume "\<not> ?thesis"
        with s have "sp_adherence sp = ''on_plan''" by (simp only: if_False)
        with that(1) show False ..
      qed
      then obtain p' where p': "unanswered_fire db cfg now q sk p'" "secs 7200 < now - p'" by blast
      have "p = p'" using unanswered_fire_unique [OF that(2) p'(1)] .
      with p'(2) show ?thesis by simp
    qed
    have acted: "\<exists>off. zone_of db (schedule_timezone cfg) = Inr off \<and> (\<exists>j \<in> set (rows q'). active j \<and> jkind j = snd sk \<and>
        jhash j = Some (payload_hash sha (catchup_identity (isoformat (local_date (local_time off p))))))"
      if "sp_adherence sp \<noteq> ''on_plan''" "unanswered_fire db cfg now q sk p" "now - p \<le> secs 86400" "catchup_grace_sec cfg \<le> 7200"
        "\<forall>i \<in> set (rows q). \<forall>j \<in> set (rows q). jid i \<le> jid j \<longrightarrow> jcreated i \<le> jcreated j"
        "catchup_missed_slots sha db cfg now (catchup_grace_sec cfg) q = (Inr ds, q')" for sha ds q' p
      by (rule catchup_answers [OF that(6) sk _ that(2) le [OF that(4) late [OF that(1,2)]] that(3)]) (use that(5) in blast)
    show ?thesis
    proof (intro conjI allI impI)
      show "sp_slot sp = fst sk" "sp_kind sp = snd sk" by (rule s [THEN conjunct1], rule s [THEN conjunct2, THEN conjunct1])
      show "sp_adherence sp = (if \<exists>p. unanswered_fire db cfg now q sk p \<and> secs 7200 < now - p
          then (if latest_job q (snd sk) = None then ''no_data'' else ''late'') else ''on_plan'')"
        by (rule s [THEN conjunct2, THEN conjunct2, THEN conjunct2, THEN conjunct2])
      show "sp_pending sp = int (length (filter (\<lambda>j. jkind j = snd sk \<and> jstat j = Pending) (rows q)))"
        using s [THEN conjunct2, THEN conjunct2, THEN conjunct1] by (simp only: pending_of_def)
    qed (rule acted; assumption)
  qed
  have "list_all2 ?R SLOT_KIND (qv_slots v)"
    unfolding p(2) by (rule list.rel_mono_strong [OF slot_plans_all [OF p(1)]]) (rule rel)
  moreover have js: "JOB_STATUSES = map status_text [Pending, Running, Done, Failed]"
    by (simp add: JOB_STATUSES_def status_text_def)
  have "qv_counts v = map (\<lambda>s. (status_text s, int (length (filter (\<lambda>j. jstat j = s) (rows q))))) [Pending, Running, Done, Failed]"
    unfolding c js by (simp add: status_counts_get)
  ultimately show ?thesis by blast
qed

theorem plan_adherence_exact_witness:
  "\<exists>v. queue_dashboard (\<lambda>_. None) sample_schedule sample_late empty_queue = Inr v \<and> map sp_adherence (qv_slots v) = [''on_plan'', ''on_plan'']"
proof -
  let ?db = "\<lambda>_. None"
  obtain up where up: "next_fires ?db ''30 6 * * 1-6'' sample_late 3 14 None = Inr up"
    using sample_parse by (auto simp: next_fires_def iter_cron_fires_def zone_of_def Let_def)
  let ?scfg = "[(''cron'', PStr ''30 6 * * 1-6''), (''priority'', PInt 5), (''max_attempts'', PInt 8)]"
  have c: "dict_of (dget sample_schedule ''slots'') = Inr [(''flex-trades'', PDict ?scfg)]" "dict_of (PDict ?scfg) = Inr ?scfg" "dict_of PNone = Inr []"
    "text_or_empty (PStr ''30 6 * * 1-6'') = ''30 6 * * 1-6''" "text_or_empty PNone = []"
    by (simp_all add: sample_schedule_def dict_of_def text_or_empty_def)
  have "\<exists>v. queue_dashboard ?db sample_schedule sample_late empty_queue = Inr v"
    by (simp add: queue_dashboard_def SLOT_KIND_def slot_plan_of_def c Let_def sample_schedule_simps sample_previous_fire up)
  then obtain v where v: "queue_dashboard ?db sample_schedule sample_late empty_queue = Inr v" by blast
  have u: "unanswered_fire ?db sample_schedule sample_late empty_queue (''flex-trades'', ''flex-trades'') p \<Longrightarrow> p = secs 23400"
    "\<not> unanswered_fire ?db sample_schedule sample_late empty_queue (''flex-transactions'', ''flex-transactions'') p" for p
    by (simp_all add: unanswered_fire_def sample_schedule_simps sample_previous_fire)
  have "\<not> secs 7200 < sample_late - secs 23400" by (simp add: sample_late_def secs_def usec_def)
  with u(1) have n: "\<not> (\<exists>p. unanswered_fire ?db sample_schedule sample_late empty_queue (''flex-trades'', ''flex-trades'') p \<and> secs 7200 < sample_late - p)"
    "\<not> (\<exists>p. unanswered_fire ?db sample_schedule sample_late empty_queue (''flex-transactions'', ''flex-transactions'') p \<and> secs 7200 < sample_late - p)"
    using u(2) by metis+
  obtain a b where ab: "qv_slots v = [a, b]"
    using plan_adherence_exact [OF v] by (auto simp: SLOT_KIND_def list_all2_Cons1)
  have "sp_adherence a = ''on_plan'' \<and> sp_adherence b = ''on_plan''"
    using plan_adherence_exact [OF v, THEN conjunct1, unfolded SLOT_KIND_def ab list_all2_Cons fst_conv snd_conv if_not_P [OF n(1)] if_not_P [OF n(2)]]
    by (elim conjE) (intro conjI; assumption)
  with ab v show ?thesis by (intro exI [of _ v] conjI) simp_all
qed

subsection \<open>The minute before a fire\<close>

text \<open>A fire less than a minute ahead is in neither list: \<open>next_fires\<close> starts a whole minute after now, \<open>previous_fire\<close> ends at now. In the
  minute before a planned run the dashboard shows the run after it as the next one.\<close>

lemma imminent_fire_not_shown:
  assumes "next_fires db cron now 1 14 tz = Inr up" "previous_fire db cron now 14 tz = Inr prev" "now \<le> t" "t < now + minute"
  shows "t \<notin> set up \<and> prev \<noteq> Some t"
  by (rule cal.imminent_in_neither [OF assms])

end
