(* ===== verification/Data_Views.thy ===== *)
theory Data_Views
  imports Ops_Schema Flex_Reports
begin

text \<open>
  The remaining read-only answers: \<^verbatim>\<open>api/coverage.py\<close> (row counts and freshness rows), \<^verbatim>\<open>api/raw_peek.py\<close> (the newest rows of a
  landed table) and \<^verbatim>\<open>worker/health.py\<close> (the worker's health answer). A finite \<open>numeric\<close> is a mantissa and a scale; the two
  peeked tables have no binary column.
\<close>

subsection \<open>Row counts and freshness\<close>

definition TABLES :: "(string \<times> string \<times> string option) list" where
  "TABLES = [(''executions_raw_flex'', ''raw_broker.executions_raw_flex'', Some ''exec_time''),
     (''transactions'', ''raw_broker.transactions'', Some ''ts''), (''settings_flex'', ''raw_broker.settings_flex'', None),
     (''positions'', ''raw_broker.positions'', Some ''updated_at'')]"

record table_view =
  tv_name :: string
  tv_relation :: string
  tv_row_count :: "int option"
  tv_latest_ts :: "instant option"

text \<open>What \<open>count(*)\<close> of a relation and \<open>max(column)\<close> gave; a failed one shows as missing.\<close>

definition db_summary :: "(string \<Rightarrow> py_error + int) \<Rightarrow> (string \<Rightarrow> string \<Rightarrow> py_error + instant option) \<Rightarrow> table_view list" where
  "db_summary counts latest = map (\<lambda>(name, fq, ts_col).
     \<lparr>tv_name = name, tv_relation = fq, tv_row_count = (case counts fq of Inr n \<Rightarrow> Some n | Inl _ \<Rightarrow> None),
      tv_latest_ts = (case ts_col of None \<Rightarrow> None | Some c \<Rightarrow> (case latest fq c of Inr t \<Rightarrow> t | Inl _ \<Rightarrow> None))\<rparr>) TABLES"

record freshness_view =
  fv_dimension :: string
  fv_latest_ts :: "instant option"
  fv_row_count :: "int option"
  fv_updated_at :: instant

definition freshness_rows :: "bool \<Rightarrow> freshness_table \<Rightarrow> freshness_view list" where
  "freshness_rows fault fresh = (if fault then [] else map (\<lambda>r. \<lparr>fv_dimension = dimension r, fv_latest_ts = latest_ts r,
     fv_row_count = f_row_count r, fv_updated_at = f_updated_at r\<rparr>) (sort_key dimension fresh))"

subsection \<open>The newest rows of a table\<close>

datatype dbval =
    DNull
  | DText string
  | DInt int
  | DDouble pyfloat
  | DDecimal int nat
  | DStamp int instant
  | DDate date

type_synonym dbrow = "(string \<times> dbval) list"

text \<open>\<open>datetime.isoformat()\<close>: microseconds when there are some, then the offset (whole minutes).\<close>

definition iso_datetime :: "int \<Rightarrow> instant \<Rightarrow> string" where
  "iso_datetime off t =
     (let l = t + off; us = l mod usec in
      isoformat (local_date l) @ ''T'' @ pad 2 (nat (local_hour l)) @ '':'' @ pad 2 (nat (local_minute l)) @ '':'' @ pad 2 (nat (local_second l)) @
      (if us = 0 then [] else ''.'' @ pad 6 (nat us)) @
      (if off < 0 then ''-'' else ''+'') @ pad 2 (nat (\<bar>off\<bar> div secs 3600)) @ '':'' @ pad 2 (nat (\<bar>off\<bar> mod secs 3600 div secs 60)))"

definition cell_of :: "dbval \<Rightarrow> cell" where
  "cell_of v = (case v of
      DNull \<Rightarrow> CNone
    | DStamp off t \<Rightarrow> CStr (iso_datetime off t)
    | DDate d \<Rightarrow> CStr (isoformat d)
    | DDecimal m k \<Rightarrow> CFloat (round64 (m < 0) \<bar>m\<bar> (10 ^ k))
    | DText s \<Rightarrow> CStr s
    | DInt n \<Rightarrow> CInt n
    | DDouble f \<Rightarrow> CFloat f)"

definition PEEK :: "(string \<times> string \<times> string \<times> string list) list" where
  "PEEK = [(''executions_raw_flex'', ''raw_broker.executions_raw_flex'', ''exec_time'',
       [''exec_time'', ''account_id'', ''contract_key'', ''side'', ''quantity'', ''price'', ''exec_id'', ''source'']),
     (''transactions'', ''raw_broker.transactions'', ''ts'',
       [''ts'', ''account_id'', ''amount'', ''type'', ''description'', ''currency'', ''symbol''])]"

definition column :: "string \<Rightarrow> dbrow \<Rightarrow> dbval" where
  "column c r = (case map_of r c of None \<Rightarrow> DNull | Some v \<Rightarrow> v)"

definition stamp_of :: "string \<Rightarrow> dbrow \<Rightarrow> instant option" where
  "stamp_of c r = (case column c r of DStamp _ t \<Rightarrow> Some t | _ \<Rightarrow> None)"

text \<open>\<open>ORDER BY c DESC NULLS LAST LIMIT n\<close>; rows with equal stamps keep the order of the table.\<close>

definition newest_first :: "string \<Rightarrow> dbrow list \<Rightarrow> dbrow list" where
  "newest_first c rs = sort_key (\<lambda>r. - the (stamp_of c r)) (filter (\<lambda>r. stamp_of c r \<noteq> None) rs) @ filter (\<lambda>r. stamp_of c r = None) rs"

record peek_view =
  pk_table :: string
  pk_row_count :: int
  pk_columns :: "string list"
  pk_rows :: "cell list list"

text \<open>The handler of \<open>GET /flex/coverage/raw-peek\<close>; \<open>db\<close> gives the rows of a relation, or the error of reading them. A limit
  outside 1 to 100 does not reach it.\<close>

definition raw_peek :: "(string \<Rightarrow> py_error + dbrow list) \<Rightarrow> string \<Rightarrow> nat \<Rightarrow> py_error + peek_view" where
  "raw_peek db table limit = (case map_of PEEK table of
      None \<Rightarrow> Inl (HTTPException 422 ''unsupported table'')
    | Some (fq, order_col, columns) \<Rightarrow>
        (case db fq of
           Inl e \<Rightarrow> Inl (HTTPException 503 (''raw peek failed: '' @ exn_text e))
         | Inr rs \<Rightarrow>
             let shown = map (\<lambda>r. map (\<lambda>c. cell_of (column c r)) columns) (take limit (newest_first order_col rs)) in
             Inr \<lparr>pk_table = table, pk_row_count = int (length shown), pk_columns = columns, pk_rows = shown\<rparr>))"

subsection \<open>Worker health\<close>

text \<open>\<open>json.dumps\<close> of an object of texts, whole numbers and truth values.\<close>

definition json_object :: "dict \<Rightarrow> string" where
  "json_object d = ''{'' @ join '', '' (map (\<lambda>(k, v). json_str k @ '': '' @ json_canonical v) d) @ ''}''"

definition health_fields :: "worker_counters \<Rightarrow> dict" where
  "health_fields w = [(''ok'', PBool True), (''status'', PStr ''ok''), (''pool'', PStr ''flex''), (''jobs_done'', PInt (jobs_done w)),
     (''jobs_failed'', PInt (jobs_failed w)), (''jobs_retried'', PInt (jobs_retried w)), (''last_kind'', PStr (the_text (last_kind w))),
     (''last_claim_at'', PStr (last_claim_at w)), (''last_error'', PStr (w_last_error w)), (''last_error_category'', PStr (w_last_error_category w)),
     (''stale_reclaimed'', PInt (stale_reclaimed w)), (''db_reconnects'', PInt (db_reconnects w))]"

record http_answer =
  ha_status :: int
  ha_headers :: "(string \<times> string) list"
  ha_body :: string

definition do_GET :: "worker_counters \<Rightarrow> string \<Rightarrow> http_answer" where
  "do_GET w path =
     (if path \<notin> {''/health'', ''/healthz'', ''/ready''} then \<lparr>ha_status = 404, ha_headers = [], ha_body = []\<rparr>
      else let body = json_object (health_fields w) in
        \<lparr>ha_status = 200, ha_headers = [(''Content-Type'', ''application/json''), (''Content-Length'', show_int (int (length body)))], ha_body = body\<rparr>)"

subsection \<open>What a peek shows\<close>

text \<open>\<open>r\<close> comes no later than \<open>u\<close> in the order newest first, rows without a stamp last.\<close>

definition not_older :: "string \<Rightarrow> dbrow \<Rightarrow> dbrow \<Rightarrow> bool" where
  "not_older c r u = (case stamp_of c u of None \<Rightarrow> True | Some t \<Rightarrow> (case stamp_of c r of None \<Rightarrow> False | Some s \<Rightarrow> t \<le> s))"

lemma newest_first_mset: "mset (newest_first c rs) = mset rs"
  unfolding newest_first_def by (induction rs) auto

lemma newest_first_sorted: "sorted_wrt (not_older c) (newest_first c rs)"
proof -
  have "sorted_wrt (\<lambda>x y. - the (stamp_of c x) \<le> - the (stamp_of c y)) (sort_key (\<lambda>r. - the (stamp_of c r)) (filter (\<lambda>r. stamp_of c r \<noteq> None) rs))"
    using sorted_sort_key [of "\<lambda>r. - the (stamp_of c r)"] by (simp add: sorted_map)
  then have "sorted_wrt (not_older c) (sort_key (\<lambda>r. - the (stamp_of c r)) (filter (\<lambda>r. stamp_of c r \<noteq> None) rs))"
    by (rule sorted_wrt_mono_rel [rotated]) (auto simp: not_older_def)
  moreover have "sorted_wrt (not_older c) (filter (\<lambda>r. stamp_of c r = None) rs)"
    by (induction rs) (auto simp: not_older_def)
  ultimately show ?thesis by (auto simp: newest_first_def sorted_wrt_append not_older_def)
qed

text \<open>A peek shows as many rows as asked for, or all there are; no row left out is newer than one that is shown, and the rows shown
  are in that order too.\<close>

lemma peek_shows_newest:
  assumes "raw_peek db table limit = Inr v"
  obtains fq col cols rs shown rest where "map_of PEEK table = Some (fq, col, cols)" "db fq = Inr rs" "mset (shown @ rest) = mset rs"
    "length shown = min limit (length rs)" "pk_rows v = map (\<lambda>r. map (\<lambda>c. cell_of (column c r)) cols) shown"
    "sorted_wrt (not_older col) shown" "\<And>r u. r \<in> set shown \<Longrightarrow> u \<in> set rest \<Longrightarrow> not_older col r u"
proof -
  from assms obtain fq col cols rs where p: "map_of PEEK table = Some (fq, col, cols)" "db fq = Inr rs"
    "pk_rows v = map (\<lambda>r. map (\<lambda>c. cell_of (column c r)) cols) (take limit (newest_first col rs))"
    by (auto simp: raw_peek_def Let_def split: option.splits sum.splits)
  let ?n = "newest_first col rs"
  have "sorted_wrt (not_older col) (take limit ?n @ drop limit ?n)" using newest_first_sorted [of col rs] by simp
  then have "sorted_wrt (not_older col) (take limit ?n)" "\<And>r u. r \<in> set (take limit ?n) \<Longrightarrow> u \<in> set (drop limit ?n) \<Longrightarrow> not_older col r u"
    by (simp_all only: sorted_wrt_append)
  moreover have "mset (take limit ?n @ drop limit ?n) = mset rs" by (simp only: append_take_drop_id newest_first_mset)
  moreover have "length (take limit ?n) = min limit (length rs)"
    using arg_cong [OF newest_first_mset [of col rs], of size] by (simp add: min.commute)
  ultimately show ?thesis using that p by blast
qed

end
