(* ===== verification/Spec2Isabelle.thy ===== *)
theory Spec2Isabelle
  imports System_Run Ingest_Run Row_Types Notify Config_Files Config_Api Dashboards Data_Views
begin

text \<open>
  Verification development of the Flex Query plugin (\<^verbatim>\<open>src/src/bifrost_flex_query\<close>): a service that fetches
  Interactive Brokers Flex reports on a schedule and stores their trades and cash transactions in Golden Source.

  \<^bold>\<open>The program.\<close> A schedule (\<^verbatim>\<open>scheduler/daily.py\<close>, \<^verbatim>\<open>scheduler/cronutil.py\<close>) enqueues one job per slot and day into the table
  \<^verbatim>\<open>ops_jobs.job_flex_ingest\<close> (\<^verbatim>\<open>scheduler/enqueue.py\<close>, \<^verbatim>\<open>schema/ddl.py\<close>). One worker process (\<^verbatim>\<open>worker/loop.py\<close>) polls the
  table: it reclaims stale runs, catches up missed slots (\<^verbatim>\<open>worker/catchup.py\<close>), claims a job (\<^verbatim>\<open>worker/claim.py\<close>), runs its
  handler (\<^verbatim>\<open>worker/handlers.py\<close>) and records the outcome; a failure is classified and planned by \<^verbatim>\<open>worker/retry.py\<close>. A handler
  calls \<^verbatim>\<open>orchestration/trades.py\<close> or \<^verbatim>\<open>orchestration/transactions.py\<close>, which choose the window of days, ask the broker through
  \<^verbatim>\<open>client/flex_client.py\<close>, parse the report and hand the rows to the writers of \<^verbatim>\<open>bifrost_core\<close>. The HTTP API enqueues jobs,
  releases deferred ones, runs a fetch by hand and answers the self-check (\<^verbatim>\<open>api/ingest.py\<close>, \<^verbatim>\<open>api/manual_ops.py\<close>, \<^verbatim>\<open>api/ops.py\<close>),
  reads and writes the Flex configuration (\<^verbatim>\<open>api/config_summary.py\<close>), and shows dashboards and Prometheus metrics over the same tables.

  \<^bold>\<open>Library.\<close>

  \<^item> \<open>Flex_Prelude\<close>: errors, the error monad \<open>bind_err\<close>, instants (microseconds of one clock), shared lemmas.
  \<^item> \<open>Py_Text\<close>, \<open>Py_Values\<close>, \<open>Py_Float\<close>, \<open>Calendar_Dates\<close>: what the code uses of Python: string methods, \<open>dict\<close> and JSON
    values, binary64 numbers with their reading and rounding, the proleptic calendar with \<open>strftime\<close> and \<open>strptime\<close>.
  \<^item> \<open>Keyed_Table\<close>: the interface of a table with a primary key as a locale, interpreted on the job table, the freshness table and the
    heartbeat table.
  \<^item> \<open>Exposition\<close>: the Prometheus text format as the code writes it and an independent reader; what is written reads back.

  \<^bold>\<open>Queue and worker.\<close>

  \<^item> \<open>Retry_Policy\<close> (\<^verbatim>\<open>worker/retry.py\<close>): error text to category, category to plan; categories are ordered by severity and
    the category of joined messages is the worst of the parts.
  \<^item> \<open>Job_Queue\<close> (\<^verbatim>\<open>enqueue.py\<close>, \<^verbatim>\<open>claim.py\<close>): the job table, the enqueue with its partial unique index, claim order, stale
    reclaim, the outcomes, the queue-wide cooldown.
  \<^item> \<open>Ops_Schema\<close> (\<^verbatim>\<open>schema/ddl.py\<close>): the schema call from any older catalogue, the freshness and heartbeat upserts.
  \<^item> \<open>Cron_Plan\<close>, \<open>Local_Clock\<close>, \<open>Slot_Scheduler\<close>: fires of a cron in a zone and the interface of a plan (a locale, interpreted
    on the cron search), slot enqueue with de-duplication, the command line, missed slots and catch-up.
  \<^item> \<open>Worker_Loop\<close> (\<^verbatim>\<open>loop.py\<close>, \<^verbatim>\<open>handlers.py\<close>): dispatch, the poll, the end of a run on every branch, the reconnecting database call, the
    count of rows a run added.
  \<^item> \<open>Config_Files\<close> (\<^verbatim>\<open>config.py\<close>, \<^verbatim>\<open>scheduler/daily.py\<close>): which configuration and schedule file a process reads, and what a missing one does.
  \<^item> \<open>Ingest_Api\<close> (\<^verbatim>\<open>api/ingest.py\<close>, \<^verbatim>\<open>api/manual_ops.py\<close>, \<^verbatim>\<open>api/deps.py\<close>): enqueue, run-now, manual runs with their audit row, write tokens.
  \<^item> \<open>System_Run\<close>: worker, API and command line interleaved as a step relation over the shared tables; reachable states keep every
    attempt within its budget, every step follows the job life cycle (a refinement), settled jobs are final and every job settles.

  \<^bold>\<open>Fetching.\<close>

  \<^item> \<open>Fetch_Windows\<close>: the trades and cash windows, their split into requests, the date check of a request.
  \<^item> \<open>Flex_Xml\<close>, \<open>Flex_Client\<close>, \<open>Flex_Reports\<close> (\<^verbatim>\<open>client/flex_client.py\<close>): the report tree and time stamps, the two-step
    request protocol with its polls, the two parsers with every field. \<open>Row_Types\<close>: the columns and cell types of the rows they give.
  \<^item> \<open>Flex_Config\<close> (\<^verbatim>\<open>config.py\<close>, \<^verbatim>\<open>orchestration/config_rw.py\<close>): tokens, queries and range days of Golden Source and their atomic rewrite.
  \<^item> \<open>Cash_Fetch\<close>, \<open>Trades_Fetch\<close>: the two orchestrations on every branch. \<open>Ingest_Run\<close> composes them with the
    handlers: errors of single queries or chunks reach the retry policy in their worst category.
  \<^item> \<open>Notify\<close> (\<^verbatim>\<open>orchestration/notify.py\<close>): which Redis a run's message goes to, and that its failures stay its own.

  \<^bold>\<open>Operations.\<close>

  \<^item> \<open>Ledger_Coverage\<close> (\<^verbatim>\<open>ops/coverage.py\<close>): months with executions and no cash row.
  \<^item> \<open>Self_Check\<close> (\<^verbatim>\<open>ops/diagnose.py\<close>, \<^verbatim>\<open>api/ops.py\<close>): verdicts, checks, next step; a green answer means that nothing is wrong and
    the missed verdict agrees with the catch-up.
  \<^item> \<open>Config_Api\<close> (\<^verbatim>\<open>api/config_summary.py\<close>): the summary tells no more of a token than its last four characters; a write is shown
    as a whole or refused without a trace.
  \<^item> \<open>Http_Metrics\<close>, \<open>Ops_Metrics\<close> (\<^verbatim>\<open>api/http_metrics.py\<close>, \<^verbatim>\<open>api/metrics.py\<close>): each request is counted once and falls into the right latency
    buckets; the job gauges are those of the queue and the document reads back.
  \<^item> \<open>Dashboards\<close> (\<^verbatim>\<open>api/freshness_kpis.py\<close>, \<^verbatim>\<open>api/ingest_dashboard.py\<close>): the Overview figures, their labels, and which slots are off plan.
  \<^item> \<open>Data_Views\<close> (\<^verbatim>\<open>api/coverage.py\<close>, \<^verbatim>\<open>api/raw_peek.py\<close>, \<^verbatim>\<open>worker/health.py\<close>): row counts, the newest rows of a table, the health answer.

  This theory holds the properties that cross the queue, the worker and the API.

  \<^bold>\<open>State and effects.\<close> Tables are lists of records; an operation takes the tables it touches and returns them updated, with
  \<open>Inl\<close> of an error on every raise. A statement reads one clock value; where the code reads the clock twice the two readings are
  two arguments. Only one worker runs (\<^verbatim>\<open>k8s/base/deployment-worker.yaml\<close>: one replica, strategy Recreate); rows another
  session has locked are the argument \<open>locked\<close> of \<open>claim_next\<close>. The request log of the broker (\<open>wire\<close>) is part of the state. The lock of the
  request metrics makes every recording one step, so the counters are a function of the sequence of requests. A view reads its tables as
  one snapshot. Differences of instants are exact microseconds; time stamps and seconds that are printed are binary64 numbers.

  \<^bold>\<open>Parameters.\<close> SHA-256, the zone database and the wall clock of the exchange, the XML parser and the YAML loader, the broker (a function of the
  requests sent so far), the writers and Redis settings of \<^verbatim>\<open>bifrost_core\<close>, the Redis client, failures of database calls, and the reads of landed
  tables the model has no columns for are arguments.

  \<^bold>\<open>Bounds.\<close> The loops of the code are bounded by the code itself: 24 polls for a report, six tries and 135 seconds for a database call,
  windows of at most 364 days per cash request and 366 in the client's check, 14 days of cron search. Recursion over a window of days or
  minutes has a termination proof. Round trips of printed dates hold from the year 1000 (day 364878) on, where \<open>%Y\<close> has four digits.

  \<^bold>\<open>Not modelled.\<close> The network and the HTTP servers; the wiring of the FastAPI application and the worker's command line (\<^verbatim>\<open>api/app.py\<close>,
  \<^verbatim>\<open>worker/runner.py\<close>); sleeping; text outside ASCII (a dash or an ellipsis of a message is its three bytes); fractional numbers in a
  JSON body; binary columns; logging.
\<close>

subsection \<open>From an error text to the queue\<close>

lemma run_job_failed:
  assumes "run_job env s now later fc c w = Inr w'"
    and "fst (dispatch env now (ckind c) (cpayload c) (cid c) (w_fresh w)) = Inl e"
  obtains fresh where "finish_failed s now later fc c (exn_text e) (w\<lparr>w_fresh := fresh\<rparr>) = Inr w'"
  using assms by (auto simp: run_job_def split: prod.splits)

text \<open>C3: A throttle cools the whole queue. When the job in hand fails on a message that quotes [1018] and has
  attempts left, then afterwards no pending job of the queue - the job itself or any other - can be
  claimed before the configured throttle delay has passed.\<close>

theorem throttled_run_cools_queue:
  assumes "reachable P (w, ms)" and "w_job w = Some c" and "s_policy (p_settings P) = from_config conf"
    and "run_job env (p_settings P) now later fresh_conn c w = Inr w'" and "now \<le> later"
    and "fst (dispatch env now (ckind c) (cpayload c) (cid c) (w_fresh w)) = Inl e"
    and "contains ''[1018]'' (exn_text e)" and "cattempts c < cmax c"
    and "look (w_queue w') i = Some j" and "jstat j = Pending"
    and "t < now + secs (throttled_delay_sec (from_config conf))"
  shows "\<not> runnable t j"
proof -
  let ?s = "p_settings P"
  let ?d = "throttled_delay_sec (from_config conf)"
  obtain fresh where ff: "finish_failed ?s now later fresh_conn c (exn_text e) (w\<lparr>w_fresh := fresh\<rparr>) = Inr w'"
    using run_job_failed [OF assms(4,6)] .
  have cl: "classify_flex_error (exn_text e) = THROTTLED"
    using assms(7) by (simp add: classify_throttled_iff)
  define plan where "plan = plan_retry THROTTLED (cattempts c) (cmax c) (from_config conf)"
  have plan: "plan_retries plan" "delay_sec plan = ?d" "cooldown_all_sec plan = ?d"
    using assms(8) by (auto simp: plan_def plan_retry_def plan_retries_def Let_def)
  have d0: "?d \<noteq> 0" using from_config_ge(2) [of conf] by linarith
  from finish_failed_Inr(2) [OF ff] plan d0 obtain q1 where
    m: "mark_retry (cid c) (exn_text e) (category_value (plan_category plan)) ?d now (w_queue w) = Inr q1"
    and w': "w_queue w' = snd (defer_pending ?d (Some (cid c)) later q1)"
    by (auto simp: cl assms(3) simp flip: plan_def)
  from assms(9) obtain j1 where j1: "look q1 i = Some j1"
    and j: "j = (if jstat j1 = Pending \<and> jid j1 \<noteq> cid c then defer_row ?d later j1 else j1)"
    by (auto simp: w' look_defer)
  have i: "jid j1 = i" using jq.look_key [OF j1] .
  show ?thesis
  proof (cases "i = cid c")
    case True
    with j1 look_mark_retry [OF m, of i] obtain j0 where "j1 = retry_row (exn_text e) (category_value (plan_category plan)) ?d now j0"
      by (cases "look (w_queue w) i") auto
    with j i True have "jnot_before j = Some (now + secs ?d)" by (simp add: retry_row_def)
    with assms(11) show ?thesis by (simp add: runnable_def)
  next
    case False
    then have "jstat j1 = Pending" using j assms(10) by (auto split: if_splits)
    with j i False have "j = defer_row ?d later j1" by simp
    with assms(5,11) show ?thesis by (auto simp: runnable_def defer_row_def)
  qed
qed

definition throttled_ingest :: ingest where
  "throttled_ingest = sample_ingest\<lparr>orchestrate :=
     (\<lambda>_ _. Inr [(''ok'', PBool False), (''error'', PStr ''Flex request failed: [1018] Too many requests'')])\<rparr>"

lemma throttled_dispatch:
  "dispatch throttled_ingest now ''flex-trades'' p i f = (Inl (RuntimeError ''Flex request failed: [1018] Too many requests''), f)"
proof -
  have "strip ''flex-trades'' = ''flex-trades''" by code_simp
  then show ?thesis
    by (simp add: dispatch_def throttled_ingest_def sample_ingest_def HANDLERS_def require_ok_def)
qed

lemma default_from_config: "default_policy = from_config []"
  by (simp add: from_config_def policy_field_def Let_def default_policy_def)

theorem throttled_run_cools_queue_witness:
  "\<exists>w' j. run_job throttled_ingest sample_settings 20 21 None sample_job sample_held = Inr w' \<and>
     look (w_queue w') 1 = Some j \<and> jstat j = Pending \<and> \<not> runnable (secs 1799) j"
proof -
  let ?m = "''Flex request failed: [1018] Too many requests''"
  have c: "contains ''[1018]'' ?m" by code_simp
  obtain w' where w': "run_job throttled_ingest sample_settings 20 21 None sample_job sample_held = Inr w'"
    using worker_live [OF sample_reachable(2), of "[]" 20 throttled_ingest 21 None] sample_look(3)
    by (auto simp: sample_platform_def)
  have d: "fst (dispatch throttled_ingest 20 (ckind sample_job) (cpayload sample_job) (cid sample_job) (w_fresh sample_held)) =
      Inl (RuntimeError ?m)" by (simp add: throttled_dispatch sample_job_def)
  obtain fresh where ff: "finish_failed sample_settings 20 21 None sample_job (exn_text (RuntimeError ?m))
      (sample_held\<lparr>w_fresh := fresh\<rparr>) = Inr w'"
    using run_job_failed [OF w' d] .
  from c have "classify_flex_error ?m = THROTTLED" by (simp add: classify_throttled_iff)
  then have p: "plan_retries (plan_retry (classify_flex_error (exn_text (RuntimeError ?m))) (cattempts sample_job)
      (cmax sample_job) (s_policy sample_settings))"
    by (simp add: plan_retry_status sample_job_def)
  obtain j where j: "look (w_queue w') 1 = Some j" "jstat j = Pending"
    using finish_failed_pending [OF ff _ p] sample_look(2) by (auto simp: sample_job_def)
  have t: "throttled_delay_sec (from_config []) = 1800"
    by (simp add: default_from_config [symmetric] default_policy_def)
  have ps: "p_settings sample_platform = sample_settings" "s_policy sample_settings = from_config []"
    by (simp_all add: sample_platform_def sample_settings_def default_from_config)
  have ca: "cattempts sample_job < cmax sample_job" by (simp add: sample_job_def)
  have "\<not> runnable (secs 1799) j"
    using throttled_run_cools_queue [where P = sample_platform and conf = "[]" and now = 20 and later = 21,
        OF sample_reachable(2) sample_look(3) _ _ _ d _ ca j] w' c
    by (simp add: ps t secs_def usec_def)
  with w' j show ?thesis by blast
qed

text \<open>A throttle on the last attempt cools nothing: the job fails for good and every other row of the queue
  is exactly as it was, so the next poll may claim another job and send it to the throttled token.\<close>

lemma final_throttle_skips_cooldown:
  assumes "run_job env s now later fresh_conn c w = Inr w'"
    and "fst (dispatch env now (ckind c) (cpayload c) (cid c) (w_fresh w)) = Inl e"
    and "cmax c \<le> cattempts c" and "k \<noteq> cid c"
  shows "look (w_queue w') k = look (w_queue w) k"
proof -
  obtain fresh where ff: "finish_failed s now later fresh_conn c (exn_text e) (w\<lparr>w_fresh := fresh\<rparr>) = Inr w'"
    using run_job_failed [OF assms(1,2)] .
  have "\<not> plan_retries (plan_retry (classify_flex_error (exn_text e)) (cattempts c) (cmax c) (s_policy s))"
    using assms(3) by (simp add: plan_retry_status)
  from finish_failed_Inr(3) [OF ff this] assms(4) show ?thesis by (simp add: look_mark_failed)
qed

text \<open>A job that is only waiting because another job met the throttle - pushed out by the queue-wide cooldown -
  is not refused by run-now: without \<^verbatim>\<open>force\<close> it becomes claimable at once.\<close>

lemma run_now_bypasses_cooldown:
  assumes "look q i = Some j" and "jstat j = Pending" and "jcategory j \<noteq> Some ''throttled''"
  shows "\<exists>r q' j'. run_job_now zs cfg now i False (snd (defer_pending delay (Some other) later q)) = Inr (r, q') \<and>
    look q' i = Some j' \<and> runnable now j'"
proof -
  let ?q = "snd (defer_pending delay (Some other) later q)"
  obtain j1 where j1: "look ?q i = Some j1" "jstat j1 = Pending" "jcategory j1 \<noteq> Some ''throttled''"
    using assms by (auto simp: look_defer defer_row_def)
  then obtain r q' where r: "run_job_now zs cfg now i False ?q = Inr (r, q')"
    by (auto simp: run_job_now_def)
  with look_run_now [OF r, of i] j1 show ?thesis
    by (auto simp: runnable_def run_now_row_def)
qed

end
